(* ===== verification/Go_Prelude.thy ===== *)
theory Go_Prelude
  imports Main "HOL-Library.Word" "HOL-Library.Sublist" "HOL-Library.Signed_Division"
begin

text \<open>
  The part of Go and of its standard library that the payment switch uses, and the generic
  lemmas the component theories share.

  \<^item> A Go \<open>string\<close> is a sequence of bytes: a \<^typ>\<open>string\<close>, whose characters are 8-bit values.
  \<^item> Go's \<open>int\<close> and \<open>int64\<close> are \<^typ>\<open>int\<close> with the two's complement wrap-around \<open>wrap64\<close>
    written at the arithmetic that the code does on them; the codec theories, which work on
    bits, use \<open>64 word\<close> and \<open>8 word\<close>.
  \<^item> A \<open>time.Time\<close> is the number of nanoseconds since January 1, year 1, 00:00 UTC, so that
    the zero \<open>Time\<close> is 0; the methods \<open>UTC\<close> and \<open>Local\<close> change only how an instant is
    printed and are the identity here.  A \<open>time.Duration\<close> is an int64 number of nanoseconds.
  \<^item> An \<open>error\<close> is a tree of wrapped sentinels (\<open>errors.New\<close>, \<open>fmt.Errorf("%w: ...")\<close>), and
    a function that returns \<open>(T, error)\<close> returns a sum, \<open>Inl\<close> for the error.
\<close>

named_theorems go_simps \<open>definitions of the Go library to unfold in component proofs\<close>

section \<open>Machine integers\<close>

definition wrap64 :: "int \<Rightarrow> int" where
  "wrap64 x = signed_take_bit 63 x"

definition int64_min :: int where "int64_min = - (2 ^ 63)"
definition int64_max :: int where "int64_max = 2 ^ 63 - 1"

section \<open>Time\<close>

type_synonym gotime = int
type_synonym duration = int

definition time_IsZero :: "gotime \<Rightarrow> bool" where
  "time_IsZero t = (t = 0)"

definition time_After :: "gotime \<Rightarrow> gotime \<Rightarrow> bool" where
  "time_After t u = (u < t)"

definition time_Before :: "gotime \<Rightarrow> gotime \<Rightarrow> bool" where
  "time_Before t u = (t < u)"

definition time_Add :: "gotime \<Rightarrow> duration \<Rightarrow> gotime" where
  "time_Add t d = t + d"

text \<open>\<open>t.Sub(u)\<close> saturates at the ends of the int64 range.\<close>

definition time_Sub :: "gotime \<Rightarrow> gotime \<Rightarrow> duration" where
  "time_Sub t u = max int64_min (min int64_max (t - u))"

definition nanosecond :: duration where "nanosecond = 1"
definition millisecond :: duration where "millisecond = 1000000"
definition second :: duration where "second = 1000000000"
definition minute :: duration where "minute = 60 * second"

section \<open>Errors\<close>

text \<open>The sentinels of \<open>rail\<close> (model.go) and of the standard library that the code tests for.\<close>

datatype sentinel =
    ErrValidation | ErrUnauthorized | ErrNotFound | ErrConflict | ErrRateLimited
  | ErrDependencyFailed | ContextCanceled | ContextDeadlineExceeded | IoErrUnexpectedEOF
  | ErrInvalidParticipantProfileCache

text \<open>
  \<open>Suffixed e m\<close> is \<open>fmt.Errorf("%w: m", e)\<close>, \<open>Prefixed m e\<close> is \<open>fmt.Errorf("m: %w", e)\<close>
  and \<open>Opaque m\<close> is an error with no sentinel inside.
\<close>

datatype go_error =
    Sentinel sentinel
  | Suffixed go_error string
  | Prefixed string go_error
  | Opaque string

type_synonym 'a result = "go_error + 'a"

fun errors_Is :: "go_error \<Rightarrow> sentinel \<Rightarrow> bool" where
  "errors_Is (Sentinel s) x = (s = x)"
| "errors_Is (Suffixed e m) x = errors_Is e x"
| "errors_Is (Prefixed m e) x = errors_Is e x"
| "errors_Is (Opaque m) x = False"

fun sentinel_text :: "sentinel \<Rightarrow> string" where
  "sentinel_text ErrValidation = ''validation failed''"
| "sentinel_text ErrUnauthorized = ''unauthorized''"
| "sentinel_text ErrNotFound = ''not found''"
| "sentinel_text ErrConflict = ''conflict''"
| "sentinel_text ErrRateLimited = ''rate limited''"
| "sentinel_text ErrDependencyFailed = ''dependency failed''"
| "sentinel_text ContextCanceled = ''context canceled''"
| "sentinel_text ContextDeadlineExceeded = ''context deadline exceeded''"
| "sentinel_text IoErrUnexpectedEOF = ''unexpected EOF''"
| "sentinel_text ErrInvalidParticipantProfileCache = ''invalid participant profile cache''"

fun error_Error :: "go_error \<Rightarrow> string" where
  "error_Error (Sentinel s) = sentinel_text s"
| "error_Error (Suffixed e m) = error_Error e @ '': '' @ m"
| "error_Error (Prefixed m e) = m @ '': '' @ error_Error e"
| "error_Error (Opaque m) = m"

text \<open>The error an operation of one of the two result shapes carries, if any.\<close>

definition is_error :: "'a result \<Rightarrow> sentinel \<Rightarrow> bool" where
  "is_error r x = (case r of Inl e \<Rightarrow> errors_Is e x | Inr _ \<Rightarrow> False)"

section \<open>Strings\<close>

text \<open>
  \<open>strings.TrimSpace\<close> removes the Unicode white space at both ends.  These are the UTF-8
  encodings of the runes with \<open>unicode.IsSpace\<close>: the six ASCII ones, U+0085, U+00A0, U+1680,
  U+2000 to U+200A, U+2028, U+2029, U+202F, U+205F and U+3000.
\<close>

definition space_encodings :: "string list" where
  "space_encodings =
     [[CHR 0x09], [CHR 0x0A], [CHR 0x0B], [CHR 0x0C], [CHR 0x0D], [CHR 0x20],
      [CHR 0xC2, CHR 0x85], [CHR 0xC2, CHR 0xA0],
      [CHR 0xE1, CHR 0x9A, CHR 0x80],
      [CHR 0xE2, CHR 0x80, CHR 0x80], [CHR 0xE2, CHR 0x80, CHR 0x81],
      [CHR 0xE2, CHR 0x80, CHR 0x82], [CHR 0xE2, CHR 0x80, CHR 0x83],
      [CHR 0xE2, CHR 0x80, CHR 0x84], [CHR 0xE2, CHR 0x80, CHR 0x85],
      [CHR 0xE2, CHR 0x80, CHR 0x86], [CHR 0xE2, CHR 0x80, CHR 0x87],
      [CHR 0xE2, CHR 0x80, CHR 0x88], [CHR 0xE2, CHR 0x80, CHR 0x89],
      [CHR 0xE2, CHR 0x80, CHR 0x8A], [CHR 0xE2, CHR 0x80, CHR 0xA8],
      [CHR 0xE2, CHR 0x80, CHR 0xA9], [CHR 0xE2, CHR 0x80, CHR 0xAF],
      [CHR 0xE2, CHR 0x81, CHR 0x9F], [CHR 0xE3, CHR 0x80, CHR 0x80]]"

definition front_match :: "string list \<Rightarrow> string \<Rightarrow> string option" where
  "front_match es s = find (\<lambda>e. e \<noteq> [] \<and> prefix e s) es"

lemma front_match_shorter:
  assumes "front_match es s = Some e"
  shows "length (drop (length e) s) < length s"
proof -
  from assms have "e \<noteq> []" "prefix e s"
    by (auto simp: front_match_def find_Some_iff)
  then show ?thesis
    by (cases s) (auto simp: prefix_def)
qed

function strip_front :: "string list \<Rightarrow> string \<Rightarrow> string" where
  "strip_front es s =
     (case front_match es s of None \<Rightarrow> s | Some e \<Rightarrow> strip_front es (drop (length e) s))"
  by pat_completeness auto
termination
  by (relation "measure (\<lambda>(es, s). length s)") (auto dest: front_match_shorter)

declare strip_front.simps [simp del]

definition strings_TrimSpace :: "string \<Rightarrow> string" where
  "strings_TrimSpace s =
     rev (strip_front (map rev space_encodings) (rev (strip_front space_encodings s)))"

definition strings_HasPrefix :: "string \<Rightarrow> string \<Rightarrow> bool" where
  "strings_HasPrefix s p = prefix p s"

definition strings_HasSuffix :: "string \<Rightarrow> string \<Rightarrow> bool" where
  "strings_HasSuffix s p = suffix p s"

definition strings_TrimPrefix :: "string \<Rightarrow> string \<Rightarrow> string" where
  "strings_TrimPrefix s p = (if prefix p s then drop (length p) s else s)"

fun strings_Contains :: "string \<Rightarrow> string \<Rightarrow> bool" where
  "strings_Contains [] p = (p = [])"
| "strings_Contains (c # s) p = (prefix p (c # s) \<or> strings_Contains s p)"

fun strings_Join :: "string list \<Rightarrow> string \<Rightarrow> string" where
  "strings_Join [] sep = []"
| "strings_Join [x] sep = x"
| "strings_Join (x # y # xs) sep = x @ sep @ strings_Join (y # xs) sep"

text \<open>\<open>fmt.Sprintf("%d", n)\<close> and \<open>hex.EncodeToString\<close>.\<close>

definition digit_char :: "nat \<Rightarrow> char" where
  "digit_char d = char_of (48 + d)"

fun show_nat :: "nat \<Rightarrow> string" where
  "show_nat n = (if n < 10 then [digit_char n] else show_nat (n div 10) @ [digit_char (n mod 10)])"

declare show_nat.simps [simp del]

definition show_int :: "int \<Rightarrow> string" where
  "show_int i = (if i < 0 then CHR ''-'' # show_nat (nat (- i)) else show_nat (nat i))"

text \<open>The value that a decimal string denotes; it inverts \<^const>\<open>show_nat\<close>.\<close>

definition digit_value :: "char \<Rightarrow> nat" where
  "digit_value c = of_char c - 48"

definition read_nat :: "string \<Rightarrow> nat" where
  "read_nat s = foldl (\<lambda>a c. 10 * a + digit_value c) 0 s"

definition hex_digit :: "nat \<Rightarrow> char" where
  "hex_digit d = (if d < 10 then char_of (48 + d) else char_of (87 + d))"

type_synonym byte = "8 word"

definition hex_byte :: "byte \<Rightarrow> string" where
  "hex_byte b = [hex_digit (unat b div 16), hex_digit (unat b mod 16)]"

definition hex_EncodeToString :: "byte list \<Rightarrow> string" where
  "hex_EncodeToString bs = concat (map hex_byte bs)"

text \<open>The conversions \<open>[]byte(s)\<close> and \<open>string(bs)\<close>.\<close>

definition bytes_of :: "string \<Rightarrow> byte list" where
  "bytes_of s = map (\<lambda>c. of_nat (of_char c)) s"

definition string_of :: "byte list \<Rightarrow> string" where
  "string_of bs = map (\<lambda>b. char_of (unat b)) bs"

text \<open>
  \<open>newID(prefix)\<close> of the switcher and \<open>newClaimToken(prefix)\<close> of the relay: sixteen random
  bytes in hexadecimal, or the clock in nanoseconds when the random source fails.
\<close>

datatype rand_read = RandBytes "byte list" | RandFailed int

fun newID :: "string \<Rightarrow> rand_read \<Rightarrow> string" where
  "newID p (RandBytes b) = p @ ''_'' @ hex_EncodeToString b"
| "newID p (RandFailed nanos) = p @ ''_'' @ show_int nanos"

section \<open>Lemmas on integers and time\<close>

lemma wrap64_id: "int64_min \<le> x \<Longrightarrow> x \<le> int64_max \<Longrightarrow> wrap64 x = x"
  by (simp add: wrap64_def int64_min_def int64_max_def signed_take_bit_int_eq_self_iff)

lemma wrap64_range: "int64_min \<le> wrap64 x \<and> wrap64 x \<le> int64_max"
  using signed_take_bit_int_greater_eq_minus_exp [of 63 x] signed_take_bit_int_less_exp [of 63 x]
  by (simp add: wrap64_def int64_min_def int64_max_def)

lemma time_Sub_id:
  "int64_min \<le> t - u \<Longrightarrow> t - u \<le> int64_max \<Longrightarrow> time_Sub t u = t - u"
  by (simp add: time_Sub_def)

lemma time_Sub_range: "int64_min \<le> time_Sub t u \<and> time_Sub t u \<le> int64_max"
  by (simp add: time_Sub_def int64_min_def int64_max_def)

lemmas [go_simps] =
  time_IsZero_def time_After_def time_Before_def time_Add_def

lemmas duration_units [go_simps] =
  nanosecond_def millisecond_def second_def minute_def

section \<open>Lemmas on strings\<close>

lemma strip_front_idem: "strip_front es (strip_front es s) = strip_front es s"
proof (induction es s rule: strip_front.induct)
  case (1 es s)
  show ?case
  proof (cases "front_match es s")
    case None
    then show ?thesis by (simp add: strip_front.simps [of es s])
  next
    case (Some e)
    with "1.IH" show ?thesis by (simp add: strip_front.simps [of es s])
  qed
qed

lemma strip_front_no_match: "front_match es (strip_front es s) = None"
proof (induction es s rule: strip_front.induct)
  case (1 es s)
  then show ?case
    by (cases "front_match es s") (simp_all add: strip_front.simps [of es s])
qed

lemma strip_front_suffix: "suffix (strip_front es s) s"
proof (induction es s rule: strip_front.induct)
  case (1 es s)
  show ?case
  proof (cases "front_match es s")
    case None
    then show ?thesis by (simp add: strip_front.simps [of es s])
  next
    case (Some e)
    with "1.IH" have "suffix (strip_front es s) (drop (length e) s)"
      by (simp add: strip_front.simps [of es s])
    then show ?thesis
      using suffix_drop suffix_order.trans by blast
  qed
qed

lemma front_match_prefix_None:
  assumes "front_match es s = None" and "prefix p s"
  shows "front_match es p = None"
  using assms by (auto simp: front_match_def find_None_iff dest: prefix_order.trans)

lemma strip_front_unmatched: "front_match es s = None \<Longrightarrow> strip_front es s = s"
  by (simp add: strip_front.simps)

lemma strings_TrimSpace_idem [simp]:
  "strings_TrimSpace (strings_TrimSpace s) = strings_TrimSpace s"
proof -
  let ?l = "strip_front space_encodings s"
  let ?r = "strip_front (map rev space_encodings) (rev ?l)"
  have "prefix (rev ?r) ?l"
    using strip_front_suffix [of "map rev space_encodings" "rev ?l"]
    by (simp add: suffix_to_prefix)
  then have "strip_front space_encodings (rev ?r) = rev ?r"
    by (intro strip_front_unmatched front_match_prefix_None [OF strip_front_no_match])
  then show ?thesis
    by (simp add: strings_TrimSpace_def strip_front_idem)
qed

lemma strings_TrimSpace_Nil [simp]: "strings_TrimSpace [] = []"
  by (simp add: strings_TrimSpace_def strip_front.simps front_match_def space_encodings_def)

lemma show_nat_ne: "show_nat n \<noteq> []"
  by (subst show_nat.simps) simp

lemma show_nat_digits: "c \<in> set (show_nat n) \<Longrightarrow> \<exists>d<10. c = digit_char d"
proof (induction n rule: show_nat.induct)
  case (1 n)
  show ?case
  proof (cases "n < 10")
    case True
    with "1.prems" show ?thesis by (auto simp: show_nat.simps [of n])
  next
    case False
    with "1.prems" have "c \<in> set (show_nat (n div 10)) \<or> c = digit_char (n mod 10)"
      by (auto simp: show_nat.simps [of n])
    with "1.IH" False show ?thesis by (auto intro: exI [of _ "n mod 10"])
  qed
qed

lemma digit_char_inj: "c < 10 \<Longrightarrow> d < 10 \<Longrightarrow> digit_char c = digit_char d \<longleftrightarrow> c = d"
proof -
  assume "c < 10" "d < 10"
  then have "of_char (digit_char c) = 48 + c" "of_char (digit_char d) = 48 + d"
    by (simp_all add: digit_char_def)
  then show ?thesis by (metis add_left_cancel)
qed

lemma digit_value_char [simp]: "d < 10 \<Longrightarrow> digit_value (digit_char d) = d"
  by (simp add: digit_value_def digit_char_def)

lemma read_show_nat [simp]: "read_nat (show_nat n) = n"
proof (induction n rule: show_nat.induct)
  case (1 n)
  then show ?case
    by (cases "n < 10") (simp_all add: show_nat.simps [of n] read_nat_def)
qed

lemma show_nat_inj: "show_nat m = show_nat n \<longleftrightarrow> m = n"
  by (metis read_show_nat)

lemma minus_not_in_show_nat: "CHR ''-'' \<notin> set (show_nat n)"
proof
  assume "CHR ''-'' \<in> set (show_nat n)"
  then obtain d where "d < 10" and eq: "CHR ''-'' = digit_char d"
    using show_nat_digits by blast
  then have "of_char (digit_char d) = 48 + d" by (simp add: digit_char_def)
  moreover have "of_char (CHR ''-'') = (45::nat)" by simp
  ultimately show False using eq by simp
qed

lemma show_int_inj [simp]: "show_int i = show_int j \<longleftrightarrow> i = j"
proof
  assume eq: "show_int i = show_int j"
  have "CHR ''-'' \<in> set (show_int k) \<longleftrightarrow> k < 0" for k
    by (simp add: show_int_def minus_not_in_show_nat)
  then have "i < 0 \<longleftrightarrow> j < 0" by (metis eq)
  with eq show "i = j" by (auto simp: show_int_def show_nat_inj split: if_splits)
qed simp

lemma nul_not_in_show_int: "CHR 0x00 \<notin> set (show_int i)"
proof -
  have "CHR 0x00 \<notin> set (show_nat n)" for n
  proof
    assume "CHR 0x00 \<in> set (show_nat n)"
    then obtain d where "d < 10" and eq: "CHR 0x00 = digit_char d"
      using show_nat_digits by blast
    then have "of_char (digit_char d) = 48 + d" by (simp add: digit_char_def)
    moreover have "of_char (CHR 0x00) = (0::nat)" by simp
    ultimately show False using eq by simp
  qed
  then show ?thesis by (simp add: show_int_def)
qed

lemma append_sep_inj:
  assumes "c \<notin> set x" and "c \<notin> set y" and "x @ c # xs = y @ c # ys"
  shows "x = y \<and> xs = ys"
  using assms
proof (induction x arbitrary: y)
  case Nil
  then show ?case by (cases y) auto
next
  case (Cons a x)
  then show ?case by (cases y) auto
qed

lemma strings_Join_inj:
  assumes "length xs = length ys"
    and "\<forall>x \<in> set xs. c \<notin> set x" and "\<forall>y \<in> set ys. c \<notin> set y"
    and "strings_Join xs [c] = strings_Join ys [c]"
  shows "xs = ys"
  using assms
proof (induction xs ys rule: list_induct2)
  case Nil
  then show ?case by simp
next
  case (Cons x xs y ys)
  show ?case
  proof (cases xs)
    case Nil
    with Cons show ?thesis by simp
  next
    case (Cons x' xs')
    with \<open>length xs = length ys\<close> obtain y' ys' where ys: "ys = y' # ys'"
      by (cases ys) auto
    have "x @ c # strings_Join xs [c] = y @ c # strings_Join ys [c]"
      using Cons.prems(3) Cons ys by simp
    then have "x = y \<and> strings_Join xs [c] = strings_Join ys [c]"
      using Cons.prems(1,2) by (intro append_sep_inj) auto
    then show ?thesis using Cons.IH Cons.prems(1,2) by simp
  qed
qed

lemma unat_byte_mod [simp]: "unat (b :: byte) mod 256 = unat b"
proof -
  have "unat b < 2 ^ LENGTH(8)" by (rule unsigned_less)
  then show ?thesis by simp
qed

lemma bytes_of_string_of [simp]: "bytes_of (string_of bs) = bs"
  by (induction bs) (auto simp: bytes_of_def string_of_def)

lemma string_of_bytes_of [simp]: "string_of (bytes_of s) = s"
  by (induction s) (auto simp: bytes_of_def string_of_def unat_of_nat)

lemma newID_nonempty [simp]: "p \<noteq> [] \<Longrightarrow> newID p r \<noteq> []"
  by (cases r) auto
text \<open>A character that is in no space encoding survives trimming.\<close>

lemma strip_front_keeps:
  assumes "c \<in> set s" and "\<forall>e \<in> set es. c \<notin> set e"
  shows "c \<in> set (strip_front es s)"
  using assms
proof (induction es s rule: strip_front.induct)
  case (1 es s)
  show ?case
  proof (cases "front_match es s")
    case None
    with "1.prems" show ?thesis by (simp add: strip_front.simps [of es s])
  next
    case (Some e)
    then obtain r where e: "e \<in> set es" and s: "s = e @ r"
      by (auto simp: front_match_def find_Some_iff prefix_def)
    with "1.prems" have "c \<in> set (drop (length e) s)" by auto
    with "1.IH" Some "1.prems" show ?thesis by (simp add: strip_front.simps [of es s])
  qed
qed

lemma strings_TrimSpace_keeps:
  assumes "c \<in> set s" and "\<forall>e \<in> set space_encodings. c \<notin> set e"
  shows "c \<in> set (strings_TrimSpace s)"
  using assms unfolding strings_TrimSpace_def
  by (simp add: strip_front_keeps)

lemma strings_TrimSpace_not_blank:
  "c \<in> set s \<Longrightarrow> \<forall>e \<in> set space_encodings. c \<notin> set e \<Longrightarrow> strings_TrimSpace s \<noteq> []"
  by (metis empty_iff list.set(1) strings_TrimSpace_keeps)

lemma newID_prefix_char: "c \<in> set p \<Longrightarrow> c \<in> set (newID p r)"
  by (cases r) auto

lemma hex_digit_inj: "c < 16 \<Longrightarrow> d < 16 \<Longrightarrow> hex_digit c = hex_digit d \<longleftrightarrow> c = d"
proof -
  assume *: "c < 16" "d < 16"
  have "of_char (hex_digit k) = (if k < 10 then 48 + k else 87 + k)" if "k < 16" for k
    using that by (simp add: hex_digit_def)
  then have "hex_digit c = hex_digit d \<Longrightarrow>
      (if c < 10 then 48 + c else 87 + c) = (if d < 10 then 48 + d else 87 + d)"
    using * by metis
  then show ?thesis by (auto split: if_splits)
qed

lemma hex_byte_inj: "hex_byte a = hex_byte b \<Longrightarrow> a = b"
proof -
  assume "hex_byte a = hex_byte b"
  have *: "unat x div 16 < 16" for x :: byte
  proof -
    have "unat x < 2 ^ LENGTH(8)" by (rule unsigned_less)
    then show ?thesis by simp
  qed
  with \<open>hex_byte a = hex_byte b\<close>
  have "unat a div 16 = unat b div 16" "unat a mod 16 = unat b mod 16"
    by (simp_all add: hex_byte_def hex_digit_inj)
  then have "unat a = unat b" by (metis div_mult_mod_eq)
  then show "a = b" by (simp add: word_unat_eq_iff)
qed

lemma hex_EncodeToString_inj: "hex_EncodeToString a = hex_EncodeToString b \<Longrightarrow> a = b"
proof (induction a arbitrary: b)
  case Nil
  then show ?case by (cases b) (auto simp: hex_EncodeToString_def hex_byte_def)
next
  case (Cons x xs)
  then obtain y ys where b: "b = y # ys"
    by (cases b) (auto simp: hex_EncodeToString_def hex_byte_def)
  with Cons.prems have "hex_byte x @ hex_EncodeToString xs = hex_byte y @ hex_EncodeToString ys"
    by (simp add: hex_EncodeToString_def)
  then have "hex_byte x = hex_byte y" "hex_EncodeToString xs = hex_EncodeToString ys"
    by (simp_all add: hex_byte_def)
  with Cons.IH b show ?case by (auto dest: hex_byte_inj)
qed

lemma hex_length [simp]: "length (hex_EncodeToString bs) = 2 * length bs"
  by (induction bs) (simp_all add: hex_EncodeToString_def hex_byte_def)

lemma bytes_of_inj [simp]: "bytes_of a = bytes_of b \<longleftrightarrow> a = b"
  by (metis string_of_bytes_of)

end
