(* ===== verification/Go_Crypto.thy ===== *)
theory Go_Crypto
  imports Go_Prelude
begin

text \<open>
  The hash functions of the standard library that the switch calls: \<open>crypto/sha256\<close>
  (FIPS 180-4) and \<open>crypto/hmac\<close> over it (RFC 2104), on byte lists.  The code uses them for
  the request and callback fingerprints, the simulated DICT and SPI identifiers, the
  checksum of a migration and the signature of a provider callback.
\<close>

unbundle bit_operations_syntax

section \<open>SHA-256\<close>

type_synonym w32 = "32 word"
type_synonym sha_state = "w32 \<times> w32 \<times> w32 \<times> w32 \<times> w32 \<times> w32 \<times> w32 \<times> w32"

text \<open>
  The constants are the first 32 bits of the fractional parts of the cube roots (\<open>sha_K\<close>) and
  of the square roots (\<open>sha_init\<close>) of the first primes.  \<open>root_bits k n b 0\<close> is the greatest
  \<open>b\<close>-bit number whose \<open>k\<close>-th power is at most \<open>n\<close>, found bit by bit.
\<close>

fun root_bits :: "nat \<Rightarrow> int \<Rightarrow> nat \<Rightarrow> int \<Rightarrow> int" where
  "root_bits k n 0 r = r"
| "root_bits k n (Suc b) r =
     (if (r + 2 ^ b) ^ k \<le> n then root_bits k n b (r + 2 ^ b) else root_bits k n b r)"

definition small_primes :: "int list" where
  "small_primes = filter (\<lambda>n. \<forall>d \<in> set [2..n - 1]. n mod d \<noteq> 0) [2..311]"

definition sha_K :: "w32 list" where
  "sha_K = map (\<lambda>p. of_int (root_bits 3 (p * 2 ^ 96) 36 0)) small_primes"

definition sha_H :: "nat \<Rightarrow> w32" where
  "sha_H i = of_int (root_bits 2 (small_primes ! i * 2 ^ 64) 37 0)"

definition sha_init :: sha_state where
  "sha_init = (sha_H 0, sha_H 1, sha_H 2, sha_H 3, sha_H 4, sha_H 5, sha_H 6, sha_H 7)"

definition rotr32 :: "nat \<Rightarrow> w32 \<Rightarrow> w32" where
  "rotr32 n x = drop_bit n x OR push_bit (32 - n) x"

definition be32 :: "w32 \<Rightarrow> byte list" where
  "be32 x = [ucast (drop_bit 24 x), ucast (drop_bit 16 x), ucast (drop_bit 8 x), ucast x]"

definition be64 :: "64 word \<Rightarrow> byte list" where
  "be64 x = [ucast (drop_bit 56 x), ucast (drop_bit 48 x), ucast (drop_bit 40 x), ucast (drop_bit 32 x),
             ucast (drop_bit 24 x), ucast (drop_bit 16 x), ucast (drop_bit 8 x), ucast x]"

fun words_of_bytes :: "byte list \<Rightarrow> w32 list" where
  "words_of_bytes (a # b # c # d # xs) =
     (push_bit 24 (ucast a) OR push_bit 16 (ucast b) OR push_bit 8 (ucast c) OR ucast d)
       # words_of_bytes xs"
| "words_of_bytes _ = []"

definition sha_pad :: "byte list \<Rightarrow> byte list" where
  "sha_pad m =
     m @ [0x80] @ replicate ((119 - length m mod 64) mod 64) 0 @ be64 (of_nat (8 * length m))"

text \<open>
  The message schedule is generated from a window of the last sixteen words, the oldest
  first; \<open>sha_rounds\<close> consumes one word and one round constant per round.
\<close>

definition sha_next :: "w32 list \<Rightarrow> w32" where
  "sha_next w =
     (let x = w ! 1; y = w ! 14
      in (rotr32 17 y XOR rotr32 19 y XOR drop_bit 10 y) + w ! 9
         + (rotr32 7 x XOR rotr32 18 x XOR drop_bit 3 x) + w ! 0)"

fun sha_round :: "sha_state \<Rightarrow> w32 \<Rightarrow> w32 \<Rightarrow> sha_state" where
  "sha_round (a, b, c, d, e, f, g, h) k w =
     (let t1 = h + (rotr32 6 e XOR rotr32 11 e XOR rotr32 25 e) + ((e AND f) XOR (NOT e AND g)) + k + w;
          t2 = (rotr32 2 a XOR rotr32 13 a XOR rotr32 22 a) + ((a AND b) XOR (a AND c) XOR (b AND c))
      in (t1 + t2, a, b, c, d + t1, e, f, g))"

fun sha_rounds :: "w32 list \<Rightarrow> w32 list \<Rightarrow> sha_state \<Rightarrow> sha_state" where
  "sha_rounds [] w s = s"
| "sha_rounds (k # ks) w s = sha_rounds ks (tl w @ [sha_next w]) (sha_round s k (hd w))"

fun sha_add :: "sha_state \<Rightarrow> sha_state \<Rightarrow> sha_state" where
  "sha_add (a, b, c, d, e, f, g, h) (a', b', c', d', e', f', g', h') =
     (a + a', b + b', c + c', d + d', e + e', f + f', g + g', h + h')"

function sha_blocks :: "byte list \<Rightarrow> sha_state \<Rightarrow> sha_state" where
  "sha_blocks m s =
     (if length m < 64 then s
      else sha_blocks (drop 64 m) (sha_add s (sha_rounds sha_K (words_of_bytes (take 64 m)) s)))"
  by pat_completeness auto
termination
  by (relation "measure (\<lambda>(m, s). length m)") auto

declare sha_blocks.simps [simp del]

fun sha_digest :: "sha_state \<Rightarrow> byte list" where
  "sha_digest (a, b, c, d, e, f, g, h) =
     be32 a @ be32 b @ be32 c @ be32 d @ be32 e @ be32 f @ be32 g @ be32 h"

definition sha256_Sum256 :: "byte list \<Rightarrow> byte list" where
  "sha256_Sum256 m = sha_digest (sha_blocks (sha_pad m) sha_init)"

section \<open>HMAC-SHA256\<close>

definition hmac_key :: "byte list \<Rightarrow> byte list" where
  "hmac_key k = (let k' = (if length k > 64 then sha256_Sum256 k else k)
                 in k' @ replicate (64 - length k') 0)"

definition hmac_sha256 :: "byte list \<Rightarrow> byte list \<Rightarrow> byte list" where
  "hmac_sha256 k m =
     sha256_Sum256 (map (\<lambda>b. b XOR 0x5c) (hmac_key k)
       @ sha256_Sum256 (map (\<lambda>b. b XOR 0x36) (hmac_key k) @ m))"

section \<open>Facts the components use\<close>

lemma length_sha_digest [simp]: "length (sha_digest s) = 32"
  by (cases s rule: sha_digest.cases) (simp add: be32_def)

lemma length_sha256 [simp]: "length (sha256_Sum256 m) = 32"
  by (simp add: sha256_Sum256_def)

end
