(* ===== verification/Rail.thy ===== *)
theory Rail
  imports Go_Crypto
begin

text \<open>
  The domain model, \<open>internal/rail/model.go\<close>: the transfer and the values around it, the
  validation and the fingerprints of requests, and the state machine that the methods of
  \<open>Transfer\<close> implement.  A method with a value receiver returns the updated copy or an error.

  The statuses, key types and decisions are string types in the code, and values outside the
  declared constants arrive from JSON and from the fraud port, so they are strings here too.
\<close>

section \<open>Data\<close>

type_synonym TransferStatus = string

definition StatusAccepted :: TransferStatus where "StatusAccepted = ''accepted''"
definition StatusApproved :: TransferStatus where "StatusApproved = ''approved''"
definition StatusBlocked :: TransferStatus where "StatusBlocked = ''blocked''"
definition StatusReview :: TransferStatus where "StatusReview = ''review''"
definition StatusSettled :: TransferStatus where "StatusSettled = ''settled''"
definition StatusRejected :: TransferStatus where "StatusRejected = ''rejected''"

type_synonym DictKeyType = string

definition KeyCPF :: DictKeyType where "KeyCPF = ''CPF''"
definition KeyCNPJ :: DictKeyType where "KeyCNPJ = ''CNPJ''"
definition KeyEmail :: DictKeyType where "KeyEmail = ''EMAIL''"
definition KeyPhone :: DictKeyType where "KeyPhone = ''PHONE''"
definition KeyEVP :: DictKeyType where "KeyEVP = ''EVP''"

record CreateTransferRequest =
  req_TenantID :: string
  req_AccountID :: string
  req_IdempotencyKey :: string
  req_CorrelationID :: string
  req_AmountCents :: int
  req_Currency :: string
  req_ReceiverKey :: string
  req_ReceiverKeyType :: DictKeyType
  req_Description :: string
  req_RequestedAt :: gotime

record Transfer =
  t_ID :: string
  t_TenantID :: string
  t_AccountID :: string
  t_IdempotencyKey :: string
  t_RequestHash :: string
  t_CorrelationID :: string
  t_EndToEndID :: string
  t_AmountCents :: int
  t_Currency :: string
  t_ReceiverKey :: string
  t_ReceiverKeyType :: DictKeyType
  t_ReceiverName :: string
  t_ReceiverBank :: string
  t_ReceiverRisk :: int
  t_FraudScore :: int
  t_FraudRules :: "string list"
  t_Status :: TransferStatus
  t_DecisionReason :: string
  t_SPIMessageID :: string
  t_SPIClaimToken :: string
  t_SPIClaimedUntil :: "gotime option"
  t_SPISubmissionAttempts :: int
  t_SPILastError :: string
  t_SettlementCode :: string
  t_CreatedAt :: gotime
  t_UpdatedAt :: gotime

record AuditRecord =
  au_TenantID :: string
  au_AccountID :: string
  au_TransferID :: string
  au_Action :: string
  au_CorrelationID :: string
  au_Metadata :: "string \<rightharpoonup> string"
  au_CreatedAt :: gotime

record DictEntry =
  de_Key :: string
  de_KeyType :: DictKeyType
  de_ReceiverID :: string
  de_Name :: string
  de_BankISPB :: string
  de_AccountHash :: string
  de_RiskSignal :: int
  de_ResolvedAt :: gotime

record FraudDecision =
  fd_Score :: int
  fd_Status :: TransferStatus
  fd_Rules :: "string list"
  fd_Reason :: string

record SPIMessage =
  sm_MessageID :: string
  sm_EndToEndID :: string
  sm_TransferID :: string
  sm_SubmittedAt :: gotime

type_synonym SettlementStatus = string

definition SettlementAccepted :: SettlementStatus where "SettlementAccepted = ''accepted''"
definition SettlementRejected :: SettlementStatus where "SettlementRejected = ''rejected''"

record SettlementCallback =
  cb_TenantID :: string
  cb_TransferID :: string
  cb_SPIMessageID :: string
  cb_Status :: SettlementStatus
  cb_Code :: string
  cb_CallbackHash :: string
  cb_CorrelationID :: string
  cb_ReceivedAt :: gotime

type_synonym ReviewDecision = string

definition ReviewApprove :: ReviewDecision where "ReviewApprove = ''approve''"
definition ReviewBlock :: ReviewDecision where "ReviewBlock = ''block''"

record ReviewDecisionRequest =
  rv_TenantID :: string
  rv_TransferID :: string
  rv_Decision :: ReviewDecision
  rv_Reason :: string
  rv_CorrelationID :: string
  rv_ReviewedAt :: gotime

section \<open>Validation and fingerprints\<close>

definition validate_problems :: "CreateTransferRequest \<Rightarrow> string list" where
  "validate_problems r =
     (let currency = (if req_Currency r = '''' then ''BRL'' else req_Currency r)
      in (if strings_TrimSpace (req_TenantID r) = '''' then [''tenant_id is required''] else [])
       @ (if strings_TrimSpace (req_AccountID r) = '''' then [''account_id is required''] else [])
       @ (if strings_TrimSpace (req_IdempotencyKey r) = '''' then [''idempotency key is required''] else [])
       @ (if req_AmountCents r \<le> 0 then [''amount_cents must be greater than zero''] else [])
       @ (if req_AmountCents r > 2000000 then [''amount_cents exceeds per-transfer limit''] else [])
       @ (if currency \<noteq> ''BRL'' then [''currency must be BRL''] else [])
       @ (if strings_TrimSpace (req_ReceiverKey r) = '''' then [''receiver_key is required''] else [])
       @ (if req_ReceiverKeyType r \<in> {KeyCPF, KeyCNPJ, KeyEmail, KeyPhone, KeyEVP} then []
          else [''receiver_key_type is invalid'']))"

definition CreateTransferRequest_Validate :: "CreateTransferRequest \<Rightarrow> go_error option" where
  "CreateTransferRequest_Validate r =
     (let problems = validate_problems r
      in if length problems > 0
         then Some (Suffixed (Sentinel ErrValidation) (strings_Join problems ''; ''))
         else None)"

text \<open>\<open>hashParts\<close> hashes its parts joined by a NUL byte.\<close>

definition hashParts :: "string list \<Rightarrow> string" where
  "hashParts parts = hex_EncodeToString (sha256_Sum256 (bytes_of (strings_Join parts [CHR 0x00])))"

definition request_parts :: "CreateTransferRequest \<Rightarrow> string list" where
  "request_parts r =
     (let c = strings_TrimSpace (req_Currency r);
          currency = (if c = '''' then ''BRL'' else c)
      in [strings_TrimSpace (req_TenantID r),
          strings_TrimSpace (req_AccountID r),
          show_int (req_AmountCents r),
          currency,
          strings_TrimSpace (req_ReceiverKey r),
          req_ReceiverKeyType r,
          strings_TrimSpace (req_Description r)])"

definition CreateTransferRequest_Fingerprint :: "CreateTransferRequest \<Rightarrow> string" where
  "CreateTransferRequest_Fingerprint r = hashParts (request_parts r)"

definition callback_parts :: "SettlementCallback \<Rightarrow> string list" where
  "callback_parts c =
     [strings_TrimSpace (cb_TenantID c),
      strings_TrimSpace (cb_TransferID c),
      strings_TrimSpace (cb_SPIMessageID c),
      cb_Status c,
      strings_TrimSpace (cb_Code c)]"

definition SettlementCallback_Fingerprint :: "SettlementCallback \<Rightarrow> string" where
  "SettlementCallback_Fingerprint c = hashParts (callback_parts c)"

section \<open>The methods of Transfer\<close>

definition TransferStatus_Terminal :: "TransferStatus \<Rightarrow> bool" where
  "TransferStatus_Terminal s = (s = StatusBlocked \<or> s = StatusSettled \<or> s = StatusRejected)"

definition Transfer_ClaimSPISubmission ::
    "Transfer \<Rightarrow> string \<Rightarrow> gotime \<Rightarrow> gotime \<Rightarrow> Transfer result" where
  "Transfer_ClaimSPISubmission t claimToken claimUntil now =
     (if strings_TrimSpace claimToken = '''' \<or> \<not> time_After claimUntil now then
        Inl (Suffixed (Sentinel ErrValidation) ''valid spi claim token and expiry are required'')
      else if t_Status t \<noteq> StatusAccepted then
        Inl (Suffixed (Sentinel ErrConflict) ''transfer is not pending SPI submission'')
      else if (case t_SPIClaimedUntil t of None \<Rightarrow> False | Some u \<Rightarrow> time_After u now) then
        Inl (Suffixed (Sentinel ErrConflict) ''transfer already claimed for SPI submission'')
      else
        Inr (t\<lparr> t_SPIClaimToken := claimToken,
                t_SPIClaimedUntil := Some claimUntil,
                t_SPISubmissionAttempts := wrap64 (t_SPISubmissionAttempts t + 1),
                t_SPILastError := '''',
                t_UpdatedAt := now \<rparr>))"

definition Transfer_RecordSPISubmission ::
    "Transfer \<Rightarrow> string \<Rightarrow> SPIMessage \<Rightarrow> Transfer result" where
  "Transfer_RecordSPISubmission t claimToken message =
     (if t_Status t \<noteq> StatusAccepted then
        Inl (Suffixed (Sentinel ErrConflict) ''transfer is not pending SPI submission'')
      else if t_SPIClaimToken t = '''' \<or> t_SPIClaimToken t \<noteq> claimToken then
        Inl (Suffixed (Sentinel ErrConflict) ''transfer is not claimed by this SPI worker'')
      else if strings_TrimSpace (sm_MessageID message) = ''''
              \<or> strings_TrimSpace (sm_EndToEndID message) = '''' then
        Inl (Suffixed (Sentinel ErrValidation) ''spi identifiers are required'')
      else
        Inr (t\<lparr> t_Status := StatusApproved,
                t_SPIMessageID := sm_MessageID message,
                t_EndToEndID := sm_EndToEndID message,
                t_SPIClaimToken := '''',
                t_SPIClaimedUntil := None,
                t_SPILastError := '''',
                t_UpdatedAt := sm_SubmittedAt message \<rparr>))"

definition Transfer_ReleaseSPISubmission ::
    "Transfer \<Rightarrow> string \<Rightarrow> string \<Rightarrow> gotime \<Rightarrow> gotime \<Rightarrow> Transfer result" where
  "Transfer_ReleaseSPISubmission t claimToken lastError retryAt now =
     (if t_Status t = StatusApproved \<and> t_SPIMessageID t \<noteq> '''' then Inr t
      else if t_SPIClaimToken t = '''' \<or> t_SPIClaimToken t \<noteq> claimToken then
        Inl (Suffixed (Sentinel ErrConflict) ''transfer is not claimed by this SPI worker'')
      else
        Inr (t\<lparr> t_SPIClaimToken := '''',
                t_SPIClaimedUntil := Some retryAt,
                t_SPILastError := lastError,
                t_UpdatedAt := now \<rparr>))"

definition Transfer_RecordReviewDecision ::
    "Transfer \<Rightarrow> TransferStatus \<Rightarrow> string \<Rightarrow> gotime \<Rightarrow> Transfer result" where
  "Transfer_RecordReviewDecision t status reason reviewedAt =
     (if t_Status t \<noteq> StatusReview then
        Inl (Suffixed (Sentinel ErrConflict) ''transfer is not waiting for review'')
      else if status \<noteq> StatusAccepted \<and> status \<noteq> StatusBlocked then
        Inl (Suffixed (Sentinel ErrValidation) ''review can only accept or block'')
      else
        Inr (t\<lparr> t_Status := status,
                t_DecisionReason := (if reason \<noteq> '''' then reason else t_DecisionReason t),
                t_UpdatedAt := reviewedAt \<rparr>))"

definition Transfer_RecordSettlement ::
    "Transfer \<Rightarrow> SettlementCallback \<Rightarrow> Transfer result" where
  "Transfer_RecordSettlement t callback =
     (if t_SPIMessageID t = '''' \<or> t_SPIMessageID t \<noteq> cb_SPIMessageID callback then
        Inl (Suffixed (Sentinel ErrConflict) ''spi_message_id mismatch'')
      else if TransferStatus_Terminal (t_Status t) then
        Inl (Suffixed (Sentinel ErrConflict) ''terminal transfer has no matching callback hash'')
      else if t_Status t \<noteq> StatusApproved then
        Inl (Suffixed (Sentinel ErrConflict) ''transfer is not approved for settlement callback'')
      else if cb_Status callback = SettlementAccepted then
        Inr (t\<lparr> t_Status := StatusSettled,
                t_SettlementCode := cb_Code callback,
                t_UpdatedAt := cb_ReceivedAt callback \<rparr>)
      else if cb_Status callback = SettlementRejected then
        Inr (t\<lparr> t_Status := StatusRejected,
                t_SettlementCode := cb_Code callback,
                t_UpdatedAt := cb_ReceivedAt callback \<rparr>)
      else
        Inl (Suffixed (Sentinel ErrValidation) ''unsupported settlement status''))"

section \<open>The state machine of a transfer\<close>

text \<open>
  One step of a transfer is one successful call of a method.  A transfer starts as the switch
  inserts it: decided, and with no trace of the SPI network yet.
\<close>

inductive Transfer_step :: "Transfer \<Rightarrow> Transfer \<Rightarrow> bool" where
  claim: "Transfer_ClaimSPISubmission t token until now = Inr t' \<Longrightarrow> Transfer_step t t'"
| record_spi: "Transfer_RecordSPISubmission t token message = Inr t' \<Longrightarrow> Transfer_step t t'"
| release: "Transfer_ReleaseSPISubmission t token err retryAt now = Inr t' \<Longrightarrow> Transfer_step t t'"
| review: "Transfer_RecordReviewDecision t status reason reviewedAt = Inr t' \<Longrightarrow> Transfer_step t t'"
| settle: "Transfer_RecordSettlement t callback = Inr t' \<Longrightarrow> Transfer_step t t'"

definition Transfer_new :: "Transfer \<Rightarrow> bool" where
  "Transfer_new t \<longleftrightarrow>
     t_Status t \<in> {StatusAccepted, StatusReview, StatusBlocked} \<and>
     t_EndToEndID t = '''' \<and> t_SPIMessageID t = '''' \<and> t_SPIClaimToken t = '''' \<and>
     t_SPIClaimedUntil t = None \<and> t_SPISubmissionAttempts t = 0 \<and> t_SPILastError t = '''' \<and>
     t_SettlementCode t = ''''"

definition spi_known :: "Transfer \<Rightarrow> bool" where
  "spi_known t \<longleftrightarrow> t_Status t \<in> {StatusApproved, StatusSettled, StatusRejected}"

definition Transfer_inv :: "Transfer \<Rightarrow> bool" where
  "Transfer_inv t \<longleftrightarrow>
     t_Status t \<in> {StatusAccepted, StatusApproved, StatusBlocked, StatusReview, StatusSettled, StatusRejected} \<and>
     (t_SPIClaimedUntil t = None \<longrightarrow> t_SPIClaimToken t = '''') \<and>
     (t_Status t \<noteq> StatusAccepted \<longrightarrow> t_SPIClaimedUntil t = None) \<and>
     (t_SPIMessageID t \<noteq> '''' \<longleftrightarrow> spi_known t) \<and>
     (t_EndToEndID t \<noteq> '''' \<longleftrightarrow> spi_known t) \<and>
     (t_SettlementCode t \<noteq> '''' \<longrightarrow> t_Status t \<in> {StatusSettled, StatusRejected}) \<and>
     (t_Status t \<in> {StatusReview, StatusBlocked} \<longrightarrow> t_SPISubmissionAttempts t = 0)"

text \<open>What the decision fixed and no method writes.\<close>

definition Transfer_identity where
  "Transfer_identity t =
     (t_ID t, t_TenantID t, t_AccountID t, t_IdempotencyKey t, t_RequestHash t, t_CorrelationID t,
      t_AmountCents t, t_Currency t, t_ReceiverKey t, t_ReceiverKeyType t, t_ReceiverName t,
      t_ReceiverBank t, t_ReceiverRisk t, t_FraudScore t, t_FraudRules t, t_CreatedAt t)"

text \<open>The order in which the statuses follow each other.\<close>

definition status_rank :: "TransferStatus \<Rightarrow> nat" where
  "status_rank s = (if s = StatusReview then 0 else if s = StatusAccepted then 1
                    else if s = StatusApproved then 2 else 3)"

text \<open>
  The input on which the fingerprints are compared: \<open>sha256_separates a b\<close> says that SHA-256
  does not collide on \<open>a\<close> and \<open>b\<close>.
\<close>

definition sha256_separates :: "string \<Rightarrow> string \<Rightarrow> bool" where
  "sha256_separates a b \<longleftrightarrow> (sha256_Sum256 (bytes_of a) = sha256_Sum256 (bytes_of b) \<longrightarrow> a = b)"

definition request_nul_free :: "CreateTransferRequest \<Rightarrow> bool" where
  "request_nul_free r \<longleftrightarrow>
     (\<forall>s \<in> {req_TenantID r, req_AccountID r, req_Currency r, req_ReceiverKey r,
             req_ReceiverKeyType r, req_Description r}. CHR 0x00 \<notin> set s)"

text \<open>A request for the witnesses.\<close>

definition sample_request :: CreateTransferRequest where
  "sample_request =
     \<lparr> req_TenantID = ''tenant_a'', req_AccountID = ''acct_1'', req_IdempotencyKey = ''idem'',
       req_CorrelationID = ''corr_1'', req_AmountCents = 100, req_Currency = ''BRL'',
       req_ReceiverKey = ''receiver@example.com'', req_ReceiverKeyType = ''EMAIL'',
       req_Description = ''rent'', req_RequestedAt = 0 \<rparr>"

section \<open>Lemmas on the methods\<close>

lemmas status_defs =
  StatusAccepted_def StatusApproved_def StatusBlocked_def StatusReview_def StatusSettled_def
  StatusRejected_def

lemma status_distinct [simp]:
  "StatusAccepted \<noteq> StatusApproved" "StatusAccepted \<noteq> StatusBlocked" "StatusAccepted \<noteq> StatusReview"
  "StatusAccepted \<noteq> StatusSettled" "StatusAccepted \<noteq> StatusRejected"
  "StatusApproved \<noteq> StatusAccepted" "StatusApproved \<noteq> StatusBlocked" "StatusApproved \<noteq> StatusReview"
  "StatusApproved \<noteq> StatusSettled" "StatusApproved \<noteq> StatusRejected"
  "StatusBlocked \<noteq> StatusAccepted" "StatusBlocked \<noteq> StatusApproved" "StatusBlocked \<noteq> StatusReview"
  "StatusBlocked \<noteq> StatusSettled" "StatusBlocked \<noteq> StatusRejected"
  "StatusReview \<noteq> StatusAccepted" "StatusReview \<noteq> StatusApproved" "StatusReview \<noteq> StatusBlocked"
  "StatusReview \<noteq> StatusSettled" "StatusReview \<noteq> StatusRejected"
  "StatusSettled \<noteq> StatusAccepted" "StatusSettled \<noteq> StatusApproved" "StatusSettled \<noteq> StatusBlocked"
  "StatusSettled \<noteq> StatusReview" "StatusSettled \<noteq> StatusRejected"
  "StatusRejected \<noteq> StatusAccepted" "StatusRejected \<noteq> StatusApproved" "StatusRejected \<noteq> StatusBlocked"
  "StatusRejected \<noteq> StatusReview" "StatusRejected \<noteq> StatusSettled"
  by (simp_all add: status_defs)

text \<open>When each method succeeds, and with what.\<close>

lemma ClaimSPISubmission_Inr:
  "Transfer_ClaimSPISubmission t token until now = Inr t' \<longleftrightarrow>
     strings_TrimSpace token \<noteq> '''' \<and> now < until \<and> t_Status t = StatusAccepted \<and>
     (\<forall>u. t_SPIClaimedUntil t = Some u \<longrightarrow> u \<le> now) \<and>
     t' = t\<lparr> t_SPIClaimToken := token, t_SPIClaimedUntil := Some until,
             t_SPISubmissionAttempts := wrap64 (t_SPISubmissionAttempts t + 1),
             t_SPILastError := '''', t_UpdatedAt := now \<rparr>"
  by (auto simp: Transfer_ClaimSPISubmission_def go_simps split: if_splits option.splits)

lemma RecordSPISubmission_Inr:
  "Transfer_RecordSPISubmission t token m = Inr t' \<longleftrightarrow>
     t_Status t = StatusAccepted \<and> t_SPIClaimToken t \<noteq> '''' \<and> t_SPIClaimToken t = token \<and>
     strings_TrimSpace (sm_MessageID m) \<noteq> '''' \<and> strings_TrimSpace (sm_EndToEndID m) \<noteq> '''' \<and>
     t' = t\<lparr> t_Status := StatusApproved, t_SPIMessageID := sm_MessageID m,
             t_EndToEndID := sm_EndToEndID m, t_SPIClaimToken := '''', t_SPIClaimedUntil := None,
             t_SPILastError := '''', t_UpdatedAt := sm_SubmittedAt m \<rparr>"
  by (auto simp: Transfer_RecordSPISubmission_def split: if_splits)

lemma ReleaseSPISubmission_Inr:
  "Transfer_ReleaseSPISubmission t token err retryAt now = Inr t' \<longleftrightarrow>
     (if t_Status t = StatusApproved \<and> t_SPIMessageID t \<noteq> '''' then t' = t
      else t_SPIClaimToken t \<noteq> '''' \<and> t_SPIClaimToken t = token \<and>
           t' = t\<lparr> t_SPIClaimToken := '''', t_SPIClaimedUntil := Some retryAt,
                   t_SPILastError := err, t_UpdatedAt := now \<rparr>)"
  by (auto simp: Transfer_ReleaseSPISubmission_def split: if_splits)

lemma RecordReviewDecision_Inr:
  "Transfer_RecordReviewDecision t status reason at = Inr t' \<longleftrightarrow>
     t_Status t = StatusReview \<and> (status = StatusAccepted \<or> status = StatusBlocked) \<and>
     t' = t\<lparr> t_Status := status,
             t_DecisionReason := (if reason \<noteq> '''' then reason else t_DecisionReason t),
             t_UpdatedAt := at \<rparr>"
  by (auto simp: Transfer_RecordReviewDecision_def split: if_splits)

lemma RecordSettlement_Inr:
  "Transfer_RecordSettlement t c = Inr t' \<longleftrightarrow>
     t_SPIMessageID t \<noteq> '''' \<and> t_SPIMessageID t = cb_SPIMessageID c \<and> t_Status t = StatusApproved \<and>
     (\<exists>s. (cb_Status c = SettlementAccepted \<and> s = StatusSettled
            \<or> cb_Status c = SettlementRejected \<and> s = StatusRejected) \<and>
          t' = t\<lparr> t_Status := s, t_SettlementCode := cb_Code c, t_UpdatedAt := cb_ReceivedAt c \<rparr>)"
  by (auto simp: Transfer_RecordSettlement_def TransferStatus_Terminal_def
      SettlementAccepted_def SettlementRejected_def split: if_splits)

lemmas Transfer_methods =
  ClaimSPISubmission_Inr RecordSPISubmission_Inr ReleaseSPISubmission_Inr
  RecordReviewDecision_Inr RecordSettlement_Inr

lemma not_blank_not_empty: "strings_TrimSpace s \<noteq> '''' \<Longrightarrow> s \<noteq> ''''"
  by auto

lemma Transfer_inv_claimed:
  "Transfer_inv t \<Longrightarrow> t_SPIClaimToken t \<noteq> '''' \<Longrightarrow> t_Status t = StatusAccepted"
  by (cases "t_Status t = StatusAccepted") (auto simp: Transfer_inv_def)

lemma Transfer_new_inv: "Transfer_new t \<Longrightarrow> Transfer_inv t"
  by (auto simp: Transfer_new_def Transfer_inv_def spi_known_def)

lemma claim_inv:
  "Transfer_inv t \<Longrightarrow> Transfer_ClaimSPISubmission t token until now = Inr t' \<Longrightarrow> Transfer_inv t'"
  by (clarsimp simp: ClaimSPISubmission_Inr Transfer_inv_def spi_known_def dest!: not_blank_not_empty)

lemma record_inv:
  "Transfer_inv t \<Longrightarrow> Transfer_RecordSPISubmission t token m = Inr t' \<Longrightarrow> Transfer_inv t'"
  by (clarsimp simp: RecordSPISubmission_Inr Transfer_inv_def spi_known_def dest!: not_blank_not_empty)

lemma release_inv:
  assumes inv: "Transfer_inv t" and rel: "Transfer_ReleaseSPISubmission t token e r n = Inr t'"
  shows "Transfer_inv t'"
proof (cases "t_Status t = StatusApproved \<and> t_SPIMessageID t \<noteq> ''''")
  case True
  with inv rel show ?thesis by (simp add: ReleaseSPISubmission_Inr)
next
  case False
  with rel have token: "t_SPIClaimToken t \<noteq> ''''"
    and t': "t' = t\<lparr> t_SPIClaimToken := '''', t_SPIClaimedUntil := Some r,
                 t_SPILastError := e, t_UpdatedAt := n \<rparr>"
    by (auto simp only: ReleaseSPISubmission_Inr if_False)
  from inv token have "t_Status t = StatusAccepted"
    by (rule Transfer_inv_claimed)
  with inv show ?thesis by (simp add: t' Transfer_inv_def spi_known_def)
qed

lemma review_inv:
  "Transfer_inv t \<Longrightarrow> Transfer_RecordReviewDecision t s r a = Inr t' \<Longrightarrow> Transfer_inv t'"
  by (auto simp: RecordReviewDecision_Inr Transfer_inv_def spi_known_def)

lemma settle_inv:
  assumes inv: "Transfer_inv t" and set: "Transfer_RecordSettlement t c = Inr t'"
  shows "Transfer_inv t'"
proof -
  from set obtain s where s: "s = StatusSettled \<or> s = StatusRejected"
    and t': "t' = t\<lparr> t_Status := s, t_SettlementCode := cb_Code c, t_UpdatedAt := cb_ReceivedAt c \<rparr>"
    and st: "t_Status t = StatusApproved"
    by (auto simp: RecordSettlement_Inr)
  from s show ?thesis
    using inv st by (elim disjE) (auto simp: t' Transfer_inv_def spi_known_def)
qed

lemmas Transfer_method_inv = claim_inv record_inv release_inv review_inv settle_inv

lemma Transfer_step_inv: "Transfer_step t t' \<Longrightarrow> Transfer_inv t \<Longrightarrow> Transfer_inv t'"
  by (erule Transfer_step.cases) (auto intro: Transfer_method_inv)

lemma Transfer_step_identity: "Transfer_step t t' \<Longrightarrow> Transfer_identity t' = Transfer_identity t"
  by (erule Transfer_step.cases)
    (auto simp: Transfer_methods Transfer_identity_def split: if_splits)

lemma Transfer_step_status:
  "Transfer_step t t' \<Longrightarrow>
     t_Status t' = t_Status t \<or>
     (t_Status t, t_Status t') \<in>
       {(StatusReview, StatusAccepted), (StatusReview, StatusBlocked), (StatusAccepted, StatusApproved),
        (StatusApproved, StatusSettled), (StatusApproved, StatusRejected)}"
  by (erule Transfer_step.cases) (auto simp: Transfer_methods split: if_splits)

lemma Transfer_inv_terminal:
  assumes "Transfer_inv t" and "TransferStatus_Terminal (t_Status t)"
  shows "t_SPIClaimToken t = '''' \<and> t_Status t \<notin> {StatusReview, StatusAccepted, StatusApproved}"
  using assms unfolding TransferStatus_Terminal_def
  by (elim disjE) (simp_all add: Transfer_inv_def)

lemma Transfer_step_terminal:
  assumes inv: "Transfer_inv t" and fin: "TransferStatus_Terminal (t_Status t)"
  shows "\<not> Transfer_step t t'"
proof
  assume "Transfer_step t t'"
  then show False
    using Transfer_inv_terminal [OF inv fin]
    by (cases rule: Transfer_step.cases) (auto simp: Transfer_methods)
qed

section \<open>Validation and fingerprints identify a request\<close>

lemma set_strings_TrimSpace: "set (strings_TrimSpace s) \<subseteq> set s"
proof -
  have "set (strip_front es x) \<subseteq> set x" for es x
    by (rule set_mono_suffix [OF strip_front_suffix])
  then show ?thesis
    unfolding strings_TrimSpace_def by (metis order_trans set_rev)
qed

lemma Validate_None_iff:
  "CreateTransferRequest_Validate r = None \<longleftrightarrow>
     strings_TrimSpace (req_TenantID r) \<noteq> '''' \<and> strings_TrimSpace (req_AccountID r) \<noteq> '''' \<and>
     strings_TrimSpace (req_IdempotencyKey r) \<noteq> '''' \<and>
     0 < req_AmountCents r \<and> req_AmountCents r \<le> 2000000 \<and>
     (req_Currency r = '''' \<or> req_Currency r = ''BRL'') \<and>
     strings_TrimSpace (req_ReceiverKey r) \<noteq> '''' \<and>
     req_ReceiverKeyType r \<in> {KeyCPF, KeyCNPJ, KeyEmail, KeyPhone, KeyEVP}"
  by (simp add: CreateTransferRequest_Validate_def validate_problems_def Let_def)

lemma Validate_Some: "CreateTransferRequest_Validate r = Some e \<Longrightarrow> errors_Is e ErrValidation"
  by (auto simp: CreateTransferRequest_Validate_def Let_def split: if_splits)

lemma hashParts_inj:
  assumes "hashParts xs = hashParts ys" and "length xs = length ys"
    and "sha256_separates (strings_Join xs [CHR 0x00]) (strings_Join ys [CHR 0x00])"
    and "\<forall>x \<in> set xs. CHR 0x00 \<notin> set x" and "\<forall>y \<in> set ys. CHR 0x00 \<notin> set y"
  shows "xs = ys"
proof -
  from assms(1,3) have "strings_Join xs [CHR 0x00] = strings_Join ys [CHR 0x00]"
    by (auto simp: hashParts_def sha256_separates_def dest: hex_EncodeToString_inj)
  with assms(2,4,5) show ?thesis by (rule strings_Join_inj)
qed

lemma request_parts_nul_free:
  assumes "request_nul_free r"
  shows "\<forall>x \<in> set (request_parts r). CHR 0x00 \<notin> set x"
proof -
  have "CHR 0x00 \<notin> set (strings_TrimSpace s)" if "CHR 0x00 \<notin> set s" for s
    using that set_strings_TrimSpace [of s] by auto
  with assms show ?thesis
    by (simp add: request_parts_def request_nul_free_def Let_def nul_not_in_show_int)
qed

text \<open>The currency that a request means.\<close>

definition request_currency :: "CreateTransferRequest \<Rightarrow> string" where
  "request_currency r =
     (let c = strings_TrimSpace (req_Currency r) in if c = '''' then ''BRL'' else c)"

text \<open>
  C13 (request fingerprint).  Two requests without NUL bytes have the same fingerprint exactly when
  they are the same transfer intent: same tenant, account, amount, currency (\<open>BRL\<close> when none is
  given), receiver key, key type and description, up to surrounding white space; unless SHA-256
  collides on the two inputs.
\<close>

theorem request_fingerprint_identifies:
  assumes "request_nul_free r" and "request_nul_free r'"
    and "sha256_separates (strings_Join (request_parts r) [CHR 0x00])
           (strings_Join (request_parts r') [CHR 0x00])"
  shows "CreateTransferRequest_Fingerprint r = CreateTransferRequest_Fingerprint r' \<longleftrightarrow>
         strings_TrimSpace (req_TenantID r) = strings_TrimSpace (req_TenantID r') \<and>
         strings_TrimSpace (req_AccountID r) = strings_TrimSpace (req_AccountID r') \<and>
         req_AmountCents r = req_AmountCents r' \<and>
         request_currency r = request_currency r' \<and>
         strings_TrimSpace (req_ReceiverKey r) = strings_TrimSpace (req_ReceiverKey r') \<and>
         req_ReceiverKeyType r = req_ReceiverKeyType r' \<and>
         strings_TrimSpace (req_Description r) = strings_TrimSpace (req_Description r')"
    (is "_ \<longleftrightarrow> ?same")
proof -
  have "request_parts r = request_parts r'" if "CreateTransferRequest_Fingerprint r = CreateTransferRequest_Fingerprint r'"
    using assms that
    by (intro hashParts_inj request_parts_nul_free)
      (simp_all add: CreateTransferRequest_Fingerprint_def request_parts_def Let_def)
  moreover have "request_parts r = request_parts r' \<longleftrightarrow> ?same"
    by (auto simp: request_parts_def request_currency_def Let_def)
  ultimately show ?thesis by (auto simp: CreateTransferRequest_Fingerprint_def)
qed

theorem request_fingerprint_identifies_witness:
  "CreateTransferRequest_Fingerprint sample_request =
     CreateTransferRequest_Fingerprint (sample_request\<lparr> req_AccountID := '' acct_1 '', req_Currency := '''' \<rparr>)"
proof -
  let ?r = "sample_request" and ?r' = "sample_request\<lparr> req_AccountID := '' acct_1 '', req_Currency := '''' \<rparr>"
  have trim: "strings_TrimSpace ''acct_1'' = ''acct_1''" "strings_TrimSpace '' acct_1 '' = ''acct_1''"
    "strings_TrimSpace ''BRL'' = ''BRL''" "strings_TrimSpace '''' = ''''"
    by code_simp+
  have parts: "request_parts ?r = request_parts ?r'"
    by (simp add: request_parts_def sample_request_def trim Let_def)
  have "sha256_separates (strings_Join (request_parts ?r) [CHR 0x00]) (strings_Join (request_parts ?r') [CHR 0x00])"
    by (simp add: parts sha256_separates_def)
  moreover have "request_nul_free ?r" "request_nul_free ?r'"
    by (simp_all add: request_nul_free_def sample_request_def)
  ultimately show ?thesis
    using request_fingerprint_identifies [of ?r ?r'] by (simp add: sample_request_def request_currency_def trim Let_def)
qed

text \<open>
  NUL bytes in a request.  Without the restriction to NUL-free fields the fingerprint does
  not identify the request: the parts are joined by a NUL byte, which JSON strings may contain,
  so two valid requests with different receiver keys can have the same fingerprint.
\<close>

theorem request_fingerprint_ambiguous:
  "\<exists>r r'. CreateTransferRequest_Validate r = None \<and> CreateTransferRequest_Validate r' = None \<and>
     strings_TrimSpace (req_ReceiverKey r) \<noteq> strings_TrimSpace (req_ReceiverKey r') \<and>
     CreateTransferRequest_Fingerprint r = CreateTransferRequest_Fingerprint r'"
proof (intro exI conjI)
  let ?k = "''k'' @ [CHR 0x00] @ ''EMAIL'' @ [CHR 0x00] @ ''d''"
  let ?d = "''d'' @ [CHR 0x00] @ ''EMAIL'' @ [CHR 0x00] @ ''e''"
  let ?r = "sample_request\<lparr> req_ReceiverKey := ''k'', req_Description := ?d \<rparr>"
  let ?r' = "sample_request\<lparr> req_ReceiverKey := ?k, req_Description := ''e'' \<rparr>"
  show "CreateTransferRequest_Validate ?r = None" by code_simp
  show "CreateTransferRequest_Validate ?r' = None" by code_simp
  show "strings_TrimSpace (req_ReceiverKey ?r) \<noteq> strings_TrimSpace (req_ReceiverKey ?r')"
    by code_simp
  have "strings_Join (request_parts ?r) [CHR 0x00] = strings_Join (request_parts ?r') [CHR 0x00]"
    by code_simp
  then show "CreateTransferRequest_Fingerprint ?r = CreateTransferRequest_Fingerprint ?r'"
    by (simp only: CreateTransferRequest_Fingerprint_def hashParts_def)
qed

section \<open>Runs of the state machine\<close>

lemma Transfer_steps_inv: "Transfer_step\<^sup>*\<^sup>* t t' \<Longrightarrow> Transfer_inv t \<Longrightarrow> Transfer_inv t'"
  by (induction rule: rtranclp_induct) (auto intro: Transfer_step_inv)

lemma Transfer_steps_identity: "Transfer_step\<^sup>*\<^sup>* t t' \<Longrightarrow> Transfer_identity t' = Transfer_identity t"
  by (induction rule: rtranclp_induct) (auto dest: Transfer_step_identity)

lemma Transfer_step_rank:
  "Transfer_step t t' \<Longrightarrow> t_Status t' = t_Status t \<or> status_rank (t_Status t) < status_rank (t_Status t')"
  by (drule Transfer_step_status) (auto simp: status_rank_def)

lemma Transfer_steps_rank:
  "Transfer_step\<^sup>*\<^sup>* t t' \<Longrightarrow>
     t_Status t' = t_Status t \<or> status_rank (t_Status t) < status_rank (t_Status t')"
proof (induction rule: rtranclp_induct)
  case base
  show ?case by simp
next
  case (step t1 t2)
  from step.hyps(2) have "t_Status t2 = t_Status t1 \<or> status_rank (t_Status t1) < status_rank (t_Status t2)"
    by (rule Transfer_step_rank)
  with step.IH show ?case by auto
qed

text \<open>
  C10 (well-formed transfers).  Every transfer that starts as the switch inserts it and is changed
  by the methods only satisfies the invariant: a claim only while accepted, SPI identifiers
  exactly from approval on, a settlement code only when settled or rejected, no submission
  attempt while in review or blocked.
\<close>

theorem transfer_reachable_inv:
  assumes "Transfer_new t" and "Transfer_step\<^sup>*\<^sup>* t t'"
  shows "Transfer_inv t'"
  using assms by (blast intro: Transfer_steps_inv Transfer_new_inv)

text \<open>
  Forward only.  Along every run the identity of a transfer (ids, tenant, account, amount,
  receiver, fraud decision, creation time) is fixed, and its status never moves backwards in the
  order review, accepted, approved, terminal.
\<close>

theorem transfer_runs_forward:
  assumes "Transfer_step\<^sup>*\<^sup>* t t'"
  shows "Transfer_identity t' = Transfer_identity t \<and>
         (t_Status t' = t_Status t \<or> status_rank (t_Status t) < status_rank (t_Status t'))"
  using assms by (simp add: Transfer_steps_identity Transfer_steps_rank)

text \<open>
  C11 (terminal states are final).  No sequence of method calls changes a transfer that is
  blocked, settled or rejected, in any of its fields.
\<close>

theorem terminal_transfer_final:
  assumes "Transfer_new t" and "Transfer_step\<^sup>*\<^sup>* t t'" and "TransferStatus_Terminal (t_Status t')"
    and "Transfer_step\<^sup>*\<^sup>* t' t''"
  shows "t'' = t'"
proof -
  from assms(1,2) have "Transfer_inv t'"
    by (blast intro: Transfer_steps_inv Transfer_new_inv)
  then have "\<not> Transfer_step t' u" for u
    using assms(3) by (rule Transfer_step_terminal)
  with assms(4) show ?thesis by (metis converse_rtranclpE)
qed

text \<open>
  C12 (exclusive claims).  While a claim has not expired, a worker with another token can neither
  record a submission, nor release the claim, nor take it over: each attempt is a conflict.
\<close>

theorem spi_claim_exclusive:
  assumes "Transfer_ClaimSPISubmission t token until now = Inr t'"
    and "token' \<noteq> token" and "now' < until"
  shows "is_error (Transfer_RecordSPISubmission t' token' m) ErrConflict \<and>
         is_error (Transfer_ReleaseSPISubmission t' token' err retryAt now') ErrConflict \<and>
         (\<forall>until'. strings_TrimSpace token' \<noteq> '''' \<and> now' < until' \<longrightarrow>
            is_error (Transfer_ClaimSPISubmission t' token' until' now') ErrConflict)"
proof -
  from assms(1) have t': "t_Status t' = StatusAccepted" "t_SPIClaimToken t' = token"
    "t_SPIClaimedUntil t' = Some until"
    by (auto simp: ClaimSPISubmission_Inr)
  with assms(2,3) show ?thesis
    by (auto simp: Transfer_RecordSPISubmission_def Transfer_ReleaseSPISubmission_def
        Transfer_ClaimSPISubmission_def is_error_def go_simps)
qed

text \<open>A claimed transfer, a message and a callback for the runs below.\<close>

definition demo_message :: SPIMessage where
  "demo_message = \<lparr> sm_MessageID = ''spi_1'', sm_EndToEndID = ''E1'', sm_TransferID = ''pxt_1'',
                    sm_SubmittedAt = 5 \<rparr>"

definition demo_callback :: "string \<Rightarrow> SettlementCallback" where
  "demo_callback spi = \<lparr> cb_TenantID = ''tenant_a'', cb_TransferID = ''pxt_1'', cb_SPIMessageID = spi,
     cb_Status = SettlementAccepted, cb_Code = ''ACSC'', cb_CallbackHash = '''',
     cb_CorrelationID = ''corr_1'', cb_ReceivedAt = 9 \<rparr>"

lemma trim_samples: "strings_TrimSpace ''worker'' \<noteq> ''''" "strings_TrimSpace ''spi_1'' \<noteq> ''''"
    "strings_TrimSpace ''E1'' \<noteq> ''''"
  by code_simp+

lemma approved_can_settle:
  assumes "Transfer_inv t" and "t_Status t = StatusApproved"
  shows "\<exists>t'. Transfer_step t t' \<and> t_Status t' = StatusSettled"
proof -
  from assms have "t_SPIMessageID t \<noteq> ''''" by (simp add: Transfer_inv_def spi_known_def)
  with assms(2) obtain t' where "Transfer_RecordSettlement t (demo_callback (t_SPIMessageID t)) = Inr t'"
      and "t_Status t' = StatusSettled"
    by (simp add: Transfer_RecordSettlement_def demo_callback_def TransferStatus_Terminal_def)
  then show ?thesis by (blast intro: Transfer_step.settle)
qed

lemma accepted_can_be_approved:
  assumes "t_Status t = StatusAccepted"
  shows "\<exists>t'. Transfer_step\<^sup>*\<^sup>* t t' \<and> t_Status t' = StatusApproved"
proof -
  define now where "now = (case t_SPIClaimedUntil t of None \<Rightarrow> 0 | Some u \<Rightarrow> u)"
  obtain t1 where t1: "Transfer_ClaimSPISubmission t ''worker'' (now + 1) now = Inr t1"
    using assms trim_samples(1) by (simp add: ClaimSPISubmission_Inr now_def)
  then have "t_Status t1 = StatusAccepted" "t_SPIClaimToken t1 = ''worker''"
    by (auto simp: ClaimSPISubmission_Inr)
  then obtain t2 where t2: "Transfer_RecordSPISubmission t1 ''worker'' demo_message = Inr t2"
      and "t_Status t2 = StatusApproved"
    using trim_samples by (simp add: RecordSPISubmission_Inr demo_message_def)
  with Transfer_step.claim [OF t1] Transfer_step.record_spi [OF t2] show ?thesis
    by (blast intro: rtranclp.rtrancl_into_rtrancl)
qed

text \<open>
  No stuck transfer.  From every reachable transfer that is not terminal, whatever claims
  and failed submissions it has seen, some sequence of method calls settles it.
\<close>

theorem transfer_can_settle:
  assumes "Transfer_new t" and "Transfer_step\<^sup>*\<^sup>* t t'"
    and "\<not> TransferStatus_Terminal (t_Status t')"
  shows "\<exists>t''. Transfer_step\<^sup>*\<^sup>* t' t'' \<and> t_Status t'' = StatusSettled"
proof -
  have inv: "Transfer_inv t'" using assms(1,2) by (blast intro: Transfer_steps_inv Transfer_new_inv)
  have settle: ?thesis if "Transfer_step\<^sup>*\<^sup>* t' u" "t_Status u = StatusApproved" for u
    using approved_can_settle Transfer_steps_inv [OF that(1) inv] that
    by (meson rtranclp.rtrancl_into_rtrancl)
  have approve: ?thesis if "Transfer_step\<^sup>*\<^sup>* t' u" "t_Status u = StatusAccepted" for u
    using accepted_can_be_approved [OF that(2)] settle that(1) by (meson rtranclp_trans)
  from inv assms(3) consider "t_Status t' = StatusApproved" | "t_Status t' = StatusAccepted"
    | "t_Status t' = StatusReview"
    by (auto simp: Transfer_inv_def TransferStatus_Terminal_def)
  then show ?thesis
  proof cases
    case 1
    then show ?thesis using settle by blast
  next
    case 2
    then show ?thesis using approve by blast
  next
    case 3
    then obtain u where "Transfer_RecordReviewDecision t' StatusAccepted '''' 0 = Inr u"
        and "t_Status u = StatusAccepted"
      by (simp add: Transfer_RecordReviewDecision_def)
    then show ?thesis using approve by (blast intro: Transfer_step.review)
  qed
qed

text \<open>A run that witnesses the theorems below: inserted, claimed, approved, settled.\<close>

definition demo_transfer :: Transfer where
  "demo_transfer =
     \<lparr> t_ID = ''pxt_1'', t_TenantID = ''tenant_a'', t_AccountID = ''acct_1'', t_IdempotencyKey = ''idem'',
       t_RequestHash = ''h'', t_CorrelationID = ''corr_1'', t_EndToEndID = '''', t_AmountCents = 100,
       t_Currency = ''BRL'', t_ReceiverKey = ''k'', t_ReceiverKeyType = ''EMAIL'', t_ReceiverName = ''n'',
       t_ReceiverBank = ''10000000'', t_ReceiverRisk = 1, t_FraudScore = 1, t_FraudRules = [],
       t_Status = StatusAccepted, t_DecisionReason = ''ok'', t_SPIMessageID = '''', t_SPIClaimToken = '''',
       t_SPIClaimedUntil = None, t_SPISubmissionAttempts = 0, t_SPILastError = '''',
       t_SettlementCode = '''', t_CreatedAt = 1, t_UpdatedAt = 1 \<rparr>"

definition demo_claimed :: Transfer where
  "demo_claimed = demo_transfer\<lparr> t_SPIClaimToken := ''worker'', t_SPIClaimedUntil := Some 30,
     t_SPISubmissionAttempts := 1, t_UpdatedAt := 2 \<rparr>"

definition demo_approved :: Transfer where
  "demo_approved = demo_transfer\<lparr> t_SPISubmissionAttempts := 1, t_Status := StatusApproved,
     t_SPIMessageID := ''spi_1'', t_EndToEndID := ''E1'', t_UpdatedAt := 5 \<rparr>"

definition demo_settled :: Transfer where
  "demo_settled = demo_approved\<lparr> t_Status := StatusSettled, t_SettlementCode := ''ACSC'', t_UpdatedAt := 9 \<rparr>"

lemmas demo_defs = demo_transfer_def demo_claimed_def demo_approved_def demo_settled_def
  demo_message_def demo_callback_def

lemma wrap64_one [simp]: "wrap64 1 = 1"
  by (simp add: wrap64_id int64_min_def int64_max_def)

lemma demo_claim: "Transfer_ClaimSPISubmission demo_transfer ''worker'' 30 2 = Inr demo_claimed"
  using trim_samples(1) by (simp add: ClaimSPISubmission_Inr demo_defs)

lemma demo_record: "Transfer_RecordSPISubmission demo_claimed ''worker'' demo_message = Inr demo_approved"
  using trim_samples by (simp add: RecordSPISubmission_Inr demo_defs)

lemma demo_settle: "Transfer_RecordSettlement demo_approved (demo_callback ''spi_1'') = Inr demo_settled"
  by (simp add: Transfer_RecordSettlement_def TransferStatus_Terminal_def demo_defs)

lemma demo_new: "Transfer_new demo_transfer"
  by (simp add: Transfer_new_def demo_transfer_def)

lemma demo_runs:
  "Transfer_step\<^sup>*\<^sup>* demo_transfer demo_claimed" "Transfer_step\<^sup>*\<^sup>* demo_transfer demo_settled"
  using Transfer_step.claim [OF demo_claim] Transfer_step.record_spi [OF demo_record]
    Transfer_step.settle [OF demo_settle]
  by (auto intro: rtranclp.rtrancl_into_rtrancl)

theorem transfer_reachable_inv_witness: "Transfer_inv demo_settled"
  by (rule transfer_reachable_inv [OF demo_new demo_runs(2)])

theorem transfer_runs_forward_witness:
  "status_rank (t_Status demo_transfer) < status_rank (t_Status demo_settled)"
  using transfer_runs_forward [OF demo_runs(2)] by (auto simp: demo_defs)

theorem terminal_transfer_final_witness: "{t. Transfer_step\<^sup>*\<^sup>* demo_settled t} = {demo_settled}"
proof -
  have "TransferStatus_Terminal (t_Status demo_settled)"
    by (simp add: TransferStatus_Terminal_def demo_settled_def)
  then show ?thesis
    using terminal_transfer_final [OF demo_new demo_runs(2)] by blast
qed

theorem spi_claim_exclusive_witness:
  "is_error (Transfer_RecordSPISubmission demo_claimed ''other'' demo_message) ErrConflict"
  using spi_claim_exclusive [OF demo_claim, of "''other''" 3 demo_message] by simp

theorem transfer_can_settle_witness:
  "\<exists>t. Transfer_step\<^sup>*\<^sup>* demo_claimed t \<and> t_Status t = StatusSettled"
  by (rule transfer_can_settle [OF demo_new demo_runs(1)])
     (simp add: TransferStatus_Terminal_def demo_defs)

end
