(* ===== verification/Config.thy ===== *)
theory Config
  imports Rail
begin

text \<open>
  The configuration, \<open>internal/config/config.go\<close>: the environment variables, their defaults and
  the checks of \<open>Load\<close>, and the syntax of the API keys.

  Three things are parameters: \<open>os.Getenv\<close> (\<open>env\<close>, where an unset variable is empty), the quoting
  of \<open>%q\<close> in error texts (\<open>quote\<close>) and \<open>time.ParseDuration\<close> (\<open>duration_of\<close>), which scales
  fractions in floating point.
\<close>

section \<open>Library functions\<close>

text \<open>\<open>strings.Split\<close> at a one-byte separator, and \<open>strings.SplitN(s, ":", n)\<close>.\<close>

fun strings_Split :: "char \<Rightarrow> string \<Rightarrow> string list" where
  "strings_Split sep [] = [[]]"
| "strings_Split sep (c # s) =
     (if c = sep then [] # strings_Split sep s
      else (case strings_Split sep s of [] \<Rightarrow> [[c]] | p # ps \<Rightarrow> (c # p) # ps))"

fun strings_SplitN :: "nat \<Rightarrow> char \<Rightarrow> string \<Rightarrow> string list" where
  "strings_SplitN 0 sep s = []"
| "strings_SplitN (Suc 0) sep s = [s]"
| "strings_SplitN (Suc (Suc n)) sep s =
     (if sep \<in> set s
      then takeWhile (\<lambda>c. c \<noteq> sep) s # strings_SplitN (Suc n) sep (tl (dropWhile (\<lambda>c. c \<noteq> sep) s))
      else [s])"

text \<open>\<open>strconv.Atoi\<close>: an optional sign and decimal digits, within the range of \<open>int\<close>.\<close>

definition is_digit :: "char \<Rightarrow> bool" where
  "is_digit c \<longleftrightarrow> 48 \<le> (of_char c :: nat) \<and> of_char c \<le> (57 :: nat)"

definition strconv_Atoi :: "string \<Rightarrow> int option" where
  "strconv_Atoi s =
     (let (neg, ds) = (case s of [] \<Rightarrow> (False, [])
                       | c # cs \<Rightarrow> if c = CHR ''-'' then (True, cs) else if c = CHR ''+'' then (False, cs) else (False, s));
          n = (if neg then - int (read_nat ds) else int (read_nat ds))
      in if ds = [] \<or> \<not> list_all is_digit ds \<or> n < int64_min \<or> n > int64_max then None else Some n)"

section \<open>Keys and roles\<close>

type_synonym APIKeyRole = string

definition RoleTenant :: APIKeyRole where "RoleTenant = ''tenant''"
definition RoleWorker :: APIKeyRole where "RoleWorker = ''worker''"
definition RoleRisk :: APIKeyRole where "RoleRisk = ''risk''"
definition RoleProvider :: APIKeyRole where "RoleProvider = ''provider''"

text \<open>The set of roles is the Go map with the value \<open>true\<close> for its members.\<close>

record APIKey =
  ak_TenantID :: string
  ak_Secret :: string
  ak_Roles :: "APIKeyRole set"

definition APIKey_HasRole :: "APIKey \<Rightarrow> APIKeyRole \<Rightarrow> bool" where
  "APIKey_HasRole k role = (if ak_Roles k = {} then role = RoleTenant else role \<in> ak_Roles k)"

definition roleSet :: "APIKeyRole list \<Rightarrow> APIKeyRole set" where
  "roleSet roles = set roles"

fun parse_role_list :: "(string \<Rightarrow> string) \<Rightarrow> string list \<Rightarrow> APIKeyRole set \<Rightarrow> APIKeyRole set result" where
  "parse_role_list quote [] roles = Inr roles"
| "parse_role_list quote (role # rest) roles =
     (let parsed = strings_TrimSpace role
      in if parsed \<in> {RoleTenant, RoleWorker, RoleRisk, RoleProvider}
         then parse_role_list quote rest (insert parsed roles)
         else Inl (Opaque (''invalid PIXRAIL_API_KEYS role '' @ quote role)))"

definition parseRoles :: "(string \<Rightarrow> string) \<Rightarrow> string \<Rightarrow> APIKeyRole set result" where
  "parseRoles quote raw =
     (case parse_role_list quote (strings_Split (CHR ''|'') raw) {} of
        Inl err \<Rightarrow> Inl err
      | Inr roles \<Rightarrow> if roles = {} then Inl (Opaque ''PIXRAIL_API_KEYS role list cannot be empty'') else Inr roles)"

text \<open>The map of keys by secret is an association list in the order of insertion.\<close>

type_synonym api_keys = "(string \<times> APIKey) list"

definition parse_entry :: "(string \<Rightarrow> string) \<Rightarrow> string \<Rightarrow> APIKey result" where
  "parse_entry quote pair =
     (let parts = strings_SplitN 3 (CHR '':'') (strings_TrimSpace pair);
          blank = (\<lambda>i. strings_TrimSpace (parts ! i) = '''')
      in if (length parts \<noteq> 2 \<or> blank 0 \<or> blank 1) \<and> (length parts \<noteq> 3 \<or> blank 0 \<or> blank 1 \<or> blank 2) then
           Inl (Opaque (''invalid PIXRAIL_API_KEYS entry '' @ quote pair @ '', expected tenant_id:secret[:role|role]''))
         else (case if length parts = 3 then parseRoles quote (parts ! 2) else Inr (roleSet [RoleTenant]) of
             Inl err \<Rightarrow> Inl err
           | Inr roles \<Rightarrow> Inr \<lparr> ak_TenantID = strings_TrimSpace (parts ! 0),
                                 ak_Secret = strings_TrimSpace (parts ! 1), ak_Roles = roles \<rparr>))"

fun parse_entries :: "(string \<Rightarrow> string) \<Rightarrow> string list \<Rightarrow> api_keys \<Rightarrow> api_keys result" where
  "parse_entries quote [] keys = Inr keys"
| "parse_entries quote (pair # rest) keys =
     (case parse_entry quote pair of
        Inl err \<Rightarrow> Inl err
      | Inr k \<Rightarrow>
          if map_of keys (ak_Secret k) \<noteq> None then
            Inl (Opaque (''duplicate PIXRAIL_API_KEYS secret for tenant '' @ quote (ak_TenantID k)))
          else parse_entries quote rest (keys @ [(ak_Secret k, k)]))"

definition parseAPIKeys :: "(string \<Rightarrow> string) \<Rightarrow> string \<Rightarrow> api_keys result" where
  "parseAPIKeys quote raw0 =
     (let raw = strings_TrimSpace raw0
      in if raw = '''' then Inr [] else parse_entries quote (strings_Split (CHR '','') raw) [])"

section \<open>Load\<close>

record Config =
  cfg_Addr :: string
  cfg_Environment :: string
  cfg_APIKeys :: api_keys
  cfg_StoreDriver :: string
  cfg_DatabaseURL :: string
  cfg_PostgresMinConns :: int
  cfg_PostgresMaxConns :: int
  cfg_PostgresMaxConnLifetime :: duration
  cfg_TenantBucketSize :: int
  cfg_DictBucketSize :: int
  cfg_DictTimeout :: duration
  cfg_WorkerBatchSize :: int
  cfg_WorkerInterval :: duration
  cfg_ProviderCallbackSecret :: string
  cfg_ProviderSignatureTolerance :: duration
  cfg_PprofAddr :: string
  cfg_ShutdownTimeout :: duration
  cfg_RequireConfiguredSecrets :: bool
  cfg_TracingExporter :: string

definition getenv :: "(string \<Rightarrow> string) \<Rightarrow> string \<Rightarrow> string \<Rightarrow> string" where
  "getenv env key fallback =
     (let value = strings_TrimSpace (env key) in if value \<noteq> '''' then value else fallback)"

definition defaultHTTPAddr :: "(string \<Rightarrow> string) \<Rightarrow> string" where
  "defaultHTTPAddr env =
     (let value = strings_TrimSpace (env ''PIXRAIL_HTTP_ADDR''); port = strings_TrimSpace (env ''PORT'')
      in if value \<noteq> '''' then value
         else if port = '''' then '':8080''
         else if strings_HasPrefix port '':'' then port
         else '':'' @ port)"

definition defaultTracingExporter :: "string \<Rightarrow> string" where
  "defaultTracingExporter env = (if env = ''production'' then ''none'' else ''stdout'')"

definition defaultProviderCallbackSecret :: "string \<Rightarrow> string" where
  "defaultProviderCallbackSecret env = (if env = ''production'' then '''' else ''dev-provider-callback-secret'')"

text \<open>The texts of the errors of \<open>strconv.Atoi\<close> and of \<open>time.ParseDuration\<close> are not modelled.\<close>

definition getenvIntAtLeast :: "(string \<Rightarrow> string) \<Rightarrow> string \<Rightarrow> int \<Rightarrow> int \<Rightarrow> int result" where
  "getenvIntAtLeast env key fallback least =
     (let value = strings_TrimSpace (env key)
      in if value = '''' then Inr fallback
         else (case strconv_Atoi value of
             None \<Rightarrow> Inl (Prefixed (key @ '' must be an integer'') (Opaque '''' ))
           | Some parsed \<Rightarrow> if parsed < least then Inl (Opaque (key @ '' must be >= '' @ show_int least))
                           else Inr parsed))"

definition getenvDurationAtLeast ::
    "(string \<Rightarrow> duration option) \<Rightarrow> (duration \<Rightarrow> string) \<Rightarrow> (string \<Rightarrow> string) \<Rightarrow> string \<Rightarrow> duration \<Rightarrow> duration \<Rightarrow>
       duration result" where
  "getenvDurationAtLeast duration_of show_duration env key fallback least =
     (let value = strings_TrimSpace (env key)
      in if value = '''' then Inr fallback
         else (case duration_of value of
             None \<Rightarrow> Inl (Prefixed (key @ '' must be a duration'') (Opaque '''' ))
           | Some parsed \<Rightarrow> if parsed < least then Inl (Opaque (key @ '' must be >= '' @ show_duration least))
                           else Inr parsed))"

definition dev_keys :: api_keys where
  "dev_keys =
     [(''dev-secret'', \<lparr> ak_TenantID = ''tenant_demo'', ak_Secret = ''dev-secret'', ak_Roles = roleSet [RoleTenant] \<rparr>),
      (''worker-secret'', \<lparr> ak_TenantID = ''tenant_demo'', ak_Secret = ''worker-secret'', ak_Roles = roleSet [RoleWorker] \<rparr>),
      (''risk-secret'', \<lparr> ak_TenantID = ''tenant_demo'', ak_Secret = ''risk-secret'', ak_Roles = roleSet [RoleRisk] \<rparr>),
      (''provider-secret'', \<lparr> ak_TenantID = ''tenant_demo'', ak_Secret = ''provider-secret'', ak_Roles = roleSet [RoleProvider] \<rparr>)]"

text \<open>The checks at the end of \<open>Load\<close>, on the configuration and the parsed keys.\<close>

definition check_config :: "Config \<Rightarrow> api_keys \<Rightarrow> Config result" where
  "check_config cfg keys0 =
     (if keys0 = [] \<and> cfg_RequireConfiguredSecrets cfg then
        Inl (Opaque ''PIXRAIL_API_KEYS is required in production'')
      else
        (let keys = (if keys0 = [] then dev_keys else keys0)
         in if cfg_RequireConfiguredSecrets cfg \<and> cfg_ProviderCallbackSecret cfg = '''' then
              Inl (Opaque ''PIXRAIL_PROVIDER_CALLBACK_SECRET is required in production'')
            else if cfg_StoreDriver cfg \<noteq> ''memory'' \<and> cfg_StoreDriver cfg \<noteq> ''postgres'' then
              Inl (Opaque ''PIXRAIL_STORE_DRIVER must be memory or postgres'')
            else if cfg_StoreDriver cfg = ''postgres'' \<and> cfg_DatabaseURL cfg = '''' then
              Inl (Opaque ''PIXRAIL_DATABASE_URL is required when PIXRAIL_STORE_DRIVER=postgres'')
            else if cfg_Environment cfg = ''production'' \<and> cfg_StoreDriver cfg \<noteq> ''postgres'' then
              Inl (Opaque ''PIXRAIL_STORE_DRIVER=postgres is required in production'')
            else if cfg_TracingExporter cfg \<noteq> ''none'' \<and> cfg_TracingExporter cfg \<noteq> ''stdout'' then
              Inl (Opaque ''PIXRAIL_TRACING_EXPORTER must be none or stdout'')
            else Inr (cfg\<lparr> cfg_APIKeys := keys \<rparr>)))"

definition bind_result :: "'a result \<Rightarrow> ('a \<Rightarrow> 'b result) \<Rightarrow> 'b result" where
  "bind_result r f = (case r of Inl err \<Rightarrow> Inl err | Inr a \<Rightarrow> f a)"

definition Load ::
    "(string \<Rightarrow> string) \<Rightarrow> (string \<Rightarrow> duration option) \<Rightarrow> (duration \<Rightarrow> string) \<Rightarrow> (string \<Rightarrow> string) \<Rightarrow> Config result" where
  "Load quote duration_of show_duration env =
     (let environment = getenv env ''PIXRAIL_ENV'' ''development'';
          int_at = getenvIntAtLeast env;
          dur_at = getenvDurationAtLeast duration_of show_duration env
      in bind_result (int_at ''PIXRAIL_POSTGRES_MIN_CONNS'' 0 0) (\<lambda>minConns.
         bind_result (int_at ''PIXRAIL_POSTGRES_MAX_CONNS'' 10 1) (\<lambda>maxConns.
         bind_result (dur_at ''PIXRAIL_POSTGRES_MAX_CONN_LIFETIME'' (30 * minute) nanosecond) (\<lambda>lifetime.
         bind_result (int_at ''PIXRAIL_TENANT_BUCKET_SIZE'' 120 1) (\<lambda>tenantBucket.
         bind_result (int_at ''PIXRAIL_DICT_BUCKET_SIZE'' 60 1) (\<lambda>dictBucket.
         bind_result (dur_at ''PIXRAIL_DICT_TIMEOUT'' (300 * millisecond) nanosecond) (\<lambda>dictTimeout.
         bind_result (int_at ''PIXRAIL_WORKER_BATCH_SIZE'' 100 1) (\<lambda>batch.
         bind_result (dur_at ''PIXRAIL_WORKER_INTERVAL'' second nanosecond) (\<lambda>interval.
         bind_result (dur_at ''PIXRAIL_PROVIDER_SIGNATURE_TOLERANCE'' (5 * minute) nanosecond) (\<lambda>tolerance.
         bind_result (dur_at ''PIXRAIL_SHUTDOWN_TIMEOUT'' (5 * second) nanosecond) (\<lambda>shutdown.
         bind_result (parseAPIKeys quote (env ''PIXRAIL_API_KEYS'')) (\<lambda>keys.
           check_config
             \<lparr> cfg_Addr = defaultHTTPAddr env, cfg_Environment = environment, cfg_APIKeys = [],
               cfg_StoreDriver = getenv env ''PIXRAIL_STORE_DRIVER'' ''memory'',
               cfg_DatabaseURL = getenv env ''PIXRAIL_DATABASE_URL'' '''',
               cfg_PostgresMinConns = minConns, cfg_PostgresMaxConns = maxConns,
               cfg_PostgresMaxConnLifetime = lifetime, cfg_TenantBucketSize = tenantBucket,
               cfg_DictBucketSize = dictBucket, cfg_DictTimeout = dictTimeout, cfg_WorkerBatchSize = batch,
               cfg_WorkerInterval = interval,
               cfg_ProviderCallbackSecret =
                 getenv env ''PIXRAIL_PROVIDER_CALLBACK_SECRET'' (defaultProviderCallbackSecret environment),
               cfg_ProviderSignatureTolerance = tolerance,
               cfg_PprofAddr = getenv env ''PIXRAIL_PPROF_ADDR'' '''',
               cfg_ShutdownTimeout = shutdown,
               cfg_RequireConfiguredSecrets = (environment = ''production''),
               cfg_TracingExporter =
                 getenv env ''PIXRAIL_TRACING_EXPORTER'' (defaultTracingExporter environment) \<rparr>
             keys))))))))))))"

section \<open>Lemmas\<close>

lemma front_match_visible:
  assumes "set s \<inter> set (concat es) = {}"
  shows "front_match es s = None"
proof -
  have "\<not> (e \<noteq> [] \<and> prefix e s)" if "e \<in> set es" for e
    using assms that by (cases e) (fastforce simp: prefix_def)+
  then show ?thesis by (auto simp: front_match_def find_None_iff)
qed

lemma strings_TrimSpace_visible:
  assumes "set s \<inter> set (concat space_encodings) = {}"
  shows "strings_TrimSpace s = s"
proof -
  have "set (rev s) \<inter> set (concat (map rev space_encodings)) = {}"
    using assms by auto
  with assms show ?thesis
    by (simp add: strings_TrimSpace_def strip_front_unmatched front_match_visible)
qed

lemma strings_Split_no_sep:
  "p \<in> set (strings_Split sep s) \<Longrightarrow> sep \<notin> set p \<and> set p \<subseteq> set s"
proof (induction s arbitrary: p)
  case Nil
  then show ?case by simp
next
  case (Cons c s)
  show ?case
  proof (cases "c = sep \<or> strings_Split sep s = []")
    case True
    with Cons show ?thesis by (fastforce split: if_splits)
  next
    case False
    then obtain q qs where q: "strings_Split sep s = q # qs" by (cases "strings_Split sep s") auto
    with Cons.prems False have "p = c # q \<or> p \<in> set qs" by simp
    with Cons.IH [of q] Cons.IH [of p] q False show ?thesis by auto
  qed
qed

lemma strings_Split_append:
  "sep \<notin> set p \<Longrightarrow> strings_Split sep (p @ sep # s) = p # strings_Split sep s"
  by (induction p) auto

lemma strings_Split_single: "sep \<notin> set p \<Longrightarrow> strings_Split sep p = [p]"
  by (induction p) auto

lemma strings_Split_Join:
  assumes "ps \<noteq> []" and "\<forall>p \<in> set ps. sep \<notin> set p"
  shows "strings_Split sep (strings_Join ps [sep]) = ps"
  using assms
proof (induction ps)
  case Nil
  then show ?case by simp
next
  case (Cons p ps)
  then show ?case by (cases ps) (auto simp: strings_Split_single strings_Split_append)
qed

lemma until_sep [simp]:
  assumes "sep \<notin> set p"
  shows "takeWhile (\<lambda>c. c \<noteq> sep) (p @ sep # s) = p" and "dropWhile (\<lambda>c. c \<noteq> sep) (p @ sep # s) = sep # s"
  using assms by (induction p) auto

lemma strings_SplitN_append:
  "sep \<notin> set p \<Longrightarrow> strings_SplitN (Suc (Suc n)) sep (p @ sep # s) = p # strings_SplitN (Suc n) sep s"
  by simp

lemma SplitN_3_cases:
  obtains "sep \<notin> set s" "strings_SplitN 3 sep s = [s]"
  | p q where "s = p @ sep # q" "sep \<notin> set p" "sep \<notin> set q" "strings_SplitN 3 sep s = [p, q]"
  | p q r where "s = p @ sep # q @ sep # r" "sep \<notin> set p" "sep \<notin> set q" "strings_SplitN 3 sep s = [p, q, r]"
proof (cases "sep \<in> set s")
  case False
  then show ?thesis using that(1) by (simp add: numeral_3_eq_3)
next
  case True
  then obtain p t where s: "s = p @ sep # t" "sep \<notin> set p" by (meson split_list_first)
  show ?thesis
  proof (cases "sep \<in> set t")
    case False
    with s that(2) [of p t] show ?thesis by (simp add: numeral_3_eq_3)
  next
    case True
    then obtain q r where "t = q @ sep # r" "sep \<notin> set q" by (meson split_list_first)
    with s that(3) [of p q r] show ?thesis by (simp add: numeral_3_eq_3)
  qed
qed

definition api_role_ok :: "APIKeyRole \<Rightarrow> bool" where
  "api_role_ok r \<longleftrightarrow> r \<in> {RoleTenant, RoleWorker, RoleRisk, RoleProvider}"

definition key_text_ok :: "string \<Rightarrow> bool" where
  "key_text_ok s \<longleftrightarrow> s \<noteq> '''' \<and> strings_TrimSpace s = s \<and> CHR '':'' \<notin> set s \<and> CHR '','' \<notin> set s"

definition api_key_ok :: "APIKey \<Rightarrow> bool" where
  "api_key_ok k \<longleftrightarrow> key_text_ok (ak_TenantID k) \<and> key_text_ok (ak_Secret k) \<and>
     ak_Roles k \<noteq> {} \<and> (\<forall>r \<in> ak_Roles k. api_role_ok r)"

definition api_keys_ok :: "api_keys \<Rightarrow> bool" where
  "api_keys_ok keys \<longleftrightarrow> distinct (map fst keys) \<and> (\<forall>(secret, k) \<in> set keys. secret = ak_Secret k \<and> api_key_ok k)"

lemma parse_role_list_ok:
  assumes "parse_role_list quote rs roles = Inr roles'" and "\<forall>r \<in> roles. api_role_ok r"
  shows "\<forall>r \<in> roles'. api_role_ok r"
  using assms
proof (induction quote rs roles rule: parse_role_list.induct)
  case (1 quote roles)
  then show ?case by simp
next
  case (2 quote role rest roles)
  let ?p = "strings_TrimSpace role"
  from "2.prems" have "api_role_ok ?p"
    by (auto simp: api_role_ok_def Let_def split: if_splits)
  with 2 show ?case by (auto simp: api_role_ok_def Let_def)
qed

lemma parseRoles_ok:
  assumes "parseRoles quote raw = Inr roles"
  shows "roles \<noteq> {} \<and> (\<forall>r \<in> roles. api_role_ok r)"
  using assms parse_role_list_ok [of quote "strings_Split (CHR ''|'') raw" "{}"]
  by (auto simp: parseRoles_def split: sum.splits if_splits)

lemma parse_entry_parts:
  "strings_SplitN 3 (CHR '':'') (strings_TrimSpace pair) = [s] \<Longrightarrow> parse_entry quote pair \<noteq> Inr k"
  "strings_SplitN 3 (CHR '':'') (strings_TrimSpace pair) = [p, q] \<Longrightarrow> parse_entry quote pair = Inr k \<longleftrightarrow>
     strings_TrimSpace p \<noteq> '''' \<and> strings_TrimSpace q \<noteq> '''' \<and>
     k = \<lparr> ak_TenantID = strings_TrimSpace p, ak_Secret = strings_TrimSpace q, ak_Roles = {RoleTenant} \<rparr>"
  "strings_SplitN 3 (CHR '':'') (strings_TrimSpace pair) = [p, q, r] \<Longrightarrow> parse_entry quote pair = Inr k \<longleftrightarrow>
     strings_TrimSpace p \<noteq> '''' \<and> strings_TrimSpace q \<noteq> '''' \<and> strings_TrimSpace r \<noteq> '''' \<and>
     (\<exists>roles. parseRoles quote r = Inr roles \<and>
        k = \<lparr> ak_TenantID = strings_TrimSpace p, ak_Secret = strings_TrimSpace q, ak_Roles = roles \<rparr>)"
  by (auto simp: parse_entry_def Let_def roleSet_def split: sum.splits)

lemma parse_entry_ok:
  assumes "parse_entry quote pair = Inr k" and "CHR '','' \<notin> set pair"
  shows "api_key_ok k"
proof -
  let ?s = "strings_TrimSpace pair"
  have comma: "CHR '','' \<notin> set ?s"
    using assms(2) set_strings_TrimSpace [of pair] by blast
  have text_ok: "key_text_ok (strings_TrimSpace p)"
    if "CHR '','' \<notin> set p" "CHR '':'' \<notin> set p" "strings_TrimSpace p \<noteq> ''''" for p
    using that set_strings_TrimSpace [of p] by (auto simp: key_text_ok_def)
  show ?thesis
  proof (cases rule: SplitN_3_cases [of "CHR '':''" ?s])
    case 1
    with assms(1) show ?thesis by (simp add: parse_entry_parts(1))
  next
    case (2 p q)
    with assms(1) comma text_ok [of p] text_ok [of q] show ?thesis
      by (simp add: parse_entry_parts(2) api_key_ok_def api_role_ok_def)
  next
    case (3 p q r)
    with assms(1) obtain roles where parsed: "parseRoles quote r = Inr roles"
      "k = \<lparr> ak_TenantID = strings_TrimSpace p, ak_Secret = strings_TrimSpace q, ak_Roles = roles \<rparr>"
      "strings_TrimSpace p \<noteq> ''''" "strings_TrimSpace q \<noteq> ''''"
      by (simp only: parse_entry_parts(3)) blast
    with 3 comma have "key_text_ok (strings_TrimSpace p)" "key_text_ok (strings_TrimSpace q)"
      by (simp_all add: text_ok)
    with parsed parseRoles_ok [of quote r roles] show ?thesis by (simp add: api_key_ok_def)
  qed
qed

lemma parse_entries_ok:
  assumes "parse_entries quote pairs keys = Inr keys'" and "\<forall>p \<in> set pairs. CHR '','' \<notin> set p"
    and "api_keys_ok keys"
  shows "api_keys_ok keys' \<and> length keys' = length keys + length pairs"
  using assms
proof (induction quote pairs keys rule: parse_entries.induct)
  case (1 quote keys)
  then show ?case by simp
next
  case (2 quote pair rest keys)
  then obtain k where k: "parse_entry quote pair = Inr k" "map_of keys (ak_Secret k) = None"
      "parse_entries quote rest (keys @ [(ak_Secret k, k)]) = Inr keys'"
    by (auto split: sum.splits if_splits)
  have "ak_Secret k \<notin> fst ` set keys"
    using k(2) by (simp add: map_of_eq_None_iff)
  then have "api_keys_ok (keys @ [(ak_Secret k, k)])"
    using "2.prems" parse_entry_ok [OF k(1)] by (auto simp: api_keys_ok_def)
  with 2 k show ?case by auto
qed

lemma parseAPIKeys_ok:
  assumes "parseAPIKeys quote raw = Inr keys"
  shows "api_keys_ok keys"
  using assms parse_entries_ok [of quote "strings_Split (CHR '','') (strings_TrimSpace raw)" "[]" keys]
    strings_Split_no_sep [of _ "CHR '',''" "strings_TrimSpace raw"]
  by (auto simp: parseAPIKeys_def Let_def api_keys_ok_def split: if_splits)

text \<open>
  API keys.  A list of API keys that is accepted has pairwise different secrets, and every
  key is filed under its secret; tenants and secrets are not blank, have no white space at their
  ends and contain neither a colon nor a comma, and every key has at least one role, all of them
  known.  In particular no accepted tenant can forge the store key of another one.
\<close>

theorem accepted_api_keys:
  assumes "parseAPIKeys quote raw = Inr keys" and "map_of keys secret = Some k"
  shows "distinct (map fst keys) \<and> ak_Secret k = secret \<and>
         key_text_ok (ak_TenantID k) \<and> key_text_ok secret \<and>
         ak_Roles k \<noteq> {} \<and> ak_Roles k \<subseteq> {RoleTenant, RoleWorker, RoleRisk, RoleProvider} \<and>
         (\<forall>role. APIKey_HasRole k role \<longleftrightarrow> role \<in> ak_Roles k)"
proof -
  have "distinct (map fst keys)" "ak_Secret k = secret" "api_key_ok k"
    using parseAPIKeys_ok [OF assms(1)] map_of_SomeD [OF assms(2)] by (auto simp: api_keys_ok_def)
  then show ?thesis
    by (auto simp: api_key_ok_def api_role_ok_def APIKey_HasRole_def)
qed

definition demo_key_text :: string where
  "demo_key_text = '' acme:s3cret , acme:w0rk:worker|risk''"

theorem accepted_api_keys_witness:
  "\<exists>keys k. parseAPIKeys id demo_key_text = Inr keys \<and> map_of keys ''w0rk'' = Some k \<and>
     distinct (map fst keys) \<and> ak_TenantID k = ''acme'' \<and> ak_Roles k = {RoleWorker, RoleRisk} \<and>
     key_text_ok (ak_TenantID k) \<and> \<not> APIKey_HasRole k RoleTenant"
proof -
  let ?k = "\<lparr> ak_TenantID = ''acme'', ak_Secret = ''w0rk'', ak_Roles = {RoleWorker, RoleRisk} \<rparr>"
  let ?keys = "[(''s3cret'', \<lparr> ak_TenantID = ''acme'', ak_Secret = ''s3cret'', ak_Roles = {RoleTenant} \<rparr>), (''w0rk'', ?k)]"
  have parsed: "parseAPIKeys id demo_key_text = Inr ?keys" by code_simp
  have found: "map_of ?keys ''w0rk'' = Some ?k" by simp
  from accepted_api_keys [OF parsed found] parsed found show ?thesis
    by (auto simp: RoleTenant_def RoleWorker_def RoleRisk_def)
qed

section \<open>Printing keys\<close>

text \<open>The text of a list of tenants, secrets and role lists, and the keys it stands for.\<close>

definition print_entry :: "string \<times> string \<times> APIKeyRole list \<Rightarrow> string" where
  "print_entry e = (case e of (tenant, secret, roles) \<Rightarrow> tenant @ '':'' @ secret @ '':'' @ strings_Join roles ''|'')"

definition print_keys :: "(string \<times> string \<times> APIKeyRole list) list \<Rightarrow> string" where
  "print_keys es = strings_Join (map print_entry es) '',''"

definition keys_of :: "(string \<times> string \<times> APIKeyRole list) list \<Rightarrow> api_keys" where
  "keys_of es = map (\<lambda>(tenant, secret, roles).
     (secret, \<lparr> ak_TenantID = tenant, ak_Secret = secret, ak_Roles = set roles \<rparr>)) es"

definition visible :: "string \<Rightarrow> bool" where
  "visible s \<longleftrightarrow> set s \<inter> set (concat space_encodings) = {}"

definition printable_entry :: "string \<times> string \<times> APIKeyRole list \<Rightarrow> bool" where
  "printable_entry e \<longleftrightarrow> (case e of (tenant, secret, roles) \<Rightarrow>
     (\<forall>s \<in> {tenant, secret}. s \<noteq> '''' \<and> visible s \<and> CHR '':'' \<notin> set s \<and> CHR '','' \<notin> set s) \<and>
     roles \<noteq> [] \<and> (\<forall>r \<in> set roles. api_role_ok r))"

lemma role_text: "api_role_ok r \<Longrightarrow> r \<noteq> '''' \<and> visible r \<and> CHR ''|'' \<notin> set r \<and> CHR '','' \<notin> set r"
  by (auto simp: api_role_ok_def RoleTenant_def RoleWorker_def RoleRisk_def RoleProvider_def visible_def
      space_encodings_def)

lemma visible_append [simp]: "visible (a @ b) \<longleftrightarrow> visible a \<and> visible b"
  by (auto simp: visible_def)

lemma visible_colon: "visible (CHR '':'' # s) \<longleftrightarrow> visible s"
  by (auto simp: visible_def space_encodings_def)

lemma visible_seps [simp]: "visible '':''" "visible '',''" "visible ''|''"
  by (simp_all add: visible_def space_encodings_def)

lemma visible_Join: "\<forall>p \<in> set ps. visible p \<Longrightarrow> visible sep \<Longrightarrow> visible (strings_Join ps sep)"
  by (induction ps sep rule: strings_Join.induct) (auto simp: visible_def)

lemma Join_set: "c \<in> set (strings_Join ps sep) \<Longrightarrow> c \<in> set sep \<or> (\<exists>p \<in> set ps. c \<in> set p)"
  by (induction ps sep rule: strings_Join.induct) auto

lemma trim_visible: "visible s \<Longrightarrow> strings_TrimSpace s = s"
  by (simp add: visible_def strings_TrimSpace_visible)

lemma parse_role_list_print:
  "\<forall>r \<in> set rs. api_role_ok r \<Longrightarrow> parse_role_list quote rs roles = Inr (roles \<union> set rs)"
  by (induction quote rs roles rule: parse_role_list.induct)
     (auto simp: api_role_ok_def Let_def trim_visible role_text [unfolded api_role_ok_def])

lemma parseRoles_print:
  assumes "rs \<noteq> []" and "\<forall>r \<in> set rs. api_role_ok r"
  shows "parseRoles quote (strings_Join rs ''|'') = Inr (set rs)"
  using assms role_text by (simp add: parseRoles_def strings_Split_Join parse_role_list_print)

lemma Join_nonempty: "ps \<noteq> [] \<Longrightarrow> \<forall>p \<in> set ps. p \<noteq> '''' \<Longrightarrow> strings_Join ps sep \<noteq> ''''"
  by (induction ps sep rule: strings_Join.induct) auto

lemma print_entry_text:
  assumes "printable_entry e"
  shows "visible (print_entry e) \<and> CHR '','' \<notin> set (print_entry e) \<and> print_entry e \<noteq> ''''"
proof -
  obtain tenant secret roles where e: "e = (tenant, secret, roles)" by (cases e)
  have "visible (strings_Join roles ''|'')" "CHR '','' \<notin> set (strings_Join roles ''|'')"
    using assms role_text e Join_set [of "CHR '',''" roles "''|''"]
    by (auto simp: printable_entry_def intro!: visible_Join)
  with assms e show ?thesis
    by (simp add: print_entry_def printable_entry_def visible_colon)
qed

lemma parse_print_entry:
  assumes "printable_entry (tenant, secret, roles)"
  shows "parse_entry quote (print_entry (tenant, secret, roles)) =
           Inr \<lparr> ak_TenantID = tenant, ak_Secret = secret, ak_Roles = set roles \<rparr>"
proof -
  let ?rs = "strings_Join roles ''|''"
  have trim: "strings_TrimSpace (print_entry (tenant, secret, roles)) = print_entry (tenant, secret, roles)"
    using print_entry_text [OF assms] by (simp add: trim_visible)
  have rs: "visible ?rs" "?rs \<noteq> ''''" "parseRoles quote ?rs = Inr (set roles)"
    using assms role_text by (auto simp: printable_entry_def visible_Join Join_nonempty parseRoles_print)
  have "strings_SplitN 3 (CHR '':'') (print_entry (tenant, secret, roles)) = [tenant, secret, ?rs]"
    using assms by (simp add: printable_entry_def print_entry_def numeral_3_eq_3 strings_SplitN_append
        del: strings_SplitN.simps(3)) 
  with assms trim rs show ?thesis
    by (simp add: parse_entry_parts(3) printable_entry_def trim_visible)
qed

lemma parse_print_entries:
  assumes "\<forall>e \<in> set es. printable_entry e" and "distinct (map fst (keys @ keys_of es))"
  shows "parse_entries quote (map print_entry es) keys = Inr (keys @ keys_of es)"
  using assms
proof (induction es arbitrary: keys)
  case Nil
  then show ?case by (simp add: keys_of_def)
next
  case (Cons e es)
  obtain tenant secret roles where e: "e = (tenant, secret, roles)" by (cases e)
  let ?k = "\<lparr> ak_TenantID = tenant, ak_Secret = secret, ak_Roles = set roles \<rparr>"
  have "map_of keys secret = None"
    using Cons.prems e by (auto simp: keys_of_def map_of_eq_None_iff)
  moreover have "distinct (map fst ((keys @ [(secret, ?k)]) @ keys_of es))"
    using Cons.prems e by (simp add: keys_of_def)
  ultimately show ?case
    using Cons.IH [of "keys @ [(secret, ?k)]"] Cons.prems e parse_print_entry [of tenant secret roles quote]
    by (simp add: keys_of_def)
qed

text \<open>
  C26 (round trip of the API keys).  Printing a list of keys with pairwise different secrets in the
  documented syntax \<open>tenant_id:secret:role|role\<close> and parsing the text gives back exactly these keys.
\<close>

theorem api_keys_round_trip:
  assumes "\<forall>e \<in> set es. printable_entry e" and "distinct (map (fst \<circ> snd) es)"
  shows "parseAPIKeys quote (print_keys es) = Inr (keys_of es)"
proof (cases "es = []")
  case True
  then show ?thesis by (simp add: parseAPIKeys_def print_keys_def keys_of_def)
next
  case False
  have "visible (print_keys es)" "print_keys es \<noteq> ''''"
    using assms(1) False print_entry_text visible_Join [of "map print_entry es"] Join_nonempty [of "map print_entry es"]
    by (simp_all add: print_keys_def)
  moreover have "strings_Split (CHR '','') (print_keys es) = map print_entry es"
    using assms(1) False print_entry_text strings_Split_Join [of "map print_entry es" "CHR '',''"]
    by (simp add: print_keys_def)
  moreover have "map fst (keys_of es) = map (fst \<circ> snd) es"
    by (auto simp: keys_of_def)
  ultimately show ?thesis
    using assms parse_print_entries [of es "[]" quote] by (simp add: parseAPIKeys_def trim_visible)
qed

theorem api_keys_round_trip_witness:
  "parseAPIKeys id (print_keys [(''acme'', ''s1'', [RoleTenant]), (''acme'', ''s2'', [RoleWorker, RoleRisk])]) =
     Inr [(''s1'', \<lparr> ak_TenantID = ''acme'', ak_Secret = ''s1'', ak_Roles = {RoleTenant} \<rparr>),
          (''s2'', \<lparr> ak_TenantID = ''acme'', ak_Secret = ''s2'', ak_Roles = {RoleWorker, RoleRisk} \<rparr>)]"
proof -
  have "\<forall>e \<in> set [(''acme'', ''s1'', [RoleTenant]), (''acme'', ''s2'', [RoleWorker, RoleRisk])]. printable_entry e"
    by code_simp
  from api_keys_round_trip [OF this, of id] show ?thesis by (simp add: keys_of_def)
qed

section \<open>Accepted configurations\<close>

lemma bind_result_Inr [simp]: "bind_result r f = Inr b \<longleftrightarrow> (\<exists>a. r = Inr a \<and> f a = Inr b)"
  by (simp add: bind_result_def split: sum.splits)

lemma getenvIntAtLeast_bounds:
  assumes "getenvIntAtLeast env key fallback least = Inr n" and "least \<le> fallback" and "fallback \<le> int64_max"
  shows "least \<le> n \<and> n \<le> int64_max"
  using assms
  by (auto simp: getenvIntAtLeast_def strconv_Atoi_def Let_def split: if_splits option.splits prod.splits)

lemma getenvDurationAtLeast_bound:
  assumes "getenvDurationAtLeast duration_of show_duration env key fallback least = Inr d" and "least \<le> fallback"
  shows "least \<le> d"
  using assms by (auto simp: getenvDurationAtLeast_def Let_def split: if_splits option.splits)

text \<open>What \<open>Load\<close> promises about a configuration, whatever the environment holds.\<close>

definition config_ok :: "Config \<Rightarrow> bool" where
  "config_ok cfg \<longleftrightarrow>
     cfg_APIKeys cfg \<noteq> [] \<and> api_keys_ok (cfg_APIKeys cfg) \<and>
     cfg_StoreDriver cfg \<in> {''memory'', ''postgres''} \<and>
     (cfg_StoreDriver cfg = ''postgres'' \<longrightarrow> cfg_DatabaseURL cfg \<noteq> '''') \<and>
     cfg_TracingExporter cfg \<in> {''none'', ''stdout''} \<and>
     cfg_ProviderCallbackSecret cfg \<noteq> '''' \<and>
     (\<forall>n \<in> {cfg_PostgresMaxConns cfg, cfg_TenantBucketSize cfg, cfg_DictBucketSize cfg, cfg_WorkerBatchSize cfg}.
        1 \<le> n \<and> n \<le> int64_max) \<and>
     0 \<le> cfg_PostgresMinConns cfg \<and>
     (\<forall>d \<in> {cfg_PostgresMaxConnLifetime cfg, cfg_DictTimeout cfg, cfg_WorkerInterval cfg,
             cfg_ProviderSignatureTolerance cfg, cfg_ShutdownTimeout cfg}. 0 < d)"

definition production_ok :: "(string \<Rightarrow> string) \<Rightarrow> (string \<Rightarrow> string) \<Rightarrow> Config \<Rightarrow> bool" where
  "production_ok quote env cfg \<longleftrightarrow>
     parseAPIKeys quote (env ''PIXRAIL_API_KEYS'') = Inr (cfg_APIKeys cfg) \<and>
     cfg_ProviderCallbackSecret cfg = strings_TrimSpace (env ''PIXRAIL_PROVIDER_CALLBACK_SECRET'') \<and>
     cfg_StoreDriver cfg = ''postgres'' \<and>
     cfg_DatabaseURL cfg = strings_TrimSpace (env ''PIXRAIL_DATABASE_URL'')"

lemma dev_keys_ok: "api_keys_ok dev_keys"
  by code_simp

lemma dev_keys_ne: "dev_keys \<noteq> []"
  by (simp add: dev_keys_def)

lemma check_config_Inr:
  assumes "check_config cfg0 keys = Inr cfg"
  shows "cfg = cfg0\<lparr> cfg_APIKeys := if keys = [] then dev_keys else keys \<rparr>"
    and "cfg_RequireConfiguredSecrets cfg0 \<Longrightarrow> keys \<noteq> [] \<and> cfg_ProviderCallbackSecret cfg0 \<noteq> ''''"
    and "cfg_StoreDriver cfg0 \<in> {''memory'', ''postgres''}"
    and "cfg_StoreDriver cfg0 = ''postgres'' \<Longrightarrow> cfg_DatabaseURL cfg0 \<noteq> ''''"
    and "cfg_Environment cfg0 = ''production'' \<Longrightarrow> cfg_StoreDriver cfg0 = ''postgres''"
    and "cfg_TracingExporter cfg0 \<in> {''none'', ''stdout''}"
  using assms by (simp_all add: check_config_def Let_def split: if_splits)

lemma getenv_given: "getenv env key '''' = strings_TrimSpace (env key)"
  by (simp add: getenv_def Let_def)

text \<open>The configuration that \<open>Load\<close> checks, with the numbers and durations it read.\<close>

lemma Load_cases:
  assumes "Load quote duration_of show_duration env = Inr cfg"
  obtains cfg0 keys where "check_config cfg0 keys = Inr cfg"
    and "parseAPIKeys quote (env ''PIXRAIL_API_KEYS'') = Inr keys"
    and "cfg_Environment cfg0 = getenv env ''PIXRAIL_ENV'' ''development''"
    and "cfg_RequireConfiguredSecrets cfg0 = (cfg_Environment cfg0 = ''production'')"
    and "cfg_DatabaseURL cfg0 = getenv env ''PIXRAIL_DATABASE_URL'' ''''"
    and "cfg_ProviderCallbackSecret cfg0 = getenv env ''PIXRAIL_PROVIDER_CALLBACK_SECRET''
           (defaultProviderCallbackSecret (cfg_Environment cfg0))"
    and "\<forall>n \<in> {cfg_PostgresMaxConns cfg0, cfg_TenantBucketSize cfg0, cfg_DictBucketSize cfg0, cfg_WorkerBatchSize cfg0}.
           1 \<le> n \<and> n \<le> int64_max"
    and "0 \<le> cfg_PostgresMinConns cfg0"
    and "\<forall>d \<in> {cfg_PostgresMaxConnLifetime cfg0, cfg_DictTimeout cfg0, cfg_WorkerInterval cfg0,
             cfg_ProviderSignatureTolerance cfg0, cfg_ShutdownTimeout cfg0}. 0 < d"
proof -
  let ?int = "getenvIntAtLeast env"
  let ?dur = "getenvDurationAtLeast duration_of show_duration env"
  have int_bound: "least \<le> n \<and> n \<le> int64_max"
    if "?int key fallback least = Inr n" "least \<le> fallback" "fallback \<le> int64_max" for key fallback least n
    using getenvIntAtLeast_bounds [OF that] .
  have dur_bound: "0 < d" if "?dur key fallback nanosecond = Inr d" "0 < fallback" for key fallback d
    using getenvDurationAtLeast_bound [OF that(1)] that(2) by (simp add: nanosecond_def)
  note units = int64_max_def duration_units
  from assms obtain a b c d e f g h i j keys where parts:
    "?int ''PIXRAIL_POSTGRES_MIN_CONNS'' 0 0 = Inr a" "?int ''PIXRAIL_POSTGRES_MAX_CONNS'' 10 1 = Inr b"
    "?dur ''PIXRAIL_POSTGRES_MAX_CONN_LIFETIME'' (30 * minute) nanosecond = Inr c"
    "?int ''PIXRAIL_TENANT_BUCKET_SIZE'' 120 1 = Inr d" "?int ''PIXRAIL_DICT_BUCKET_SIZE'' 60 1 = Inr e"
    "?dur ''PIXRAIL_DICT_TIMEOUT'' (300 * millisecond) nanosecond = Inr f"
    "?int ''PIXRAIL_WORKER_BATCH_SIZE'' 100 1 = Inr g" "?dur ''PIXRAIL_WORKER_INTERVAL'' second nanosecond = Inr h"
    "?dur ''PIXRAIL_PROVIDER_SIGNATURE_TOLERANCE'' (5 * minute) nanosecond = Inr i"
    "?dur ''PIXRAIL_SHUTDOWN_TIMEOUT'' (5 * second) nanosecond = Inr j"
    "parseAPIKeys quote (env ''PIXRAIL_API_KEYS'') = Inr keys"
    and chk: "check_config
             \<lparr> cfg_Addr = defaultHTTPAddr env, cfg_Environment = getenv env ''PIXRAIL_ENV'' ''development'', cfg_APIKeys = [],
               cfg_StoreDriver = getenv env ''PIXRAIL_STORE_DRIVER'' ''memory'',
               cfg_DatabaseURL = getenv env ''PIXRAIL_DATABASE_URL'' '''',
               cfg_PostgresMinConns = a, cfg_PostgresMaxConns = b,
               cfg_PostgresMaxConnLifetime = c, cfg_TenantBucketSize = d,
               cfg_DictBucketSize = e, cfg_DictTimeout = f, cfg_WorkerBatchSize = g,
               cfg_WorkerInterval = h,
               cfg_ProviderCallbackSecret = getenv env ''PIXRAIL_PROVIDER_CALLBACK_SECRET''
                 (defaultProviderCallbackSecret (getenv env ''PIXRAIL_ENV'' ''development'')),
               cfg_ProviderSignatureTolerance = i,
               cfg_PprofAddr = getenv env ''PIXRAIL_PPROF_ADDR'' '''',
               cfg_ShutdownTimeout = j,
               cfg_RequireConfiguredSecrets = (getenv env ''PIXRAIL_ENV'' ''development'' = ''production''),
               cfg_TracingExporter = getenv env ''PIXRAIL_TRACING_EXPORTER''
                 (defaultTracingExporter (getenv env ''PIXRAIL_ENV'' ''development'')) \<rparr> keys = Inr cfg"
    (is "check_config ?cfg0 _ = _")
    unfolding Load_def Let_def bind_result_Inr by blast
  have ints: "1 \<le> b \<and> b \<le> int64_max" "1 \<le> d \<and> d \<le> int64_max" "1 \<le> e \<and> e \<le> int64_max"
      "1 \<le> g \<and> g \<le> int64_max" "0 \<le> a \<and> a \<le> int64_max"
    by (rule int_bound [OF parts(2)] int_bound [OF parts(4)] int_bound [OF parts(5)] int_bound [OF parts(7)]
        int_bound [OF parts(1)]; simp add: units)+
  have durs: "0 < c" "0 < f" "0 < h" "0 < i" "0 < j"
    by (rule dur_bound [OF parts(3)] dur_bound [OF parts(6)] dur_bound [OF parts(8)] dur_bound [OF parts(9)]
        dur_bound [OF parts(10)]; simp add: units)+
  show ?thesis
    by (rule that [OF chk parts(11)]) (use ints durs in simp_all)
qed

lemma dev_secret_given: "getenv env key (defaultProviderCallbackSecret e) = '''' \<Longrightarrow> e = ''production''"
  by (auto simp: getenv_def defaultProviderCallbackSecret_def Let_def split: if_splits)

lemma loaded_config_ok:
  assumes "Load quote duration_of show_duration env = Inr cfg"
  shows "config_ok cfg"
  using assms
proof (cases rule: Load_cases)
  case (1 cfg0 keys)
  note chk = check_config_Inr [OF 1(1)]
  have "cfg_ProviderCallbackSecret cfg0 \<noteq> ''''"
    using 1(4,6) chk(2) dev_secret_given by metis
  with 1 chk parseAPIKeys_ok [OF 1(2)] dev_keys_ok dev_keys_ne show ?thesis
    by (simp add: config_ok_def)
qed

text \<open>
  C25 (accepted configuration).  Whatever the environment holds, a configuration that \<open>Load\<close> returns
  has at least one API key and only well-formed ones, a known store driver, a database for the
  postgres driver, a known tracing exporter, a provider secret, bucket and batch sizes of at least
  one and positive durations.
\<close>

theorem load_config_ok:
  assumes "Load quote duration_of show_duration env = Inr cfg"
  shows "config_ok cfg"
  using assms by (rule loaded_config_ok)

text \<open>
  C24 (production guards).  In production \<open>Load\<close> accepts only configured secrets: the API keys are
  those of \<open>PIXRAIL_API_KEYS\<close> and there is at least one, never the development keys, the provider
  secret is the configured one and not blank, and the store is postgres with a database.
\<close>

theorem production_is_guarded:
  assumes "Load quote duration_of show_duration env = Inr cfg" and "cfg_Environment cfg = ''production''"
  shows "production_ok quote env cfg \<and> cfg_APIKeys cfg \<noteq> [] \<and> cfg_ProviderCallbackSecret cfg \<noteq> '''' \<and>
         cfg_DatabaseURL cfg \<noteq> ''''"
  using assms(1)
proof (cases rule: Load_cases)
  case (1 cfg0 keys)
  note chk = check_config_Inr [OF 1(1)]
  from assms(2) chk(1) have "cfg_Environment cfg0 = ''production''" by simp
  with 1 chk show ?thesis
    by (simp add: production_ok_def getenv_given defaultProviderCallbackSecret_def)
qed

text \<open>
  Defaults.  With no variable set \<open>Load\<close> succeeds with the development configuration: the
  memory store, the four development keys and the default sizes and durations.
\<close>

theorem load_defaults:
  "Load quote duration_of show_duration (\<lambda>_. '''') =
     Inr \<lparr> cfg_Addr = '':8080'', cfg_Environment = ''development'', cfg_APIKeys = dev_keys,
           cfg_StoreDriver = ''memory'', cfg_DatabaseURL = '''', cfg_PostgresMinConns = 0,
           cfg_PostgresMaxConns = 10, cfg_PostgresMaxConnLifetime = 30 * minute, cfg_TenantBucketSize = 120,
           cfg_DictBucketSize = 60, cfg_DictTimeout = 300 * millisecond, cfg_WorkerBatchSize = 100,
           cfg_WorkerInterval = second, cfg_ProviderCallbackSecret = ''dev-provider-callback-secret'',
           cfg_ProviderSignatureTolerance = 5 * minute, cfg_PprofAddr = '''',
           cfg_ShutdownTimeout = 5 * second, cfg_RequireConfiguredSecrets = False,
           cfg_TracingExporter = ''stdout'' \<rparr>"
  by (simp add: Load_def bind_result_def getenvIntAtLeast_def getenvDurationAtLeast_def getenv_def
      parseAPIKeys_def check_config_def defaultHTTPAddr_def defaultProviderCallbackSecret_def
      defaultTracingExporter_def)

definition demo_production :: "string \<Rightarrow> string" where
  "demo_production key =
     (if key = ''PIXRAIL_ENV'' then ''production''
      else if key = ''PIXRAIL_API_KEYS'' then ''acme:s3cret''
      else if key = ''PIXRAIL_PROVIDER_CALLBACK_SECRET'' then ''cb-secret''
      else if key = ''PIXRAIL_STORE_DRIVER'' then ''postgres''
      else if key = ''PIXRAIL_DATABASE_URL'' then ''postgres://db''
      else '''')"

definition demo_config :: Config where
  "demo_config = (case Load id (\<lambda>_. None) show_int demo_production of Inr cfg \<Rightarrow> cfg)"

lemma demo_config_loads:
  "Load id (\<lambda>_. None) show_int demo_production = Inr demo_config \<and>
   cfg_Environment demo_config = ''production'' \<and> map fst (cfg_APIKeys demo_config) = [''s3cret'']"
  by code_simp

theorem load_config_ok_witness:
  "Load id (\<lambda>_. None) show_int demo_production = Inr demo_config \<and> config_ok demo_config"
  using demo_config_loads load_config_ok by blast

theorem production_is_guarded_witness:
  "cfg_Environment demo_config = ''production'' \<and> production_ok id demo_production demo_config \<and>
   cfg_ProviderCallbackSecret demo_config \<noteq> ''''"
  using demo_config_loads production_is_guarded by blast

end
