(* ===== verification/Events.thy ===== *)
theory Events
  imports Rail "HOL-Library.Char_ord" "HOL-Library.List_Lexorder"
begin

text \<open>
  The event envelope and the outbox record, \<open>internal/events/events.go\<close>, with the part of
  \<open>encoding/json\<close> that \<open>events.New\<close> relies on: \<open>json.Marshal\<close> of a \<open>map[string]any\<close> whose values
  are integers, strings and string slices, which are the payloads the switch builds.  A nil
  slice and an empty one are the same list here.
\<close>

section \<open>json.Marshal of a payload\<close>

datatype json_value = JInt int | JString string | JStrings "string list" | JUnsupported string

type_synonym payload = "(string \<times> json_value) list"

text \<open>The number of bytes of the multi-byte UTF-8 rune at the front, 0 when it is invalid.\<close>

fun in_range :: "nat \<Rightarrow> nat \<Rightarrow> char \<Rightarrow> bool" where
  "in_range lo hi c = (lo \<le> of_char c \<and> of_char c \<le> hi)"

definition cont :: "char \<Rightarrow> bool" where "cont = in_range 0x80 0xBF"

fun rune_size :: "string \<Rightarrow> nat" where
  "rune_size (a # b # c # d # s) =
     (if in_range 0xC2 0xDF a \<and> cont b then 2
      else if (in_range 0xE0 0xE0 a \<and> in_range 0xA0 0xBF b \<or> in_range 0xE1 0xEC a \<and> cont b
               \<or> in_range 0xED 0xED a \<and> in_range 0x80 0x9F b \<or> in_range 0xEE 0xEF a \<and> cont b) \<and> cont c then 3
      else if (in_range 0xF0 0xF0 a \<and> in_range 0x90 0xBF b \<or> in_range 0xF1 0xF3 a \<and> cont b
               \<or> in_range 0xF4 0xF4 a \<and> in_range 0x80 0x8F b) \<and> cont c \<and> cont d then 4 else 0)"
| "rune_size [a, b, c] =
     (if in_range 0xC2 0xDF a \<and> cont b then 2
      else if (in_range 0xE0 0xE0 a \<and> in_range 0xA0 0xBF b \<or> in_range 0xE1 0xEC a \<and> cont b
               \<or> in_range 0xED 0xED a \<and> in_range 0x80 0x9F b \<or> in_range 0xEE 0xEF a \<and> cont b) \<and> cont c then 3
      else 0)"
| "rune_size [a, b] = (if in_range 0xC2 0xDF a \<and> cont b then 2 else 0)"
| "rune_size _ = 0"

text \<open>An ASCII byte inside a JSON string, with the HTML escapes that \<open>json.Marshal\<close> applies.\<close>

definition json_ascii :: "char \<Rightarrow> string" where
  "json_ascii c =
     (if c = CHR 0x5C \<or> c = CHR 0x22 then [CHR 0x5C, c]
      else if c = CHR 0x08 then [CHR 0x5C, CHR ''b'']
      else if c = CHR 0x0C then [CHR 0x5C, CHR ''f'']
      else if c = CHR 0x0A then [CHR 0x5C, CHR ''n'']
      else if c = CHR 0x0D then [CHR 0x5C, CHR ''r'']
      else if c = CHR 0x09 then [CHR 0x5C, CHR ''t'']
      else if of_char c < (0x20::nat) \<or> c \<in> {CHR ''<'', CHR ''>'', CHR ''&''}
      then CHR 0x5C # ''u00'' @ hex_byte (of_nat (of_char c))
      else [c])"

function json_escape :: "string \<Rightarrow> string" where
  "json_escape [] = []"
| "json_escape (c # s) =
     (if of_char c < (0x80::nat) then json_ascii c @ json_escape s
      else if rune_size (c # s) = 0 then CHR 0x5C # ''ufffd'' @ json_escape s
      else if take 3 (c # s) = [CHR 0xE2, CHR 0x80, CHR 0xA8] then
        CHR 0x5C # ''u2028'' @ json_escape (drop 3 (c # s))
      else if take 3 (c # s) = [CHR 0xE2, CHR 0x80, CHR 0xA9] then
        CHR 0x5C # ''u2029'' @ json_escape (drop 3 (c # s))
      else take (rune_size (c # s)) (c # s) @ json_escape (drop (rune_size (c # s)) (c # s)))"
  by pat_completeness auto
termination
  by (relation "measure length") auto

definition json_string :: "string \<Rightarrow> string" where
  "json_string s = [CHR 0x22] @ json_escape s @ [CHR 0x22]"

fun json_value_Marshal :: "json_value \<Rightarrow> string result" where
  "json_value_Marshal (JInt i) = Inr (show_int i)"
| "json_value_Marshal (JString s) = Inr (json_string s)"
| "json_value_Marshal (JStrings ss) = Inr (''['' @ strings_Join (map json_string ss) '','' @ '']'')"
| "json_value_Marshal (JUnsupported ty) = Inl (Opaque (''json: unsupported type: '' @ ty))"

fun json_fields :: "payload \<Rightarrow> string list result" where
  "json_fields [] = Inr []"
| "json_fields ((k, v) # kvs) =
     (case json_value_Marshal v of
        Inl e \<Rightarrow> Inl e
      | Inr raw \<Rightarrow> (case json_fields kvs of
          Inl e \<Rightarrow> Inl e
        | Inr fs \<Rightarrow> Inr ((json_string k @ '':'' @ raw) # fs)))"

text \<open>A map is encoded in the order of its keys.\<close>

definition json_Marshal :: "payload \<Rightarrow> string result" where
  "json_Marshal m =
     (case json_fields (sort_key fst m) of
        Inl e \<Rightarrow> Inl e
      | Inr fs \<Rightarrow> Inr (''{'' @ strings_Join fs '','' @ ''}''))"

section \<open>Events\<close>

record Event =
  ev_EventID :: string
  ev_EventType :: string
  ev_SchemaVersion :: string
  ev_OccurredAt :: gotime
  ev_Producer :: string
  ev_TenantID :: string
  ev_AccountID :: string
  ev_TransferID :: string
  ev_CorrelationID :: string
  ev_Payload :: string

definition Producer :: string where
  "Producer = ''pixrail.payment-switch''"

definition events_New ::
    "string \<Rightarrow> string \<Rightarrow> string \<Rightarrow> string \<Rightarrow> string \<Rightarrow> string \<Rightarrow> gotime \<Rightarrow> payload \<Rightarrow> Event result" where
  "events_New eventID eventType tenantID accountID transferID correlationID occurredAt payload =
     (case json_Marshal payload of
        Inl err \<Rightarrow> Inl (Prefixed ''marshal event payload'' err)
      | Inr raw \<Rightarrow> Inr
          \<lparr> ev_EventID = eventID, ev_EventType = eventType, ev_SchemaVersion = ''1'',
            ev_OccurredAt = occurredAt, ev_Producer = Producer, ev_TenantID = tenantID,
            ev_AccountID = accountID, ev_TransferID = transferID,
            ev_CorrelationID = correlationID, ev_Payload = raw \<rparr>)"

record OutboxRecord =
  ob_Sequence :: int
  ob_Event :: Event
  ob_Published :: bool
  ob_Attempts :: int
  ob_LastError :: string
  ob_AvailableAt :: gotime
  ob_ClaimToken :: string
  ob_ClaimedUntil :: "gotime option"
  ob_DispatchedAt :: "gotime option"

section \<open>The payloads of the switch always encode\<close>

definition encodable :: "json_value \<Rightarrow> bool" where
  "encodable v = (case v of JUnsupported _ \<Rightarrow> False | _ \<Rightarrow> True)"

lemma encodable_simps [simp]:
  "encodable (JInt i)" "encodable (JString s)" "encodable (JStrings ss)" "\<not> encodable (JUnsupported t)"
  by (simp_all add: encodable_def)

lemma json_fields_encodable:
  "\<forall>(k, v) \<in> set m. encodable v \<Longrightarrow> \<exists>fs. json_fields m = Inr fs"
proof (induction m)
  case Nil
  then show ?case by simp
next
  case (Cons kv m)
  obtain k v where kv: "kv = (k, v)" by (cases kv)
  with Cons.prems have "encodable v" by simp
  then obtain raw where "json_value_Marshal v = Inr raw" by (cases v) auto
  moreover from Cons obtain fs where "json_fields m = Inr fs" by auto
  ultimately show ?case by (simp add: kv)
qed

lemma events_New_Inr:
  assumes "\<forall>(k, v) \<in> set m. encodable v"
  obtains e where "events_New i ty tn ac tr co at m = Inr e" "ev_EventID e = i" "ev_EventType e = ty"
    "ev_TenantID e = tn" "ev_AccountID e = ac" "ev_TransferID e = tr" "ev_CorrelationID e = co"
    "ev_OccurredAt e = at" "ev_Producer e = Producer" "ev_SchemaVersion e = ''1''"
proof -
  from assms have "\<forall>(k, v) \<in> set (sort_key fst m). encodable v" by simp
  then obtain fs where "json_fields (sort_key fst m) = Inr fs"
    using json_fields_encodable by blast
  then show thesis using that by (simp add: events_New_def json_Marshal_def)
qed

end
