(* ===== verification/Http.thy ===== *)
theory Http
  imports Config Events
begin

text \<open>
  The part of \<open>net/http\<close> that \<open>internal/api/server.go\<close> relies on: requests, responses, and the
  choice of a handler by \<open>http.ServeMux\<close> for the patterns of the server (a method and a path of
  literal segments and single wildcards, without hosts and without trailing slashes).
\<close>

section \<open>Requests and responses\<close>

text \<open>
  \<open>rq_EscapedPath\<close> is \<open>r.URL.EscapedPath()\<close> and \<open>rq_Path\<close> the decoded \<open>r.URL.Path\<close>;
  \<open>rq_Header\<close> is \<open>r.Header.Get\<close>, which gives the empty string for a missing header.  A body is the
  bytes that can be read from it and whether reading then fails.
\<close>

record http_request =
  rq_Method :: string
  rq_RequestURI :: string
  rq_EscapedPath :: string
  rq_Path :: string
  rq_Header :: "string \<Rightarrow> string"
  rq_Body :: "byte list"
  rq_BodyFails :: bool

text \<open>
  The value handed to \<open>json.Encoder\<close>; the text of an outbox record is that of its struct tags.
\<close>

datatype json =
    JsonNull
  | JsonBool bool
  | JsonInt int
  | JsonString string
  | JsonStrings "string list"
  | JsonTime gotime
  | JsonRecords "OutboxRecord list"
  | JsonObject "(string \<times> json) list"

datatype http_body = NoBody | Json json | Text string | MovedTo string

record http_response =
  rsp_Status :: int
  rsp_Header :: "string \<rightharpoonup> string"
  rsp_Body :: http_body

text \<open>A response writer before anything is written: the status is the implicit 200.\<close>

definition new_response :: http_response where
  "new_response = \<lparr> rsp_Status = 200, rsp_Header = Map.empty, rsp_Body = NoBody \<rparr>"

definition header_Set :: "string \<Rightarrow> string \<Rightarrow> http_response \<Rightarrow> http_response" where
  "header_Set name v w = w\<lparr> rsp_Header := (rsp_Header w)(name \<mapsto> v) \<rparr>"

definition http_Error :: "http_response \<Rightarrow> string \<Rightarrow> int \<Rightarrow> http_response" where
  "http_Error w message code =
     (header_Set ''X-Content-Type-Options'' ''nosniff''
       (header_Set ''Content-Type'' ''text/plain; charset=utf-8'' w))
     \<lparr> rsp_Status := code, rsp_Body := Text (message @ [CHR 0x0A]) \<rparr>"

text \<open>\<open>io.ReadAll(http.MaxBytesReader(w, r.Body, limit))\<close>: a longer body is an error.\<close>

definition read_limited :: "nat \<Rightarrow> http_request \<Rightarrow> byte list option" where
  "read_limited limit r = (if rq_BodyFails r \<or> length (rq_Body r) > limit then None else Some (rq_Body r))"

section \<open>Paths\<close>

definition hex_value :: "char \<Rightarrow> nat option" where
  "hex_value c =
     (let n = of_char c
      in if 48 \<le> n \<and> n \<le> 57 then Some (n - 48)
         else if 97 \<le> n \<and> n \<le> 102 then Some (n - 87)
         else if 65 \<le> n \<and> n \<le> 70 then Some (n - 55)
         else None)"

fun url_unescape :: "string \<Rightarrow> string option" where
  "url_unescape [] = Some []"
| "url_unescape (c # s) =
     (if c \<noteq> CHR ''%'' then map_option (Cons c) (url_unescape s)
      else (case s of
              a # b # rest \<Rightarrow>
                (case (hex_value a, hex_value b) of
                   (Some x, Some y) \<Rightarrow> map_option (Cons (char_of (16 * x + y))) (url_unescape rest)
                 | _ \<Rightarrow> None)
            | _ \<Rightarrow> None))"

text \<open>The mux keeps a segment that is not properly escaped as it is.\<close>

definition mux_unescape :: "string \<Rightarrow> string" where
  "mux_unescape s = (case url_unescape s of None \<Rightarrow> s | Some t \<Rightarrow> t)"

text \<open>\<open>path.Clean\<close> of a rooted path: the elements that stay, with the last one first in \<open>acc\<close>.\<close>

fun clean_segments :: "string list \<Rightarrow> string list \<Rightarrow> string list" where
  "clean_segments acc [] = rev acc"
| "clean_segments acc (s # ss) =
     (if s = '''' \<or> s = ''.'' then clean_segments acc ss
      else if s = ''..'' then clean_segments (tl acc) ss
      else clean_segments (s # acc) ss)"

definition path_Clean :: "string \<Rightarrow> string" where
  "path_Clean p = ''/'' @ strings_Join (clean_segments [] (strings_Split (CHR ''/'') (tl p))) ''/''"

definition cleanPath :: "string \<Rightarrow> string" where
  "cleanPath p =
     (if p = '''' then ''/''
      else (let p = (if hd p \<noteq> CHR ''/'' then CHR ''/'' # p else p);
                np = path_Clean p
            in if last p = CHR ''/'' \<and> np \<noteq> ''/'' then np @ ''/'' else np))"

text \<open>
  The segments that the routing tree sees: split at the slashes and unescaped one by one; a
  trailing slash is a segment of its own.
\<close>

fun mux_segments :: "string list \<Rightarrow> string list" where
  "mux_segments [] = []"
| "mux_segments [s] = [if s = '''' then ''/'' else mux_unescape s]"
| "mux_segments (s # ss) = mux_unescape s # mux_segments ss"

definition path_segments :: "string \<Rightarrow> string list" where
  "path_segments p = (if p = '''' then [] else mux_segments (strings_Split (CHR ''/'') (tl p)))"

section \<open>The mux\<close>

datatype segment = Lit string | Wild

fun match_segments :: "segment list \<Rightarrow> string list \<Rightarrow> string list option" where
  "match_segments [] [] = Some []"
| "match_segments (Lit l # ps) (s # ss) = (if l = s then match_segments ps ss else None)"
| "match_segments (Wild # ps) (s # ss) =
     (if s = ''/'' then None else map_option (Cons s) (match_segments ps ss))"
| "match_segments _ _ = None"

type_synonym 'h mux = "(string \<times> segment list \<times> 'h) list"

text \<open>
  The handler for a method, with the values of the wildcards.  A pattern for \<open>GET\<close> serves \<open>HEAD\<close>
  too.  Patterns that overlap need the order of precedence of the mux; those of the server do not
  overlap.
\<close>

fun mux_match :: "'h mux \<Rightarrow> string \<Rightarrow> string list \<Rightarrow> ('h \<times> string list) option" where
  "mux_match [] meth segs = None"
| "mux_match ((m, pat, h) # rs) meth segs =
     (case (if m = meth \<or> m = ''GET'' \<and> meth = ''HEAD'' then match_segments pat segs else None) of
        Some vs \<Rightarrow> Some (h, vs)
      | None \<Rightarrow> mux_match rs meth segs)"

definition matching_methods :: "'h mux \<Rightarrow> string list \<Rightarrow> string list" where
  "matching_methods rs segs =
     filter (\<lambda>meth. mux_match rs meth segs \<noteq> None) [''GET'', ''HEAD'', ''POST'']"

datatype 'h dispatch = Dispatch 'h "string list" | BadTarget | Moved string | NotAllowed "string list" | NoRoute

definition ServeMux_Handler :: "'h mux \<Rightarrow> http_request \<Rightarrow> 'h dispatch" where
  "ServeMux_Handler rs r =
     (if rq_RequestURI r = ''*'' then BadTarget
      else (let escaped = rq_EscapedPath r;
                path = (if rq_Method r = ''CONNECT'' then escaped else cleanPath escaped)
            in if path \<noteq> escaped then Moved path
               else (case mux_match rs (rq_Method r) (path_segments path) of
                       Some (h, vs) \<Rightarrow> Dispatch h vs
                     | None \<Rightarrow> (case matching_methods rs (path_segments path) of
                         [] \<Rightarrow> NoRoute
                       | ms \<Rightarrow> NotAllowed ms))))"

section \<open>A plain path reaches its handler\<close>

text \<open>A segment that needs no escaping and is not a step upwards.\<close>

definition plain_segment :: "string \<Rightarrow> bool" where
  "plain_segment s \<longleftrightarrow> s \<noteq> '''' \<and> s \<noteq> ''.'' \<and> s \<noteq> ''..'' \<and> CHR ''/'' \<notin> set s \<and> CHR ''%'' \<notin> set s"

definition plain_path :: "string list \<Rightarrow> string" where
  "plain_path ss = ''/'' @ strings_Join ss ''/''"

lemma url_unescape_plain: "CHR ''%'' \<notin> set s \<Longrightarrow> url_unescape s = Some s"
  by (induction s) auto

lemma mux_unescape_plain: "plain_segment s \<Longrightarrow> mux_unescape s = s"
  by (simp add: plain_segment_def mux_unescape_def url_unescape_plain)

lemma clean_segments_plain: "list_all plain_segment ss \<Longrightarrow> clean_segments acc ss = rev acc @ ss"
  by (induction ss arbitrary: acc) (auto simp: plain_segment_def)

lemma mux_segments_plain: "list_all plain_segment ss \<Longrightarrow> mux_segments ss = ss"
  by (induction ss rule: mux_segments.induct) (auto simp: mux_unescape_plain plain_segment_def)

lemma split_plain: "ss \<noteq> [] \<Longrightarrow> list_all plain_segment ss \<Longrightarrow> strings_Split (CHR ''/'') (strings_Join ss ''/'') = ss"
  by (rule strings_Split_Join) (auto simp: list_all_iff plain_segment_def)

lemma join_plain_last:
  assumes "ss \<noteq> []" and "list_all plain_segment ss"
  shows "strings_Join ss ''/'' \<noteq> '''' \<and> last (strings_Join ss ''/'') \<noteq> CHR ''/''"
  using assms
proof (induction ss)
  case (Cons s ss)
  have s: "s \<noteq> ''''" "CHR ''/'' \<notin> set s" using Cons.prems by (simp_all add: plain_segment_def)
  then have "last s \<noteq> CHR ''/''" using last_in_set by metis
  with s Cons show ?case by (cases ss) auto
qed simp

lemma cleanPath_plain:
  assumes "ss \<noteq> []" and "list_all plain_segment ss"
  shows "cleanPath (plain_path ss) = plain_path ss" "path_segments (plain_path ss) = ss"
  using join_plain_last [OF assms] assms
  by (auto simp: cleanPath_def plain_path_def path_Clean_def path_segments_def Let_def split_plain
      clean_segments_plain mux_segments_plain)

lemma ServeMux_Handler_plain:
  assumes "rq_RequestURI r \<noteq> ''*''" and "rq_EscapedPath r = plain_path ss" and "ss \<noteq> []" and "list_all plain_segment ss"
    and "mux_match rs (rq_Method r) ss = Some (h, vs)"
  shows "ServeMux_Handler rs r = Dispatch h vs"
  using assms by (simp add: ServeMux_Handler_def Let_def cleanPath_plain)

lemma ServeMux_Handler_Dispatch:
  assumes "ServeMux_Handler rs r = Dispatch h vs"
  shows "mux_match rs (rq_Method r) (path_segments (rq_EscapedPath r)) = Some (h, vs)"
  using assms by (auto simp: ServeMux_Handler_def Let_def split: if_splits option.splits list.splits)

end
