(* ===== verification/Store_Interface.thy ===== *)
theory Store_Interface
  imports Events "HOL-Library.Sublist"
begin

text \<open>
  The port between the use cases and their storage: the Go interface \<open>switcher.Store\<close> as a
  record of operations, and its contract as a locale.

  An operation takes, beside its Go arguments, a value \<open>e\<close> of type \<open>'e\<close> that holds what it reads
  from its surroundings while it runs (the state of the context, the clock, the outcome of a
  query), and the state \<open>'s\<close> of the store, which it returns updated; so do the reads, because
  other callers may have changed the store before the read took its lock.  A lookup that Go
  answers with \<open>(value, ok, error)\<close> returns an optional value or an error.
\<close>

section \<open>The interface\<close>

record ('e, 's) Store =
  store_Health :: "'e \<Rightarrow> 's \<Rightarrow> go_error option \<times> 's"
  store_FindByIdempotency :: "'e \<Rightarrow> 's \<Rightarrow> string \<Rightarrow> string \<Rightarrow> Transfer option result \<times> 's"
  store_InsertTransfer ::
    "'e \<Rightarrow> 's \<Rightarrow> Transfer \<Rightarrow> Event list \<Rightarrow> AuditRecord list \<Rightarrow> go_error option \<times> 's"
  store_GetTransfer :: "'e \<Rightarrow> 's \<Rightarrow> string \<Rightarrow> string \<Rightarrow> Transfer result \<times> 's"
  store_ClaimSPISubmission ::
    "'e \<Rightarrow> 's \<Rightarrow> string \<Rightarrow> string \<Rightarrow> string \<Rightarrow> gotime \<Rightarrow> (Transfer \<times> bool) result \<times> 's"
  store_RecordSPISubmission ::
    "'e \<Rightarrow> 's \<Rightarrow> string \<Rightarrow> string \<Rightarrow> string \<Rightarrow> SPIMessage \<Rightarrow> Event list \<Rightarrow> AuditRecord \<Rightarrow>
       (Transfer \<times> bool) result \<times> 's"
  store_ReleaseSPISubmission ::
    "'e \<Rightarrow> 's \<Rightarrow> string \<Rightarrow> string \<Rightarrow> string \<Rightarrow> string \<Rightarrow> gotime \<Rightarrow> go_error option \<times> 's"
  store_RecordReviewDecision ::
    "'e \<Rightarrow> 's \<Rightarrow> string \<Rightarrow> string \<Rightarrow> TransferStatus \<Rightarrow> string \<Rightarrow> Event list \<Rightarrow> AuditRecord \<Rightarrow>
       Transfer result \<times> 's"
  store_UpdateSettlement ::
    "'e \<Rightarrow> 's \<Rightarrow> string \<Rightarrow> string \<Rightarrow> SettlementCallback \<Rightarrow> Event list \<Rightarrow> AuditRecord \<Rightarrow>
       (Transfer \<times> bool) result \<times> 's"
  store_PendingSPISubmissions :: "'e \<Rightarrow> 's \<Rightarrow> int \<Rightarrow> Transfer list result \<times> 's"
  store_Outbox :: "'e \<Rightarrow> 's \<Rightarrow> OutboxRecord list result \<times> 's"
  store_Audit :: "'e \<Rightarrow> 's \<Rightarrow> AuditRecord list result \<times> 's"

text \<open>
  The store as one of many concurrent callers sees it.  A store operation is atomic (a mutex in
  memory, a transaction in PostgreSQL), so what the others did since the caller's previous
  operation happens before this one: it is the function in the first component of the
  environment.
\<close>

definition interleaved :: "('e, 's) Store \<Rightarrow> (('s \<Rightarrow> 's) \<times> 'e, 's) Store" where
  "interleaved S =
     \<lparr> store_Health = (\<lambda>e s. store_Health S (snd e) (fst e s)),
       store_FindByIdempotency = (\<lambda>e s. store_FindByIdempotency S (snd e) (fst e s)),
       store_InsertTransfer = (\<lambda>e s. store_InsertTransfer S (snd e) (fst e s)),
       store_GetTransfer = (\<lambda>e s. store_GetTransfer S (snd e) (fst e s)),
       store_ClaimSPISubmission = (\<lambda>e s. store_ClaimSPISubmission S (snd e) (fst e s)),
       store_RecordSPISubmission = (\<lambda>e s. store_RecordSPISubmission S (snd e) (fst e s)),
       store_ReleaseSPISubmission = (\<lambda>e s. store_ReleaseSPISubmission S (snd e) (fst e s)),
       store_RecordReviewDecision = (\<lambda>e s. store_RecordReviewDecision S (snd e) (fst e s)),
       store_UpdateSettlement = (\<lambda>e s. store_UpdateSettlement S (snd e) (fst e s)),
       store_PendingSPISubmissions = (\<lambda>e s. store_PendingSPISubmissions S (snd e) (fst e s)),
       store_Outbox = (\<lambda>e s. store_Outbox S (snd e) (fst e s)),
       store_Audit = (\<lambda>e s. store_Audit S (snd e) (fst e s)) \<rparr>"

section \<open>The contract\<close>

text \<open>What an observer sees of a store, and a write of one transfer with its events and audit.\<close>

record store_view =
  sv_transfers :: "string \<rightharpoonup> Transfer"
  sv_events :: "Event list"
  sv_audit :: "AuditRecord list"
  sv_callbacks :: "string \<Rightarrow> string \<Rightarrow> string option"

definition view_write ::
    "store_view \<Rightarrow> Transfer \<Rightarrow> Event list \<Rightarrow> AuditRecord list \<Rightarrow> store_view \<Rightarrow> bool" where
  "view_write v t evs aus v' \<longleftrightarrow>
     sv_transfers v' = (sv_transfers v)(t_ID t \<mapsto> t) \<and> sv_events v' = sv_events v @ evs \<and>
     sv_audit v' = sv_audit v @ aus"

definition view_owns :: "store_view \<Rightarrow> string \<Rightarrow> string \<Rightarrow> Transfer \<Rightarrow> bool" where
  "view_owns v tenantID transferID t \<longleftrightarrow>
     sv_transfers v transferID = Some t \<and> t_ID t = transferID \<and> t_TenantID t = tenantID"

text \<open>
  How a view may develop, whoever works on the store: transfers change by the methods of the
  domain model only and never disappear, events, audit records and settlement callbacks are only
  added.
\<close>

definition view_evolves :: "store_view \<Rightarrow> store_view \<Rightarrow> bool" where
  "view_evolves v v' \<longleftrightarrow>
     (\<forall>i t. sv_transfers v i = Some t \<longrightarrow> (\<exists>t'. sv_transfers v' i = Some t' \<and> Transfer_step\<^sup>*\<^sup>* t t')) \<and>
     prefix (sv_events v) (sv_events v') \<and> prefix (sv_audit v) (sv_audit v') \<and>
     (\<forall>tn m h. sv_callbacks v tn m = Some h \<longrightarrow> sv_callbacks v' tn m = Some h)"

definition view_inv :: "store_view \<Rightarrow> bool" where
  "view_inv v \<longleftrightarrow>
     (\<forall>i t. sv_transfers v i = Some t \<longrightarrow> t_ID t = i \<and> Transfer_inv t) \<and>
     (\<forall>i j t u. sv_transfers v i = Some t \<longrightarrow> sv_transfers v j = Some u \<longrightarrow>
        t_TenantID t = t_TenantID u \<longrightarrow> t_IdempotencyKey t = t_IdempotencyKey u \<longrightarrow> i = j)"

definition view_idempotent :: "store_view \<Rightarrow> string \<Rightarrow> string \<Rightarrow> Transfer \<Rightarrow> bool" where
  "view_idempotent v tenantID key t \<longleftrightarrow>
     sv_transfers v (t_ID t) = Some t \<and> t_TenantID t = tenantID \<and> t_IdempotencyKey t = key"

lemma view_evolves_refl [simp, intro]: "view_evolves v v"
  by (simp add: view_evolves_def)

lemma view_evolves_trans: "view_evolves u v \<Longrightarrow> view_evolves v w \<Longrightarrow> view_evolves u w"
  unfolding view_evolves_def
  by (meson prefix_order.order_trans rtranclp_trans)

text \<open>
  The contract of a store.  \<open>others\<close> is what other callers may do between two operations of a
  caller and \<open>rely\<close> what all callers together may do; \<open>callback_hash\<close> is the hash under which a
  settlement callback is remembered.
\<close>

locale transfer_store =
  fixes S :: "('e, 's) Store"
    and env_ok :: "'e \<Rightarrow> bool"
    and inv :: "'s \<Rightarrow> bool"
    and tenant_ok :: "string \<Rightarrow> bool"
    and others :: "'s \<Rightarrow> 's \<Rightarrow> bool"
    and rely :: "'s \<Rightarrow> 's \<Rightarrow> bool"
    and view :: "'s \<Rightarrow> store_view"
  assumes rely_refl: "rely s s"
    and rely_trans: "rely s s' \<Longrightarrow> rely s' s'' \<Longrightarrow> rely s s''"
    and rely_inv: "rely s s' \<Longrightarrow> inv s \<Longrightarrow> inv s'"
    and rely_view: "rely s s' \<Longrightarrow> inv s \<Longrightarrow> view_evolves (view s) (view s')"
    and inv_view: "inv s \<Longrightarrow> view_inv (view s)"
    and others_refl: "others s s"
    and others_trans: "others s s' \<Longrightarrow> others s' s'' \<Longrightarrow> others s s''"
    and others_rely: "others s s' \<Longrightarrow> inv s \<Longrightarrow> rely s s'"
    and find: "env_ok e \<Longrightarrow> inv s \<Longrightarrow> store_FindByIdempotency S e s tn k = (rf, s') \<Longrightarrow>
       others s s' \<and>
       (\<forall>t. rf = Inr (Some t) \<and> tenant_ok tn \<longrightarrow> view_idempotent (view s') tn k t) \<and>
       (rf = Inr None \<longrightarrow> (\<nexists>t. view_idempotent (view s') tn k t))"
    and insert: "env_ok e \<Longrightarrow> inv s \<Longrightarrow> Transfer_new t \<Longrightarrow> tenant_ok (t_TenantID t) \<Longrightarrow>
       store_InsertTransfer S e s t evs aus = (ri, s') \<Longrightarrow>
       rely s s' \<and>
       (ri \<noteq> None \<longrightarrow> others s s') \<and>
       (ri = None \<longrightarrow> (\<exists>s0. others s s0 \<and> sv_transfers (view s0) (t_ID t) = None \<and>
          (\<nexists>u. view_idempotent (view s0) (t_TenantID t) (t_IdempotencyKey t) u) \<and>
          view_write (view s0) t evs aus (view s')))"
    and get: "env_ok e \<Longrightarrow> inv s \<Longrightarrow> store_GetTransfer S e s tn i = (rg, s') \<Longrightarrow>
       others s s' \<and> (\<forall>t. rg = Inr t \<longrightarrow> view_owns (view s') tn i t)"
    and claim: "env_ok e \<Longrightarrow> inv s \<Longrightarrow> store_ClaimSPISubmission S e s tn i tok until = (rc, s') \<Longrightarrow>
       rely s s' \<and>
       (\<forall>err. rc = Inl err \<longrightarrow> others s s') \<and>
       (\<forall>t. rc = Inr (t, True) \<longrightarrow> others s s' \<and> view_owns (view s') tn i t \<and> t_Status t = StatusApproved) \<and>
       (\<forall>t'. rc = Inr (t', False) \<longrightarrow> (\<exists>s0 t now. others s s0 \<and> view_owns (view s0) tn i t \<and>
          Transfer_ClaimSPISubmission t tok until now = Inr t' \<and> view_write (view s0) t' [] [] (view s')))"
    and record_spi: "env_ok e \<Longrightarrow> inv s \<Longrightarrow>
       store_RecordSPISubmission S e s tn i tok m evs au = (rc, s') \<Longrightarrow>
       rely s s' \<and>
       (\<forall>err. rc = Inl err \<longrightarrow> others s s') \<and>
       (\<forall>t. rc = Inr (t, True) \<longrightarrow> others s s' \<and> view_owns (view s') tn i t \<and> t_Status t = StatusApproved) \<and>
       (\<forall>t'. rc = Inr (t', False) \<longrightarrow> (\<exists>s0 t. others s s0 \<and> view_owns (view s0) tn i t \<and>
          Transfer_RecordSPISubmission t tok m = Inr t' \<and> view_write (view s0) t' evs [au] (view s')))"
    and release: "env_ok e \<Longrightarrow> inv s \<Longrightarrow>
       store_ReleaseSPISubmission S e s tn i tok msg retry = (ri, s') \<Longrightarrow>
       rely s s' \<and>
       (others s s' \<or> ri = None \<and> (\<exists>s0 t t' now. others s s0 \<and> view_owns (view s0) tn i t \<and>
          Transfer_ReleaseSPISubmission t tok msg retry now = Inr t' \<and> view_write (view s0) t' [] [] (view s')))"
    and review: "env_ok e \<Longrightarrow> inv s \<Longrightarrow>
       store_RecordReviewDecision S e s tn i st reason evs au = (rg, s') \<Longrightarrow>
       rely s s' \<and>
       (\<forall>err. rg = Inl err \<longrightarrow> others s s') \<and>
       (\<forall>t'. rg = Inr t' \<longrightarrow> (\<exists>s0 t. others s s0 \<and> view_owns (view s0) tn i t \<and>
          Transfer_RecordReviewDecision t st reason (au_CreatedAt au) = Inr t' \<and>
          view_write (view s0) t' evs [au] (view s')))"
    and settle: "env_ok e \<Longrightarrow> inv s \<Longrightarrow> cb_CallbackHash cb \<noteq> '''' \<Longrightarrow>
       store_UpdateSettlement S e s tn i cb evs au = (rc, s') \<Longrightarrow>
       rely s s' \<and>
       (\<forall>err. rc = Inl err \<longrightarrow> others s s') \<and>
       (\<forall>t. rc = Inr (t, True) \<longrightarrow> others s s' \<and> view_owns (view s') tn i t \<and>
          sv_callbacks (view s') tn (cb_SPIMessageID cb) = Some (cb_CallbackHash cb)) \<and>
       (\<forall>t'. rc = Inr (t', False) \<longrightarrow> (\<exists>s0 t. others s s0 \<and> view_owns (view s0) tn i t \<and>
          sv_callbacks (view s0) tn (cb_SPIMessageID cb) = None \<and>
          Transfer_RecordSettlement t cb = Inr t' \<and> view_write (view s0) t' evs [au] (view s') \<and>
          sv_callbacks (view s') tn (cb_SPIMessageID cb) = Some (cb_CallbackHash cb)))"
    and pending: "env_ok e \<Longrightarrow> inv s \<Longrightarrow> store_PendingSPISubmissions S e s n = (rp, s') \<Longrightarrow>
       others s s' \<and>
       (\<forall>ts. rp = Inr ts \<longrightarrow> (\<forall>t \<in> set ts. sv_transfers (view s') (t_ID t) = Some t \<and> t_Status t = StatusAccepted))"
begin

text \<open>The contract survives interleaving: a store used by many callers keeps it.\<close>

definition env_ok_interleaved :: "('s \<Rightarrow> 's) \<times> 'e \<Rightarrow> bool" where
  "env_ok_interleaved fe \<longleftrightarrow> (\<forall>s. inv s \<longrightarrow> rely s (fst fe s)) \<and> env_ok (snd fe)"

lemma others_inv: "others s s' \<Longrightarrow> inv s \<Longrightarrow> inv s'"
  using others_rely rely_inv by blast

lemma others_then: "rely s s1 \<Longrightarrow> inv s \<Longrightarrow> others s1 s' \<Longrightarrow> rely s s'"
  using others_rely rely_inv rely_trans by blast

lemma interleaved_env:
  assumes "env_ok_interleaved e" and "inv s"
  shows "env_ok (snd e)" "inv (fst e s)" "rely s (fst e s)"
  using assms rely_inv by (auto simp: env_ok_interleaved_def)

lemma interleaved_others:
  assumes "env_ok_interleaved e" and "inv s" and "others (fst e s) s'"
  shows "rely s s'"
  using assms interleaved_env others_then by blast

lemma interleaved_rely:
  assumes "env_ok_interleaved e" and "inv s" and "rely (fst e s) s'"
  shows "rely s s'"
  using assms interleaved_env rely_trans by blast

lemmas interleaved_laws = interleaved_env interleaved_others interleaved_rely

lemma interleaved_store:
  "transfer_store (interleaved S) env_ok_interleaved inv tenant_ok rely rely view"
  apply unfold_locales
  subgoal by (rule rely_refl)
  subgoal by (rule rely_trans)
  subgoal by (rule rely_inv)
  subgoal by (rule rely_view)
  subgoal by (rule inv_view)
  subgoal .
  subgoal for e s tn k r s'
    using find [of "snd e" "fst e s" tn k r s'] interleaved_laws [of e s] by (auto simp: interleaved_def)
  subgoal for e s t evs aus r s'
    using insert [of "snd e" "fst e s" t evs aus r s'] interleaved_laws [of e s]
    by (simp add: interleaved_def) blast
  subgoal for e s tn i r s'
    using get [of "snd e" "fst e s" tn i r s'] interleaved_laws [of e s] by (auto simp: interleaved_def)
  subgoal for e s tn i tok u r s'
    using claim [of "snd e" "fst e s" tn i tok u r s'] interleaved_laws [of e s]
    by (simp add: interleaved_def) blast
  subgoal for e s tn i tok m evs au r s'
    using record_spi [of "snd e" "fst e s" tn i tok m evs au r s'] interleaved_laws [of e s]
    by (simp add: interleaved_def) blast
  subgoal for e s tn i tok m rt r s'
    using release [of "snd e" "fst e s" tn i tok m rt r s'] interleaved_laws [of e s]
    by (simp add: interleaved_def)
  subgoal for e s tn i st rs evs au r s'
    using review [of "snd e" "fst e s" tn i st rs evs au r s'] interleaved_laws [of e s]
    by (simp add: interleaved_def) blast
  subgoal for e s cb tn i evs au r s'
    using settle [of "snd e" "fst e s" cb tn i evs au r s'] interleaved_laws [of e s]
    by (simp add: interleaved_def) blast
  subgoal for e s n r s'
    using pending [of "snd e" "fst e s" n r s'] interleaved_laws [of e s] by (auto simp: interleaved_def)
  done

end

end
