(* ===== verification/Memory_Store.thy ===== *)
theory Memory_Store
  imports Store_Interface
begin

text \<open>
  The in-memory adapter, \<open>internal/store/memory.go\<close>.  Every exported method holds the store's
  mutex while it touches the state, so one call is one atomic step; the step relation
  \<open>mem_step\<close> below lets any number of callers interleave such calls.

  What a call reads from outside is its \<open>mem_env\<close>: the error of its context, the clock, and the
  order in which Go iterates over the map of transfers.
\<close>

section \<open>State and operations\<close>

record MemoryStore =
  ms_transfers :: "string \<rightharpoonup> Transfer"
  ms_idempotency :: "string \<rightharpoonup> string"
  ms_callbacks :: "string \<rightharpoonup> string"
  ms_events :: "OutboxRecord list"
  ms_audit :: "AuditRecord list"
  ms_nextSeq :: int

record mem_env =
  me_ctx :: "go_error option"
  me_now :: gotime
  me_order :: "string list"

definition NewMemoryStore :: MemoryStore where
  "NewMemoryStore = \<lparr> ms_transfers = Map.empty, ms_idempotency = Map.empty, ms_callbacks = Map.empty,
                      ms_events = [], ms_audit = [], ms_nextSeq = 0 \<rparr>"

definition MemoryStore_Health :: "mem_env \<Rightarrow> MemoryStore \<Rightarrow> go_error option" where
  "MemoryStore_Health e s = me_ctx e"

definition idem_key :: "string \<Rightarrow> string \<Rightarrow> string" where
  "idem_key tenantID key = tenantID @ '':'' @ key"

definition MemoryStore_FindByIdempotency ::
    "mem_env \<Rightarrow> MemoryStore \<Rightarrow> string \<Rightarrow> string \<Rightarrow> Transfer option result" where
  "MemoryStore_FindByIdempotency e s tenantID key =
     (case MemoryStore_Health e s of
        Some err \<Rightarrow> Inl err
      | None \<Rightarrow> (case ms_idempotency s (idem_key tenantID key) of
          None \<Rightarrow> Inr None
        | Some tid \<Rightarrow> Inr (ms_transfers s tid)))"

fun appendEventsLocked :: "MemoryStore \<Rightarrow> Event list \<Rightarrow> MemoryStore" where
  "appendEventsLocked s [] = s"
| "appendEventsLocked s (event # outbox) =
     (let seq = wrap64 (ms_nextSeq s + 1)
      in appendEventsLocked
           (s\<lparr> ms_nextSeq := seq,
               ms_events := ms_events s @
                 [\<lparr> ob_Sequence = seq, ob_Event = event, ob_Published = False, ob_Attempts = 0,
                    ob_LastError = '''', ob_AvailableAt = ev_OccurredAt event, ob_ClaimToken = '''',
                    ob_ClaimedUntil = None, ob_DispatchedAt = None \<rparr>] \<rparr>) outbox)"

definition append_audit :: "MemoryStore \<Rightarrow> AuditRecord list \<Rightarrow> MemoryStore" where
  "append_audit s audit = s\<lparr> ms_audit := ms_audit s @ audit \<rparr>"

definition put_transfer :: "MemoryStore \<Rightarrow> Transfer \<Rightarrow> MemoryStore" where
  "put_transfer s t = s\<lparr> ms_transfers := (ms_transfers s)(t_ID t \<mapsto> t) \<rparr>"

definition MemoryStore_InsertTransfer ::
    "mem_env \<Rightarrow> MemoryStore \<Rightarrow> Transfer \<Rightarrow> Event list \<Rightarrow> AuditRecord list \<Rightarrow> go_error option \<times> MemoryStore" where
  "MemoryStore_InsertTransfer e s transfer outbox audit =
     (let idem = idem_key (t_TenantID transfer) (t_IdempotencyKey transfer)
      in if (case ms_idempotency s idem of None \<Rightarrow> False | Some existingID \<Rightarrow> existingID \<noteq> t_ID transfer) then
           (Some (Suffixed (Sentinel ErrConflict) ''idempotency key already used''), s)
         else if ms_transfers s (t_ID transfer) \<noteq> None then
           (Some (Suffixed (Sentinel ErrConflict) ''transfer already exists''), s)
         else
           (let s1 = put_transfer s transfer;
                s2 = s1\<lparr> ms_idempotency := (ms_idempotency s1)(idem \<mapsto> t_ID transfer) \<rparr>
            in (None, append_audit (appendEventsLocked s2 outbox) audit)))"

text \<open>The guard at the head of every operation on one transfer: it exists and is the tenant's.\<close>

definition own_transfer :: "MemoryStore \<Rightarrow> string \<Rightarrow> string \<Rightarrow> Transfer result" where
  "own_transfer s tenantID transferID =
     (case ms_transfers s transferID of
        None \<Rightarrow> Inl (Sentinel ErrNotFound)
      | Some t \<Rightarrow> if t_TenantID t \<noteq> tenantID then Inl (Sentinel ErrNotFound) else Inr t)"

definition MemoryStore_GetTransfer ::
    "mem_env \<Rightarrow> MemoryStore \<Rightarrow> string \<Rightarrow> string \<Rightarrow> Transfer result" where
  "MemoryStore_GetTransfer e s tenantID transferID = own_transfer s tenantID transferID"

definition MemoryStore_ClaimSPISubmission ::
    "mem_env \<Rightarrow> MemoryStore \<Rightarrow> string \<Rightarrow> string \<Rightarrow> string \<Rightarrow> gotime \<Rightarrow> (Transfer \<times> bool) result \<times> MemoryStore" where
  "MemoryStore_ClaimSPISubmission e s tenantID transferID claimToken claimUntil =
     (case MemoryStore_Health e s of
        Some err \<Rightarrow> (Inl err, s)
      | None \<Rightarrow> (case own_transfer s tenantID transferID of
          Inl err \<Rightarrow> (Inl err, s)
        | Inr transfer \<Rightarrow>
            if t_Status transfer = StatusApproved \<and> t_SPIMessageID transfer \<noteq> '''' then
              (Inr (transfer, True), s)
            else (case Transfer_ClaimSPISubmission transfer claimToken claimUntil (me_now e) of
                Inl err \<Rightarrow> (Inl err, s)
              | Inr transfer' \<Rightarrow> (Inr (transfer', False), put_transfer s transfer'))))"

definition MemoryStore_RecordSPISubmission ::
    "mem_env \<Rightarrow> MemoryStore \<Rightarrow> string \<Rightarrow> string \<Rightarrow> string \<Rightarrow> SPIMessage \<Rightarrow> Event list \<Rightarrow> AuditRecord \<Rightarrow>
       (Transfer \<times> bool) result \<times> MemoryStore" where
  "MemoryStore_RecordSPISubmission e s tenantID transferID claimToken message outbox audit =
     (case MemoryStore_Health e s of
        Some err \<Rightarrow> (Inl err, s)
      | None \<Rightarrow> (case own_transfer s tenantID transferID of
          Inl err \<Rightarrow> (Inl err, s)
        | Inr transfer \<Rightarrow>
            if t_Status transfer = StatusApproved \<and> t_SPIMessageID transfer = sm_MessageID message then
              (Inr (transfer, True), s)
            else (case Transfer_RecordSPISubmission transfer claimToken message of
                Inl err \<Rightarrow> (Inl err, s)
              | Inr transfer' \<Rightarrow>
                  (Inr (transfer', False),
                   append_audit (appendEventsLocked (put_transfer s transfer') outbox) [audit]))))"

definition MemoryStore_ReleaseSPISubmission ::
    "mem_env \<Rightarrow> MemoryStore \<Rightarrow> string \<Rightarrow> string \<Rightarrow> string \<Rightarrow> string \<Rightarrow> gotime \<Rightarrow> go_error option \<times> MemoryStore" where
  "MemoryStore_ReleaseSPISubmission e s tenantID transferID claimToken lastError retryAt =
     (case MemoryStore_Health e s of
        Some err \<Rightarrow> (Some err, s)
      | None \<Rightarrow> (case own_transfer s tenantID transferID of
          Inl err \<Rightarrow> (Some err, s)
        | Inr transfer \<Rightarrow>
            if t_Status transfer = StatusApproved \<and> t_SPIMessageID transfer \<noteq> '''' then (None, s)
            else (case Transfer_ReleaseSPISubmission transfer claimToken lastError retryAt (me_now e) of
                Inl err \<Rightarrow> (Some err, s)
              | Inr transfer' \<Rightarrow> (None, put_transfer s transfer'))))"

definition MemoryStore_RecordReviewDecision ::
    "mem_env \<Rightarrow> MemoryStore \<Rightarrow> string \<Rightarrow> string \<Rightarrow> TransferStatus \<Rightarrow> string \<Rightarrow> Event list \<Rightarrow> AuditRecord \<Rightarrow>
       Transfer result \<times> MemoryStore" where
  "MemoryStore_RecordReviewDecision e s tenantID transferID status reason outbox audit =
     (case own_transfer s tenantID transferID of
        Inl err \<Rightarrow> (Inl err, s)
      | Inr transfer \<Rightarrow>
          (case Transfer_RecordReviewDecision transfer status reason (au_CreatedAt audit) of
             Inl err \<Rightarrow> (Inl err, s)
           | Inr transfer' \<Rightarrow>
               (Inr transfer',
                append_audit (appendEventsLocked (put_transfer s transfer') outbox) [audit])))"

definition MemoryStore_UpdateSettlement ::
    "mem_env \<Rightarrow> MemoryStore \<Rightarrow> string \<Rightarrow> string \<Rightarrow> SettlementCallback \<Rightarrow> Event list \<Rightarrow> AuditRecord \<Rightarrow>
       (Transfer \<times> bool) result \<times> MemoryStore" where
  "MemoryStore_UpdateSettlement e s tenantID transferID callback outbox audit =
     (case own_transfer s tenantID transferID of
        Inl err \<Rightarrow> (Inl err, s)
      | Inr transfer \<Rightarrow>
          (let callbackHash = (if cb_CallbackHash callback = '''' then SettlementCallback_Fingerprint callback
                               else cb_CallbackHash callback);
               callbackKey = tenantID @ '':'' @ cb_SPIMessageID callback
           in case ms_callbacks s callbackKey of
                Some existingHash \<Rightarrow>
                  if existingHash = callbackHash then (Inr (transfer, True), s)
                  else (Inl (Suffixed (Sentinel ErrConflict)
                              ''conflicting settlement callback for terminal transfer''), s)
              | None \<Rightarrow> (case Transfer_RecordSettlement transfer callback of
                  Inl err \<Rightarrow> (Inl err, s)
                | Inr transfer' \<Rightarrow>
                    (let s1 = put_transfer s transfer';
                         s2 = s1\<lparr> ms_callbacks := (ms_callbacks s1)(callbackKey \<mapsto> callbackHash) \<rparr>
                     in (Inr (transfer', False),
                         append_audit (appendEventsLocked s2 outbox) [audit])))))"

text \<open>
  \<open>sort.Slice\<close> is not stable, but it sorts what the iteration over the map produced in an
  arbitrary order, so that a stable sort of every iteration order gives every possible result.
\<close>

definition spi_pending :: "gotime \<Rightarrow> Transfer \<Rightarrow> bool" where
  "spi_pending now t \<longleftrightarrow>
     \<not> (t_Status t \<noteq> StatusAccepted \<or> t_SPIMessageID t \<noteq> '''') \<and>
     \<not> (case t_SPIClaimedUntil t of None \<Rightarrow> False | Some u \<Rightarrow> time_After u now)"

definition batch_limit :: "int \<Rightarrow> int" where
  "batch_limit limit = (if limit \<le> 0 then 100 else limit)"

definition MemoryStore_PendingSPISubmissions ::
    "mem_env \<Rightarrow> MemoryStore \<Rightarrow> int \<Rightarrow> Transfer list result" where
  "MemoryStore_PendingSPISubmissions e s limit =
     (case MemoryStore_Health e s of
        Some err \<Rightarrow> Inl err
      | None \<Rightarrow>
          (let transfers = filter (spi_pending (me_now e)) (List.map_filter (ms_transfers s) (me_order e));
               transfers = sort_key t_CreatedAt transfers
           in Inr (take (nat (batch_limit limit)) transfers)))"

definition MemoryStore_Outbox :: "mem_env \<Rightarrow> MemoryStore \<Rightarrow> OutboxRecord list result" where
  "MemoryStore_Outbox e s =
     (case MemoryStore_Health e s of Some err \<Rightarrow> Inl err | None \<Rightarrow> Inr (ms_events s))"

text \<open>A record that the relay may deliver now, and the two loops over the outbox.\<close>

definition outbox_due :: "gotime \<Rightarrow> OutboxRecord \<Rightarrow> bool" where
  "outbox_due now r \<longleftrightarrow>
     \<not> (ob_Published r \<or> time_After (ob_AvailableAt r) now) \<and>
     \<not> (case ob_ClaimedUntil r of None \<Rightarrow> False | Some u \<Rightarrow> time_After u now)"

fun pending_loop :: "gotime \<Rightarrow> int \<Rightarrow> OutboxRecord list \<Rightarrow> OutboxRecord list \<Rightarrow> OutboxRecord list" where
  "pending_loop now limit records [] = records"
| "pending_loop now limit records (r # rs) =
     (if \<not> outbox_due now r then pending_loop now limit records rs
      else (let records' = records @ [r]
            in if int (length records') = limit then records' else pending_loop now limit records' rs))"

definition MemoryStore_PendingOutbox :: "mem_env \<Rightarrow> MemoryStore \<Rightarrow> int \<Rightarrow> OutboxRecord list result" where
  "MemoryStore_PendingOutbox e s limit =
     (case MemoryStore_Health e s of
        Some err \<Rightarrow> Inl err
      | None \<Rightarrow> Inr (sort_key ob_Sequence
                      (pending_loop (me_now e) (batch_limit limit) [] (ms_events s))))"

definition claim_record :: "string \<Rightarrow> gotime \<Rightarrow> OutboxRecord \<Rightarrow> OutboxRecord" where
  "claim_record claimToken claimUntil r =
     r\<lparr> ob_ClaimToken := claimToken, ob_ClaimedUntil := Some claimUntil \<rparr>"

text \<open>The loop returns the claimed records and the updated rest of the outbox.\<close>

fun claim_loop ::
    "gotime \<Rightarrow> int \<Rightarrow> string \<Rightarrow> gotime \<Rightarrow> OutboxRecord list \<Rightarrow> OutboxRecord list \<Rightarrow>
       OutboxRecord list \<times> OutboxRecord list" where
  "claim_loop now limit tok until records [] = (records, [])"
| "claim_loop now limit tok until records (r # rs) =
     (if \<not> outbox_due now r then
        (let (cs, rs') = claim_loop now limit tok until records rs in (cs, r # rs'))
      else
        (let r' = claim_record tok until r;
             records' = records @ [r']
         in if int (length records') = limit then (records', r' # rs)
            else (let (cs, rs') = claim_loop now limit tok until records' rs in (cs, r' # rs'))))"

definition MemoryStore_ClaimPendingOutbox ::
    "mem_env \<Rightarrow> gotime \<Rightarrow> MemoryStore \<Rightarrow> int \<Rightarrow> string \<Rightarrow> gotime \<Rightarrow> OutboxRecord list result \<times> MemoryStore" where
  "MemoryStore_ClaimPendingOutbox e checkNow s limit claimToken claimUntil =
     (case MemoryStore_Health e s of
        Some err \<Rightarrow> (Inl err, s)
      | None \<Rightarrow>
          if claimToken = '''' \<or> \<not> time_After claimUntil checkNow then
            (Inl (Suffixed (Sentinel ErrValidation) ''valid outbox claim token and expiry are required''), s)
          else
            (let (records, evs) =
                   claim_loop (me_now e) (batch_limit limit) claimToken claimUntil [] (ms_events s)
             in (Inr (sort_key ob_Sequence records), s\<lparr> ms_events := evs \<rparr>)))"

text \<open>
  The two acknowledgements scan for the sequence number and stop at the first hit;
  \<open>mark_loop f\<close> is that loop with \<open>f\<close> the update of the record found.
\<close>

fun mark_loop ::
    "(OutboxRecord \<Rightarrow> OutboxRecord) \<Rightarrow> int \<Rightarrow> string \<Rightarrow> OutboxRecord list \<Rightarrow> go_error option \<times> OutboxRecord list" where
  "mark_loop f sequence claimToken [] =
     (Some (Suffixed (Sentinel ErrNotFound) ''outbox sequence not found''), [])"
| "mark_loop f sequence claimToken (r # rs) =
     (if ob_Sequence r \<noteq> sequence then
        (let (err, rs') = mark_loop f sequence claimToken rs in (err, r # rs'))
      else if ob_ClaimToken r = '''' \<or> ob_ClaimToken r \<noteq> claimToken then
        (Some (Suffixed (Sentinel ErrConflict) ''outbox record is not claimed by this worker''), r # rs)
      else (None, f r # rs))"

definition published_record :: "gotime \<Rightarrow> OutboxRecord \<Rightarrow> OutboxRecord" where
  "published_record dispatchedAt r =
     r\<lparr> ob_Published := True, ob_LastError := '''', ob_ClaimToken := '''', ob_ClaimedUntil := None,
        ob_DispatchedAt := Some dispatchedAt \<rparr>"

definition failed_record :: "string \<Rightarrow> gotime \<Rightarrow> OutboxRecord \<Rightarrow> OutboxRecord" where
  "failed_record lastError retryAt r =
     r\<lparr> ob_Attempts := wrap64 (ob_Attempts r + 1), ob_LastError := lastError, ob_AvailableAt := retryAt,
        ob_ClaimToken := '''', ob_ClaimedUntil := None \<rparr>"

definition MemoryStore_MarkOutboxPublished ::
    "mem_env \<Rightarrow> MemoryStore \<Rightarrow> int \<Rightarrow> string \<Rightarrow> gotime \<Rightarrow> go_error option \<times> MemoryStore" where
  "MemoryStore_MarkOutboxPublished e s sequence claimToken dispatchedAt =
     (case MemoryStore_Health e s of
        Some err \<Rightarrow> (Some err, s)
      | None \<Rightarrow> (let (err, evs) = mark_loop (published_record dispatchedAt) sequence claimToken (ms_events s)
                 in (err, s\<lparr> ms_events := evs \<rparr>)))"

definition MemoryStore_MarkOutboxFailed ::
    "mem_env \<Rightarrow> MemoryStore \<Rightarrow> int \<Rightarrow> string \<Rightarrow> string \<Rightarrow> gotime \<Rightarrow> go_error option \<times> MemoryStore" where
  "MemoryStore_MarkOutboxFailed e s sequence claimToken lastError retryAt =
     (case MemoryStore_Health e s of
        Some err \<Rightarrow> (Some err, s)
      | None \<Rightarrow> (let (err, evs) = mark_loop (failed_record lastError retryAt) sequence claimToken (ms_events s)
                 in (err, s\<lparr> ms_events := evs \<rparr>)))"

definition MemoryStore_Audit :: "mem_env \<Rightarrow> MemoryStore \<Rightarrow> AuditRecord list result" where
  "MemoryStore_Audit e s =
     (case MemoryStore_Health e s of Some err \<Rightarrow> Inl err | None \<Rightarrow> Inr (ms_audit s))"

text \<open>The adapter as a value of the interface.\<close>

definition memory_store :: "(mem_env, MemoryStore) Store" where
  "memory_store =
     \<lparr> store_Health = (\<lambda>e s. (MemoryStore_Health e s, s)),
       store_FindByIdempotency = (\<lambda>e s tenantID key. (MemoryStore_FindByIdempotency e s tenantID key, s)),
       store_InsertTransfer = MemoryStore_InsertTransfer,
       store_GetTransfer = (\<lambda>e s tenantID transferID. (MemoryStore_GetTransfer e s tenantID transferID, s)),
       store_ClaimSPISubmission = MemoryStore_ClaimSPISubmission,
       store_RecordSPISubmission = MemoryStore_RecordSPISubmission,
       store_ReleaseSPISubmission = MemoryStore_ReleaseSPISubmission,
       store_RecordReviewDecision = MemoryStore_RecordReviewDecision,
       store_UpdateSettlement = MemoryStore_UpdateSettlement,
       store_PendingSPISubmissions = (\<lambda>e s limit. (MemoryStore_PendingSPISubmissions e s limit, s)),
       store_Outbox = (\<lambda>e s. (MemoryStore_Outbox e s, s)),
       store_Audit = (\<lambda>e s. (MemoryStore_Audit e s, s)) \<rparr>"

section \<open>Invariant, steps and runs\<close>

definition outbox_record_ok :: "OutboxRecord \<Rightarrow> bool" where
  "outbox_record_ok r \<longleftrightarrow>
     (ob_ClaimToken r = '''' \<longleftrightarrow> ob_ClaimedUntil r = None) \<and>
     (ob_Published r \<longrightarrow> ob_ClaimToken r = '''') \<and>
     (ob_Published r \<longleftrightarrow> ob_DispatchedAt r \<noteq> None)"

text \<open>
  The outbox part of the invariant: sequence numbers count the records, modulo the width of
  \<open>int64\<close>, and every record is in one of the states free, claimed and published.
\<close>

definition outbox_inv :: "MemoryStore \<Rightarrow> bool" where
  "outbox_inv s \<longleftrightarrow>
     ms_nextSeq s = wrap64 (int (length (ms_events s))) \<and>
     map ob_Sequence (ms_events s) = map (\<lambda>i. wrap64 (1 + int i)) [0..<length (ms_events s)] \<and>
     (\<forall>r \<in> set (ms_events s). outbox_record_ok r)"

definition transfers_inv :: "MemoryStore \<Rightarrow> bool" where
  "transfers_inv s \<longleftrightarrow>
     (\<forall>i t. ms_transfers s i = Some t \<longrightarrow>
        t_ID t = i \<and> Transfer_inv t \<and> CHR '':'' \<notin> set (t_TenantID t) \<and>
        ms_idempotency s (idem_key (t_TenantID t) (t_IdempotencyKey t)) = Some i)"

definition idempotency_inv :: "MemoryStore \<Rightarrow> bool" where
  "idempotency_inv s \<longleftrightarrow>
     (\<forall>k i. ms_idempotency s k = Some i \<longrightarrow>
        (\<exists>t. ms_transfers s i = Some t \<and> k = idem_key (t_TenantID t) (t_IdempotencyKey t)))"

definition settled :: "Transfer \<Rightarrow> bool" where
  "settled t \<longleftrightarrow> t_Status t \<in> {StatusSettled, StatusRejected}"

definition callbacks_inv :: "MemoryStore \<Rightarrow> bool" where
  "callbacks_inv s \<longleftrightarrow>
     (\<forall>i t. ms_transfers s i = Some t \<longrightarrow> settled t \<longrightarrow>
        ms_callbacks s (t_TenantID t @ '':'' @ t_SPIMessageID t) \<noteq> None) \<and>
     (\<forall>k h. ms_callbacks s k = Some h \<longrightarrow>
        (\<exists>i t. ms_transfers s i = Some t \<and> settled t \<and> k = t_TenantID t @ '':'' @ t_SPIMessageID t))"

definition mem_inv :: "MemoryStore \<Rightarrow> bool" where
  "mem_inv s \<longleftrightarrow> transfers_inv s \<and> idempotency_inv s \<and> callbacks_inv s \<and> outbox_inv s"

text \<open>
  A step is one call of a method by some caller, with arguments of its choice; an inserted
  transfer is new and has a tenant without a colon, as the switch and the configuration of the
  API keys see to.  The label records what the call achieved.
\<close>

datatype mem_label =
    Tau
  | Inserted string
  | Approved string
  | Settled string
  | OutboxClaim gotime
  | OutboxAck string

definition write_label :: "(string \<Rightarrow> mem_label) \<Rightarrow> (Transfer \<times> bool) result \<Rightarrow> mem_label" where
  "write_label l r = (case r of Inl _ \<Rightarrow> Tau | Inr (t, replay) \<Rightarrow> if replay then Tau else l (t_ID t))"

inductive mem_step :: "MemoryStore \<Rightarrow> mem_label \<Rightarrow> MemoryStore \<Rightarrow> bool" where
  insert: "Transfer_new t \<Longrightarrow> CHR '':'' \<notin> set (t_TenantID t) \<Longrightarrow>
    MemoryStore_InsertTransfer e s t evs aus = (r, s') \<Longrightarrow>
    mem_step s (case r of None \<Rightarrow> Inserted (t_ID t) | Some _ \<Rightarrow> Tau) s'"
| claim: "MemoryStore_ClaimSPISubmission e s tn i tok until = (r, s') \<Longrightarrow> mem_step s Tau s'"
| record_spi: "MemoryStore_RecordSPISubmission e s tn i tok m evs au = (r, s') \<Longrightarrow>
    mem_step s (write_label Approved r) s'"
| release: "MemoryStore_ReleaseSPISubmission e s tn i tok msg retry = (r, s') \<Longrightarrow> mem_step s Tau s'"
| review: "MemoryStore_RecordReviewDecision e s tn i st reason evs au = (r, s') \<Longrightarrow> mem_step s Tau s'"
| settle: "MemoryStore_UpdateSettlement e s tn i cb evs au = (r, s') \<Longrightarrow>
    mem_step s (write_label Settled r) s'"
| outbox_claim: "MemoryStore_ClaimPendingOutbox e now s limit tok until = (r, s') \<Longrightarrow>
    mem_step s (OutboxClaim (me_now e)) s'"
| outbox_published: "MemoryStore_MarkOutboxPublished e s seq tok at = (r, s') \<Longrightarrow> mem_step s (OutboxAck tok) s'"
| outbox_failed: "MemoryStore_MarkOutboxFailed e s seq tok msg retry = (r, s') \<Longrightarrow> mem_step s (OutboxAck tok) s'"

inductive mem_run :: "MemoryStore \<Rightarrow> mem_label list \<Rightarrow> MemoryStore \<Rightarrow> bool" where
  stop: "mem_run s [] s"
| step: "mem_run s ls s' \<Longrightarrow> mem_step s' l s'' \<Longrightarrow> mem_run s (ls @ [l]) s''"

section \<open>The effect of each operation\<close>

definition mem_write :: "MemoryStore \<Rightarrow> Transfer \<Rightarrow> Event list \<Rightarrow> AuditRecord list \<Rightarrow> MemoryStore" where
  "mem_write s t evs aus = append_audit (appendEventsLocked (put_transfer s t) evs) aus"

lemma appendEvents_frame [simp]:
  "ms_transfers (appendEventsLocked s evs) = ms_transfers s"
  "ms_idempotency (appendEventsLocked s evs) = ms_idempotency s"
  "ms_callbacks (appendEventsLocked s evs) = ms_callbacks s"
  "ms_audit (appendEventsLocked s evs) = ms_audit s"
  by (induction s evs rule: appendEventsLocked.induct) (simp_all add: Let_def)

lemma appendEvents_prefix: "prefix (ms_events s) (ms_events (appendEventsLocked s evs))"
proof (induction s evs rule: appendEventsLocked.induct)
  case (2 s ev evs)
  then show ?case by (simp add: Let_def) (metis append_prefixD)
qed simp

lemma appendEvents_events [simp]:
  "map ob_Event (ms_events (appendEventsLocked s evs)) = map ob_Event (ms_events s) @ evs"
  by (induction s evs rule: appendEventsLocked.induct) (simp_all add: Let_def)

lemma wrap64_add_one: "wrap64 (wrap64 x + 1) = wrap64 (1 + x)"
  using signed_take_bit_add [of 63 x 1] by (simp add: wrap64_def add.commute)

lemma outbox_inv_appendEvents: "outbox_inv s \<Longrightarrow> outbox_inv (appendEventsLocked s evs)"
proof (induction s evs rule: appendEventsLocked.induct)
  case (2 s ev evs)
  from 2(2) show ?case
    by (simp only: appendEventsLocked.simps Let_def) (rule 2(1) [OF refl], auto simp: outbox_inv_def outbox_record_ok_def wrap64_add_one)
qed simp

lemma put_transfer_frame [simp]:
  "ms_transfers (put_transfer s t) = (ms_transfers s)(t_ID t \<mapsto> t)"
  "ms_idempotency (put_transfer s t) = ms_idempotency s"
  "ms_callbacks (put_transfer s t) = ms_callbacks s"
  "ms_events (put_transfer s t) = ms_events s"
  "ms_audit (put_transfer s t) = ms_audit s"
  "ms_nextSeq (put_transfer s t) = ms_nextSeq s"
  by (simp_all add: put_transfer_def)

lemma append_audit_frame [simp]:
  "ms_transfers (append_audit s aus) = ms_transfers s"
  "ms_idempotency (append_audit s aus) = ms_idempotency s"
  "ms_callbacks (append_audit s aus) = ms_callbacks s"
  "ms_events (append_audit s aus) = ms_events s"
  "ms_nextSeq (append_audit s aus) = ms_nextSeq s"
  "ms_audit (append_audit s aus) = ms_audit s @ aus"
  by (simp_all add: append_audit_def)

lemma outbox_inv_frame [simp]:
  "outbox_inv (append_audit s aus) = outbox_inv s"
  "outbox_inv (put_transfer s t) = outbox_inv s"
  "outbox_inv (s\<lparr> ms_idempotency := m \<rparr>) = outbox_inv s"
  "outbox_inv (s\<lparr> ms_callbacks := m \<rparr>) = outbox_inv s"
  by (simp_all add: outbox_inv_def)

lemma mem_write_frame [simp]:
  "ms_transfers (mem_write s t evs aus) = (ms_transfers s)(t_ID t \<mapsto> t)"
  "ms_idempotency (mem_write s t evs aus) = ms_idempotency s"
  "ms_callbacks (mem_write s t evs aus) = ms_callbacks s"
  "ms_audit (mem_write s t evs aus) = ms_audit s @ aus"
  "map ob_Event (ms_events (mem_write s t evs aus)) = map ob_Event (ms_events s) @ evs"
  "outbox_inv s \<Longrightarrow> outbox_inv (mem_write s t evs aus)"
  by (simp_all add: mem_write_def outbox_inv_appendEvents)

lemma mem_write_Nil [simp]: "mem_write s t [] [] = put_transfer s t"
  by (simp add: mem_write_def append_audit_def)

lemma own_transfer_Inr:
  "own_transfer s tn i = Inr t \<longleftrightarrow> ms_transfers s i = Some t \<and> t_TenantID t = tn"
  by (auto simp: own_transfer_def split: option.splits)

lemma put_transfer_commute:
  "put_transfer (s\<lparr> ms_idempotency := m \<rparr>) t = (put_transfer s t)\<lparr> ms_idempotency := m \<rparr>"
  "put_transfer (s\<lparr> ms_callbacks := m \<rparr>) t = (put_transfer s t)\<lparr> ms_callbacks := m \<rparr>"
  by (cases s, simp add: put_transfer_def)+

lemma Insert_cases:
  assumes "MemoryStore_InsertTransfer e s t evs aus = (r, s')"
  obtains (conflict) err where "r = Some err" "errors_Is err ErrConflict" "s' = s"
    "ms_idempotency s (idem_key (t_TenantID t) (t_IdempotencyKey t)) \<noteq> None \<or> ms_transfers s (t_ID t) \<noteq> None"
  | (written) "r = None" "ms_transfers s (t_ID t) = None"
    "ms_idempotency s (idem_key (t_TenantID t) (t_IdempotencyKey t)) \<in> {None, Some (t_ID t)}"
    "s' = mem_write (s\<lparr> ms_idempotency := (ms_idempotency s)
                          (idem_key (t_TenantID t) (t_IdempotencyKey t) \<mapsto> t_ID t) \<rparr>) t evs aus"
  using assms
  by (cases "ms_idempotency s (idem_key (t_TenantID t) (t_IdempotencyKey t))")
    (auto simp: MemoryStore_InsertTransfer_def Let_def mem_write_def put_transfer_commute split: if_splits)

lemma Claim_cases:
  assumes op: "MemoryStore_ClaimSPISubmission e s tn i tok until = (r, s')"
  obtains (failed) err where "r = Inl err" "s' = s"
  | (replay) t where "r = Inr (t, True)" "s' = s" "own_transfer s tn i = Inr t" "t_Status t = StatusApproved"
  | (written) t t' where "r = Inr (t', False)" "own_transfer s tn i = Inr t" "s' = mem_write s t' [] []"
    "Transfer_ClaimSPISubmission t tok until (me_now e) = Inr t'"
proof -
  have "(\<exists>err. (r, s') = (Inl err, s)) \<or>
    (\<exists>t. (r, s') = (Inr (t, True), s) \<and> own_transfer s tn i = Inr t \<and> t_Status t = StatusApproved) \<or>
    (\<exists>t t'. (r, s') = (Inr (t', False), mem_write s t' [] []) \<and> own_transfer s tn i = Inr t \<and>
       Transfer_ClaimSPISubmission t tok until (me_now e) = Inr t')"
    unfolding op [symmetric] MemoryStore_ClaimSPISubmission_def by (auto split: option.split sum.split)
  then show thesis using that by blast
qed

lemma Record_cases:
  assumes op: "MemoryStore_RecordSPISubmission e s tn i tok m evs au = (r, s')"
  obtains (failed) err where "r = Inl err" "s' = s"
  | (replay) t where "r = Inr (t, True)" "s' = s" "own_transfer s tn i = Inr t" "t_Status t = StatusApproved"
    "t_SPIMessageID t = sm_MessageID m"
  | (written) t t' where "r = Inr (t', False)" "own_transfer s tn i = Inr t" "s' = mem_write s t' evs [au]"
    "Transfer_RecordSPISubmission t tok m = Inr t'"
proof -
  have "(\<exists>err. (r, s') = (Inl err, s)) \<or>
    (\<exists>t. (r, s') = (Inr (t, True), s) \<and> own_transfer s tn i = Inr t \<and> t_Status t = StatusApproved \<and>
       t_SPIMessageID t = sm_MessageID m) \<or>
    (\<exists>t t'. (r, s') = (Inr (t', False), mem_write s t' evs [au]) \<and> own_transfer s tn i = Inr t \<and>
       Transfer_RecordSPISubmission t tok m = Inr t')"
    unfolding op [symmetric] MemoryStore_RecordSPISubmission_def mem_write_def by (auto split: option.split sum.split)
  then show thesis using that by blast
qed

lemma Release_cases:
  assumes op: "MemoryStore_ReleaseSPISubmission e s tn i tok msg retry = (r, s')"
  obtains (quiet) "s' = s"
  | (written) t t' where "r = None" "own_transfer s tn i = Inr t" "s' = mem_write s t' [] []"
    "Transfer_ReleaseSPISubmission t tok msg retry (me_now e) = Inr t'"
proof -
  have "snd (r, s') = s \<or>
    (\<exists>t t'. (r, s') = (None, mem_write s t' [] []) \<and> own_transfer s tn i = Inr t \<and>
       Transfer_ReleaseSPISubmission t tok msg retry (me_now e) = Inr t')"
    unfolding op [symmetric] MemoryStore_ReleaseSPISubmission_def by (auto split: option.split sum.split)
  then show thesis using that by auto
qed

lemma Review_cases:
  assumes op: "MemoryStore_RecordReviewDecision e s tn i st reason evs au = (r, s')"
  obtains (failed) err where "r = Inl err" "s' = s"
  | (written) t t' where "r = Inr t'" "own_transfer s tn i = Inr t" "s' = mem_write s t' evs [au]"
    "Transfer_RecordReviewDecision t st reason (au_CreatedAt au) = Inr t'"
proof -
  have "(\<exists>err. (r, s') = (Inl err, s)) \<or>
    (\<exists>t t'. (r, s') = (Inr t', mem_write s t' evs [au]) \<and> own_transfer s tn i = Inr t \<and>
       Transfer_RecordReviewDecision t st reason (au_CreatedAt au) = Inr t')"
    unfolding op [symmetric] MemoryStore_RecordReviewDecision_def mem_write_def by (auto split: sum.split)
  then show thesis using that by blast
qed

definition callback_key :: "string \<Rightarrow> SettlementCallback \<Rightarrow> string" where
  "callback_key tenantID cb = tenantID @ '':'' @ cb_SPIMessageID cb"

definition callback_hash :: "SettlementCallback \<Rightarrow> string" where
  "callback_hash cb =
     (if cb_CallbackHash cb = '''' then SettlementCallback_Fingerprint cb else cb_CallbackHash cb)"

lemma UpdateSettlement_unfold:
  "MemoryStore_UpdateSettlement e s tn i cb evs au =
     (case own_transfer s tn i of
        Inl err \<Rightarrow> (Inl err, s)
      | Inr t \<Rightarrow> (case ms_callbacks s (callback_key tn cb) of
          Some h \<Rightarrow> if h = callback_hash cb then (Inr (t, True), s)
                    else (Inl (Suffixed (Sentinel ErrConflict)
                                ''conflicting settlement callback for terminal transfer''), s)
        | None \<Rightarrow> (case Transfer_RecordSettlement t cb of
            Inl err \<Rightarrow> (Inl err, s)
          | Inr t' \<Rightarrow> (Inr (t', False),
              mem_write (s\<lparr> ms_callbacks := (ms_callbacks s)(callback_key tn cb \<mapsto> callback_hash cb) \<rparr>)
                t' evs [au]))))"
  unfolding MemoryStore_UpdateSettlement_def Let_def callback_key_def callback_hash_def
    mem_write_def put_transfer_commute put_transfer_frame
  by (rule refl)

lemma Settle_cases:
  assumes op: "MemoryStore_UpdateSettlement e s tn i cb evs au = (r, s')"
  obtains (failed) err where "r = Inl err" "s' = s"
  | (replay) t where "r = Inr (t, True)" "s' = s" "own_transfer s tn i = Inr t"
    "ms_callbacks s (callback_key tn cb) = Some (callback_hash cb)"
  | (written) t t' where "r = Inr (t', False)" "own_transfer s tn i = Inr t"
    "Transfer_RecordSettlement t cb = Inr t'" "ms_callbacks s (callback_key tn cb) = None"
    "s' = mem_write (s\<lparr> ms_callbacks := (ms_callbacks s)(callback_key tn cb \<mapsto> callback_hash cb) \<rparr>)
            t' evs [au]"
proof -
  have "(\<exists>err. (r, s') = (Inl err, s)) \<or>
    (\<exists>t. (r, s') = (Inr (t, True), s) \<and> own_transfer s tn i = Inr t \<and>
       ms_callbacks s (callback_key tn cb) = Some (callback_hash cb)) \<or>
    (\<exists>t t'. (r, s') = (Inr (t', False),
         mem_write (s\<lparr> ms_callbacks := (ms_callbacks s)(callback_key tn cb \<mapsto> callback_hash cb) \<rparr>) t' evs [au]) \<and>
       own_transfer s tn i = Inr t \<and> Transfer_RecordSettlement t cb = Inr t' \<and> ms_callbacks s (callback_key tn cb) = None)"
    unfolding op [symmetric] UpdateSettlement_unfold by (auto split: option.split sum.split)
  then show thesis using that by blast
qed

section \<open>The invariant holds in every reachable state\<close>

lemma Transfer_identity_fields:
  assumes "Transfer_identity t' = Transfer_identity t"
  shows "t_ID t' = t_ID t" "t_TenantID t' = t_TenantID t" "t_IdempotencyKey t' = t_IdempotencyKey t"
    "t_RequestHash t' = t_RequestHash t"
  using assms by (simp_all add: Transfer_identity_def)

lemma settled_terminal: "settled t \<Longrightarrow> TransferStatus_Terminal (t_Status t)"
  by (auto simp: settled_def TransferStatus_Terminal_def)

lemma mem_inv_transfer:
  "mem_inv s \<Longrightarrow> ms_transfers s i = Some t \<Longrightarrow> t_ID t = i \<and> Transfer_inv t \<and> CHR '':'' \<notin> set (t_TenantID t)"
  by (auto simp: mem_inv_def transfers_inv_def)

lemma not_settled_step:
  "mem_inv s \<Longrightarrow> ms_transfers s i = Some t \<Longrightarrow> Transfer_step t t' \<Longrightarrow> \<not> settled t"
  using Transfer_step_terminal mem_inv_transfer settled_terminal by blast

lemma write_transfers_inv:
  assumes inv: "mem_inv s" and t: "ms_transfers s i = Some t" and step: "Transfer_step t t'"
  shows "transfers_inv (mem_write (s\<lparr> ms_callbacks := cbs \<rparr>) t' evs aus) \<and>
         idempotency_inv (mem_write (s\<lparr> ms_callbacks := cbs \<rparr>) t' evs aus)"
proof -
  note id = Transfer_identity_fields [OF Transfer_step_identity [OF step]]
  have "t_ID t = i" "Transfer_inv t'"
    using mem_inv_transfer [OF inv t] Transfer_step_inv [OF step] by auto
  with inv t id show ?thesis
    unfolding mem_inv_def transfers_inv_def idempotency_inv_def
    by (simp add: fun_upd_def) (metis option.inject)
qed

lemma write_inv:
  assumes inv: "mem_inv s" and t: "ms_transfers s i = Some t" and step: "Transfer_step t t'"
    and "\<not> settled t'"
  shows "mem_inv (mem_write s t' evs aus)"
proof -
  have "t_ID t' = i" "\<not> settled t"
    using mem_inv_transfer [OF inv t] Transfer_identity_fields [OF Transfer_step_identity [OF step]]
      not_settled_step [OF inv t step] by auto
  then have "callbacks_inv (mem_write s t' evs aus)"
    using inv t assms(4) unfolding mem_inv_def callbacks_inv_def
    by (simp add: fun_upd_def) (metis option.inject)
  with write_transfers_inv [OF inv t step, of "ms_callbacks s"] inv show ?thesis
    by (simp add: mem_inv_def)
qed

lemma settle_write_inv:
  assumes inv: "mem_inv s" and t: "ms_transfers s i = Some t" and tn: "t_TenantID t = tn"
    and settle: "Transfer_RecordSettlement t cb = Inr t'"
  shows "mem_inv (mem_write (s\<lparr> ms_callbacks := (ms_callbacks s)(callback_key tn cb \<mapsto> h) \<rparr>) t' evs aus)"
    (is "mem_inv ?s")
proof -
  note step = Transfer_step.settle [OF settle]
  have t': "t_ID t' = i" "\<not> settled t" "t_TenantID t' = tn"
    using mem_inv_transfer [OF inv t] Transfer_identity_fields [OF Transfer_step_identity [OF step]]
      not_settled_step [OF inv t step] tn by auto
  moreover from settle have "settled t'" "t_SPIMessageID t' = cb_SPIMessageID cb"
    by (auto simp: RecordSettlement_Inr settled_def)
  ultimately have "callbacks_inv ?s"
    using inv t unfolding mem_inv_def callbacks_inv_def
    by (simp add: fun_upd_def callback_key_def) (metis option.inject)
  with write_transfers_inv [OF inv t step] inv show ?thesis
    by (simp add: mem_inv_def)
qed

lemma idem_key_inj:
  assumes "idem_key a k = idem_key b j" and "CHR '':'' \<notin> set a" and "CHR '':'' \<notin> set b"
  shows "a = b \<and> k = j"
  using assms append_sep_inj [of "CHR '':''" a b k j] by (simp add: idem_key_def)

lemma insert_inv:
  assumes inv: "mem_inv s" and new: "Transfer_new t" "CHR '':'' \<notin> set (t_TenantID t)"
    and free: "ms_transfers s (t_ID t) = None"
    and idem: "ms_idempotency s (idem_key (t_TenantID t) (t_IdempotencyKey t)) \<in> {None, Some (t_ID t)}"
  shows "mem_inv (mem_write (s\<lparr> ms_idempotency := (ms_idempotency s)
                          (idem_key (t_TenantID t) (t_IdempotencyKey t) \<mapsto> t_ID t) \<rparr>) t evs aus)"
    (is "mem_inv ?s")
proof -
  from inv free idem have none: "ms_idempotency s (idem_key (t_TenantID t) (t_IdempotencyKey t)) = None"
    unfolding mem_inv_def idempotency_inv_def by fastforce
  have "transfers_inv ?s"
    using inv new none free Transfer_new_inv unfolding mem_inv_def transfers_inv_def
    by (simp add: fun_upd_def) (metis option.distinct(1))
  moreover have "idempotency_inv ?s"
    using inv new none free unfolding mem_inv_def idempotency_inv_def
    by (simp add: fun_upd_def) (metis option.distinct(1))
  moreover from new have "\<not> settled t" by (auto simp: Transfer_new_def settled_def)
  then have "callbacks_inv ?s"
    using inv free unfolding mem_inv_def callbacks_inv_def
    by (simp add: fun_upd_def) (metis option.distinct(1))
  ultimately show ?thesis using inv by (simp add: mem_inv_def)
qed

text \<open>The loops over the outbox keep everything but the fields of the delivery.\<close>

lemma claim_loop_frame:
  "claim_loop now limit tok until cs rs = (cs', rs') \<Longrightarrow> map ob_Event rs' = map ob_Event rs \<and>
     map ob_Sequence rs' = map ob_Sequence rs \<and> map ob_Published rs' = map ob_Published rs"
  by (induction rs arbitrary: cs cs' rs')
    (auto simp: Let_def claim_record_def split: if_splits prod.splits)

lemma claim_record_ok: "outbox_due now r \<Longrightarrow> tok \<noteq> '''' \<Longrightarrow> outbox_record_ok r \<Longrightarrow>
    outbox_record_ok (claim_record tok until r)"
  by (auto simp: claim_record_def outbox_record_ok_def outbox_due_def)

lemma claim_loop_ok:
  "claim_loop now limit tok until cs rs = (cs', rs') \<Longrightarrow> tok \<noteq> '''' \<Longrightarrow>
     \<forall>r \<in> set rs. outbox_record_ok r \<Longrightarrow> \<forall>r \<in> set rs'. outbox_record_ok r"
  by (induction rs arbitrary: cs cs' rs')
    (auto simp: Let_def claim_record_ok split: if_splits prod.splits)

lemma mark_loop_frame:
  assumes "\<And>r. ob_Event (f r) = ob_Event r \<and> ob_Sequence (f r) = ob_Sequence r"
  shows "mark_loop f q tok rs = (err, rs') \<Longrightarrow> map ob_Event rs' = map ob_Event rs \<and>
     map ob_Sequence rs' = map ob_Sequence rs"
  by (induction rs arbitrary: rs') (auto simp: assms split: if_splits prod.splits)

lemma mark_loop_ok:
  assumes "\<And>r. outbox_record_ok r \<Longrightarrow> ob_ClaimToken r \<noteq> '''' \<Longrightarrow> outbox_record_ok (f r)"
  shows "mark_loop f q tok rs = (err, rs') \<Longrightarrow> \<forall>r \<in> set rs. outbox_record_ok r \<Longrightarrow>
     \<forall>r \<in> set rs'. outbox_record_ok r"
  by (induction rs arbitrary: rs') (auto simp: assms split: if_splits prod.splits)

lemma mark_loop_failed: "mark_loop f q tok rs = (Some err, rs') \<Longrightarrow> rs' = rs"
  by (induction rs arbitrary: rs') (auto split: if_splits prod.splits)

lemma delivery_records:
  "ob_Event (published_record at r) = ob_Event r" "ob_Sequence (published_record at r) = ob_Sequence r"
  "ob_Event (failed_record msg retry r) = ob_Event r" "ob_Sequence (failed_record msg retry r) = ob_Sequence r"
  "outbox_record_ok (published_record at r)"
  "outbox_record_ok r \<Longrightarrow> ob_ClaimToken r \<noteq> '''' \<Longrightarrow> outbox_record_ok (failed_record msg retry r)"
  by (auto simp: published_record_def failed_record_def outbox_record_ok_def)

lemma outbox_update_inv:
  assumes "mem_inv s" and "map ob_Sequence rs = map ob_Sequence (ms_events s)"
    and "\<forall>r \<in> set rs. outbox_record_ok r"
  shows "mem_inv (s\<lparr> ms_events := rs \<rparr>)"
proof -
  from assms(2) have "length rs = length (ms_events s)" by (metis length_map)
  with assms show ?thesis
    by (simp add: mem_inv_def outbox_inv_def transfers_inv_def idempotency_inv_def callbacks_inv_def)
qed

lemma ClaimOutbox_cases:
  assumes op: "MemoryStore_ClaimPendingOutbox e now s limit tok until = (r, s')"
  obtains (failed) err where "r = Inl err" "s' = s"
  | (written) rs cs where "claim_loop (me_now e) (batch_limit limit) tok until [] (ms_events s) = (cs, rs)"
    "tok \<noteq> ''''" "r = Inr (sort_key ob_Sequence cs)" "s' = s\<lparr> ms_events := rs \<rparr>"
proof -
  obtain cs rs where loop: "claim_loop (me_now e) (batch_limit limit) tok until [] (ms_events s) = (cs, rs)"
    by (meson surj_pair)
  then have "(\<exists>err. (r, s') = (Inl err, s)) \<or>
     tok \<noteq> '''' \<and> (r, s') = (Inr (sort_key ob_Sequence cs), s\<lparr> ms_events := rs \<rparr>)"
    unfolding op [symmetric] MemoryStore_ClaimPendingOutbox_def by (simp split: option.split)
  with loop show thesis using that by blast
qed

lemma mark_cases:
  fixes r :: "go_error option"
  assumes op: "(case MemoryStore_Health e s of Some err \<Rightarrow> (Some err, s)
      | None \<Rightarrow> (let (err, evs) = mark_loop f q tok (ms_events s) in (err, s\<lparr> ms_events := evs \<rparr>))) = (r, s')"
  obtains (failed) err where "r = Some err" "s' = s"
  | (written) rs where "mark_loop f q tok (ms_events s) = (None, rs)" "r = None" "s' = s\<lparr> ms_events := rs \<rparr>"
proof -
  obtain err rs where loop: "mark_loop f q tok (ms_events s) = (err, rs)"
    by (meson surj_pair)
  have "rs = ms_events s" if "err \<noteq> None"
    using that loop by (auto dest: mark_loop_failed)
  with loop have "(\<exists>err. (r, s') = (Some err, s)) \<or>
     err = None \<and> (r, s') = (None, s\<lparr> ms_events := rs \<rparr>)"
    unfolding op [symmetric] by (cases err) (simp_all split: option.split)
  with loop show thesis using that by blast
qed

lemma Published_cases:
  assumes op: "MemoryStore_MarkOutboxPublished e s q tok at = (r, s')"
  obtains (failed) err where "r = Some err" "s' = s"
  | (written) rs where "mark_loop (published_record at) q tok (ms_events s) = (None, rs)" "r = None" "s' = s\<lparr> ms_events := rs \<rparr>"
  using op [unfolded MemoryStore_MarkOutboxPublished_def] that by (rule mark_cases)

lemma Failed_cases:
  assumes op: "MemoryStore_MarkOutboxFailed e s q tok msg retry = (r, s')"
  obtains (failed) err where "r = Some err" "s' = s"
  | (written) rs where "mark_loop (failed_record msg retry) q tok (ms_events s) = (None, rs)" "r = None" "s' = s\<lparr> ms_events := rs \<rparr>"
  using op [unfolded MemoryStore_MarkOutboxFailed_def] that by (rule mark_cases)

lemma mem_inv_outbox: "mem_inv s \<Longrightarrow> \<forall>r \<in> set (ms_events s). outbox_record_ok r"
  by (simp add: mem_inv_def outbox_inv_def)

lemma method_status:
  "Transfer_ClaimSPISubmission t tok until now = Inr t' \<Longrightarrow>
     t_Status t = StatusAccepted \<and> t_Status t' = StatusAccepted"
  "Transfer_RecordSPISubmission t tok m = Inr t' \<Longrightarrow>
     t_Status t = StatusAccepted \<and> t_Status t' = StatusApproved"
  "Transfer_RecordReviewDecision t st reason at = Inr t' \<Longrightarrow>
     t_Status t = StatusReview \<and> t_Status t' \<in> {StatusAccepted, StatusBlocked}"
  by (auto simp: Transfer_methods)

lemma release_status:
  assumes rel: "Transfer_ReleaseSPISubmission t tok msg retry now = Inr t'" and inv: "Transfer_inv t"
  shows "t_Status t' = t_Status t \<and> t_Status t \<in> {StatusAccepted, StatusApproved}"
proof (cases "t_Status t = StatusApproved \<and> t_SPIMessageID t \<noteq> ''''")
  case True
  with rel show ?thesis by (simp add: ReleaseSPISubmission_Inr)
next
  case False
  with rel have "t_SPIClaimToken t \<noteq> ''''"
    and "t' = t\<lparr> t_SPIClaimToken := '''', t_SPIClaimedUntil := Some retry, t_SPILastError := msg,
               t_UpdatedAt := now \<rparr>"
    by (auto simp only: ReleaseSPISubmission_Inr if_False)
  with Transfer_inv_claimed [OF inv] show ?thesis by simp
qed

text \<open>What one call of any caller does: nothing, one write of a transfer, or a change of the outbox.\<close>

lemma mem_step_cases:
  assumes "mem_step s l s'" and inv: "mem_inv s"
  obtains (quiet) "s' = s" "l \<notin> range Inserted \<union> range Approved \<union> range Settled"
  | (insert) t evs aus where "Transfer_new t" "CHR '':'' \<notin> set (t_TenantID t)" "l = Inserted (t_ID t)"
    "ms_transfers s (t_ID t) = None"
    "ms_idempotency s (idem_key (t_TenantID t) (t_IdempotencyKey t)) \<in> {None, Some (t_ID t)}"
    "s' = mem_write (s\<lparr> ms_idempotency := (ms_idempotency s)
                          (idem_key (t_TenantID t) (t_IdempotencyKey t) \<mapsto> t_ID t) \<rparr>) t evs aus"
  | (update) i t t' evs aus where "ms_transfers s i = Some t" "Transfer_step t t'" "\<not> settled t'"
    "s' = mem_write s t' evs aus" "l = (if t_Status t = StatusAccepted \<and> t_Status t' = StatusApproved
       then Approved (t_ID t') else Tau)"
  | (settle) i t t' tn cb evs au where "ms_transfers s i = Some t" "t_TenantID t = tn"
    "Transfer_RecordSettlement t cb = Inr t'" "l = Settled (t_ID t')"
    "s' = mem_write (s\<lparr> ms_callbacks := (ms_callbacks s)(callback_key tn cb \<mapsto> callback_hash cb) \<rparr>)
            t' evs [au]" "ms_callbacks s (callback_key tn cb) = None"
  | (claims) now limit tok until cs rs where
    "claim_loop now limit tok until [] (ms_events s) = (cs, rs)" "tok \<noteq> ''''"
    "s' = s\<lparr> ms_events := rs \<rparr>" "l = OutboxClaim now"
  | (mark) f q tok rs at msg where "mark_loop f q tok (ms_events s) = (None, rs)"
    "s' = s\<lparr> ms_events := rs \<rparr>" "l = OutboxAck tok"
    "f = published_record at \<or> f = failed_record msg at"
  using assms(1)
proof (cases rule: mem_step.cases)
  case (insert t e evs aus r)
  from insert(4) show thesis
    using insert that(1,2) by (cases rule: Insert_cases) auto
next
  case (claim e tn i tok until r)
  from claim(2) show thesis
  proof (cases rule: Claim_cases)
    case (written t t')
    then show thesis
      using method_status(1) [OF written(4)] Transfer_step.claim [OF written(4)] claim(1)
      by (intro that(3) [of i t t' "[]" "[]"]) (auto simp: own_transfer_Inr settled_def)
  qed (use claim(1) that(1) in auto)
next
  case (record_spi e tn i tok m evs au r)
  from record_spi(2) show thesis
  proof (cases rule: Record_cases)
    case (written t t')
    then show thesis
      using method_status(2) [OF written(4)] Transfer_step.record_spi [OF written(4)] record_spi(1)
      by (intro that(3) [of i t t' evs "[au]"]) (auto simp: own_transfer_Inr settled_def write_label_def)
  qed (use record_spi(1) that(1) in \<open>auto simp: write_label_def\<close>)
next
  case (release e tn i tok msg retry r)
  from release(2) show thesis
  proof (cases rule: Release_cases)
    case (written t t')
    then have "Transfer_inv t" using mem_inv_transfer [OF inv] by (auto simp: own_transfer_Inr)
    with written show thesis
      using release_status [OF written(4)] Transfer_step.release [OF written(4)] release(1)
      by (intro that(3) [of i t t' "[]" "[]"]) (auto simp: own_transfer_Inr settled_def)
  qed (use release(1) that(1) in auto)
next
  case (review e tn i st reason evs au r)
  from review(2) show thesis
  proof (cases rule: Review_cases)
    case (written t t')
    then show thesis
      using method_status(3) [OF written(4)] Transfer_step.review [OF written(4)] review(1)
      by (intro that(3) [of i t t' evs "[au]"]) (auto simp: own_transfer_Inr settled_def)
  qed (use review(1) that(1) in auto)
next
  case (settle e tn i cb evs au r)
  from settle(2) show thesis
  proof (cases rule: Settle_cases)
    case (written t t')
    then show thesis
      using settle(1) by (intro that(4) [of i t tn cb t' evs au]) (auto simp: own_transfer_Inr write_label_def)
  qed (use settle(1) that(1) in \<open>auto simp: write_label_def\<close>)
next
  case (outbox_claim e now limit tok until r)
  from outbox_claim(2) show thesis
    using outbox_claim(1) that(1,5) by (cases rule: ClaimOutbox_cases) auto
next
  case (outbox_published e q tok at r)
  from outbox_published(2) show thesis
  proof (cases rule: Published_cases)
    case (written rs)
    then show thesis
      using outbox_published(1) by (intro that(6) [of "published_record at" q tok rs at "[]"]) auto
  qed (use outbox_published(1) that(1) in auto)
next
  case (outbox_failed e q tok msg retry r)
  from outbox_failed(2) show thesis
  proof (cases rule: Failed_cases)
    case (written rs)
    then show thesis
      using outbox_failed(1) by (intro that(6) [of "failed_record msg retry" q tok rs retry msg]) auto
  qed (use outbox_failed(1) that(1) in auto)
qed

lemma mem_step_inv:
  assumes "mem_step s l s'" and inv: "mem_inv s"
  shows "mem_inv s'"
  using assms
proof (cases rule: mem_step_cases)
  case quiet
  with inv show ?thesis by simp
next
  case (insert t evs aus)
  with inv show ?thesis using insert_inv by simp
next
  case (update i t t' evs aus)
  with inv show ?thesis using write_inv by simp
next
  case (settle i t t' tn cb evs au)
  with inv show ?thesis using settle_write_inv by simp
next
  case (claims now limit tok until cs rs)
  with inv show ?thesis
    using claim_loop_frame [OF claims(1)] claim_loop_ok [OF claims(1,2)] mem_inv_outbox [OF inv]
    by (simp add: outbox_update_inv)
next
  case (mark f q tok rs at msg)
  have "outbox_record_ok (f r)" if "outbox_record_ok r" "ob_ClaimToken r \<noteq> ''''" for r
    using mark(4) that by (auto simp: delivery_records)
  moreover have "ob_Event (f r) = ob_Event r \<and> ob_Sequence (f r) = ob_Sequence r" for r
    using mark(4) by (auto simp: delivery_records)
  ultimately show ?thesis
    using inv mark mark_loop_frame [OF _ mark(1)] mark_loop_ok [OF _ mark(1)] mem_inv_outbox [OF inv]
    by (simp add: outbox_update_inv)
qed

section \<open>The view of the store and its runs\<close>

definition mem_view :: "MemoryStore \<Rightarrow> store_view" where
  "mem_view s =
     \<lparr> sv_transfers = ms_transfers s, sv_events = map ob_Event (ms_events s), sv_audit = ms_audit s,
       sv_callbacks = (\<lambda>tenantID messageID. ms_callbacks s (tenantID @ '':'' @ messageID)) \<rparr>"

definition mem_rely :: "MemoryStore \<Rightarrow> MemoryStore \<Rightarrow> bool" where
  "mem_rely s s' \<longleftrightarrow> (\<exists>ls. mem_run s ls s')"

lemma mem_view_simps [simp]:
  "sv_transfers (mem_view s) = ms_transfers s"
  "sv_events (mem_view s) = map ob_Event (ms_events s)"
  "sv_audit (mem_view s) = ms_audit s"
  "sv_callbacks (mem_view s) tn m = ms_callbacks s (tn @ '':'' @ m)"
  by (simp_all add: mem_view_def)

lemma write_evolves:
  assumes "mem_inv s" and "ms_transfers s i = Some t" and "Transfer_step t t'"
    and "\<forall>k h. ms_callbacks s k = Some h \<longrightarrow> cbs k = Some h"
  shows "view_evolves (mem_view s) (mem_view (mem_write (s\<lparr> ms_callbacks := cbs \<rparr>) t' evs aus))"
proof -
  have "t_ID t' = i"
    using mem_inv_transfer [OF assms(1,2)] Transfer_identity_fields [OF Transfer_step_identity [OF assms(3)]]
    by simp
  with assms show ?thesis by (auto simp: view_evolves_def)
qed

lemma insert_evolves:
  "ms_transfers s (t_ID t) = None \<Longrightarrow>
     view_evolves (mem_view s) (mem_view (mem_write (s\<lparr> ms_idempotency := m \<rparr>) t evs aus))"
  by (auto simp: view_evolves_def)

lemma outbox_evolves:
  "map ob_Event rs = map ob_Event (ms_events s) \<Longrightarrow>
     view_evolves (mem_view s) (mem_view (s\<lparr> ms_events := rs \<rparr>))"
  by (auto simp: view_evolves_def)

lemma mem_step_evolves:
  assumes "mem_step s l s'" and inv: "mem_inv s"
  shows "view_evolves (mem_view s) (mem_view s')"
  using assms
proof (cases rule: mem_step_cases)
  case (insert t evs aus)
  then show ?thesis by (simp add: insert_evolves)
next
  case (update i t t' evs aus)
  with inv show ?thesis using write_evolves [of s i t t' "ms_callbacks s"] by simp
next
  case (settle i t t' tn cb evs au)
  with inv show ?thesis
    by (auto intro!: write_evolves Transfer_step.settle)
next
  case (claims now limit tok until cs rs)
  then show ?thesis using claim_loop_frame outbox_evolves by simp
next
  case (mark f q tok rs at msg)
  have "ob_Event (f r) = ob_Event r \<and> ob_Sequence (f r) = ob_Sequence r" for r
    using mark(4) by (auto simp: delivery_records)
  with mark show ?thesis using mark_loop_frame [OF _ mark(1)] outbox_evolves by simp
qed simp

lemma mem_run_inv: "mem_run s ls s' \<Longrightarrow> mem_inv s \<Longrightarrow> mem_inv s'"
  by (induction rule: mem_run.induct) (auto intro: mem_step_inv)

lemma mem_run_evolves: "mem_run s ls s' \<Longrightarrow> mem_inv s \<Longrightarrow> view_evolves (mem_view s) (mem_view s')"
  by (induction rule: mem_run.induct) (auto intro: mem_step_evolves mem_run_inv view_evolves_trans)

lemma mem_run_append: "mem_run s' ls' s'' \<Longrightarrow> mem_run s ls s' \<Longrightarrow> mem_run s (ls @ ls') s''"
  by (induction rule: mem_run.induct) (auto intro: mem_run.step simp flip: append_assoc)

lemma mem_inv_new: "mem_inv NewMemoryStore"
  by (simp add: mem_inv_def NewMemoryStore_def transfers_inv_def idempotency_inv_def callbacks_inv_def
      outbox_inv_def wrap64_id int64_min_def int64_max_def)

lemma mem_reachable: "mem_run NewMemoryStore ls s \<Longrightarrow> mem_inv s"
  using mem_run_inv mem_inv_new by blast

lemma mem_step_run: "mem_step s l s' \<Longrightarrow> mem_run s [l] s'"
  using mem_run.step [OF mem_run.stop] by fastforce

lemma mem_rely_laws:
  "mem_rely s s" "mem_rely s s' \<Longrightarrow> mem_rely s' s'' \<Longrightarrow> mem_rely s s''"
  "mem_rely s s' \<Longrightarrow> mem_inv s \<Longrightarrow> mem_inv s'"
  "mem_rely s s' \<Longrightarrow> mem_inv s \<Longrightarrow> view_evolves (mem_view s) (mem_view s')"
  "mem_step s l s' \<Longrightarrow> mem_rely s s'"
  unfolding mem_rely_def
  by (auto intro: mem_run.stop mem_run_append mem_run_inv mem_run_evolves mem_step_run)

lemma mem_view_inv: "mem_inv s \<Longrightarrow> view_inv (mem_view s)"
  unfolding view_inv_def mem_inv_def transfers_inv_def by (simp) (metis option.inject)

lemma find_result:
  "MemoryStore_FindByIdempotency e s tn k = Inr r \<Longrightarrow>
     r = (case ms_idempotency s (idem_key tn k) of None \<Rightarrow> None | Some i \<Rightarrow> ms_transfers s i)"
  by (auto simp: MemoryStore_FindByIdempotency_def split: option.splits)

lemma idempotent_lookup:
  assumes "mem_inv s" and "view_idempotent (mem_view s) tn k t"
  shows "ms_transfers s (t_ID t) = Some t \<and> ms_idempotency s (idem_key tn k) = Some (t_ID t)"
proof -
  from assms(2) have t: "ms_transfers s (t_ID t) = Some t" "t_TenantID t = tn" "t_IdempotencyKey t = k"
    by (simp_all add: view_idempotent_def)
  with assms(1) show ?thesis unfolding mem_inv_def transfers_inv_def by blast
qed

lemma idempotent_find:
  assumes "mem_inv s" and "view_idempotent (mem_view s) tn k t"
    and "MemoryStore_FindByIdempotency e s tn k = Inr r"
  shows "r = Some t"
  using idempotent_lookup [OF assms(1,2)] find_result [OF assms(3)] by simp

lemma find_idempotent:
  assumes inv: "mem_inv s" and tn: "CHR '':'' \<notin> set tn"
    and find: "MemoryStore_FindByIdempotency e s tn k = Inr (Some t)"
  shows "view_idempotent (mem_view s) tn k t"
proof -
  from find_result [OF find] obtain i
    where i: "ms_idempotency s (idem_key tn k) = Some i" "ms_transfers s i = Some t"
    by (auto split: option.splits)
  with inv have "idem_key tn k = idem_key (t_TenantID t) (t_IdempotencyKey t)"
    unfolding mem_inv_def idempotency_inv_def by (metis option.inject)
  with tn mem_inv_transfer [OF inv i(2)] have "tn = t_TenantID t \<and> k = t_IdempotencyKey t"
    by (intro idem_key_inj) simp_all
  with mem_inv_transfer [OF inv i(2)] i(2) show ?thesis
    by (simp add: view_idempotent_def)
qed

text \<open>The laws of the contract, one operation at a time.\<close>

lemma own_view: "mem_inv s \<Longrightarrow> own_transfer s tn i = Inr t \<longleftrightarrow> view_owns (mem_view s) tn i t"
  using mem_inv_transfer by (auto simp: own_transfer_Inr view_owns_def)

lemma write_view: "view_write (mem_view s) t evs aus (mem_view (mem_write s t evs aus))"
  by (simp add: view_write_def)

lemma mem_insert_law:
  assumes inv: "mem_inv s" and new: "Transfer_new t" "CHR '':'' \<notin> set (t_TenantID t)"
    and op: "MemoryStore_InsertTransfer e s t evs aus = (r, s')"
  shows "mem_rely s s' \<and> (r \<noteq> None \<longrightarrow> s = s') \<and>
    (r = None \<longrightarrow> (\<exists>s0. s = s0 \<and> sv_transfers (mem_view s0) (t_ID t) = None \<and>
       (\<nexists>u. view_idempotent (mem_view s0) (t_TenantID t) (t_IdempotencyKey t) u) \<and>
       view_write (mem_view s0) t evs aus (mem_view s')))"
proof -
  have rely: "mem_rely s s'"
    using mem_rely_laws(5) mem_step.insert [OF new op] by blast
  from op show ?thesis
  proof (cases rule: Insert_cases)
    case (conflict err)
    with rely show ?thesis by simp
  next
    case written
    have "\<not> view_idempotent (mem_view s) (t_TenantID t) (t_IdempotencyKey t) u" for u
      using idempotent_lookup [OF inv, of "t_TenantID t" "t_IdempotencyKey t" u] written(2,3) by auto
    with rely written show ?thesis by (simp add: view_write_def)
  qed
qed

lemma mem_claim_law:
  assumes inv: "mem_inv s" and op: "MemoryStore_ClaimSPISubmission e s tn i tok until = (r, s')"
  shows "mem_rely s s' \<and> (\<forall>err. r = Inl err \<longrightarrow> s = s') \<and>
    (\<forall>t. r = Inr (t, True) \<longrightarrow> s = s' \<and> view_owns (mem_view s') tn i t \<and> t_Status t = StatusApproved) \<and>
    (\<forall>t'. r = Inr (t', False) \<longrightarrow> (\<exists>s0 t now. s = s0 \<and> view_owns (mem_view s0) tn i t \<and>
       Transfer_ClaimSPISubmission t tok until now = Inr t' \<and> view_write (mem_view s0) t' [] [] (mem_view s')))"
proof -
  have rely: "mem_rely s s'"
    using mem_rely_laws(5) mem_step.claim [OF op] by blast
  from op show ?thesis
    using rely own_view [OF inv] write_view [of s _ "[]" "[]"] by (cases rule: Claim_cases) auto
qed

lemma mem_record_law:
  assumes inv: "mem_inv s" and op: "MemoryStore_RecordSPISubmission e s tn i tok m evs au = (r, s')"
  shows "mem_rely s s' \<and> (\<forall>err. r = Inl err \<longrightarrow> s = s') \<and>
    (\<forall>t. r = Inr (t, True) \<longrightarrow> s = s' \<and> view_owns (mem_view s') tn i t \<and> t_Status t = StatusApproved) \<and>
    (\<forall>t'. r = Inr (t', False) \<longrightarrow> (\<exists>s0 t. s = s0 \<and> view_owns (mem_view s0) tn i t \<and>
       Transfer_RecordSPISubmission t tok m = Inr t' \<and> view_write (mem_view s0) t' evs [au] (mem_view s')))"
proof -
  have rely: "mem_rely s s'"
    using mem_rely_laws(5) mem_step.record_spi [OF op] by blast
  from op show ?thesis
    using rely own_view [OF inv] write_view by (cases rule: Record_cases) auto
qed

lemma mem_release_law:
  assumes inv: "mem_inv s" and op: "MemoryStore_ReleaseSPISubmission e s tn i tok msg retry = (r, s')"
  shows "mem_rely s s' \<and> (s = s' \<or> r = None \<and> (\<exists>s0 t t' now. s = s0 \<and> view_owns (mem_view s0) tn i t \<and>
       Transfer_ReleaseSPISubmission t tok msg retry now = Inr t' \<and> view_write (mem_view s0) t' [] [] (mem_view s')))"
proof -
  have rely: "mem_rely s s'"
    using mem_rely_laws(5) mem_step.release [OF op] by blast
  from op show ?thesis
  proof (cases rule: Release_cases)
    case (written t t')
    with rely own_view [OF inv] write_view [of s t' "[]" "[]"] show ?thesis by blast
  qed (use rely in simp)
qed

lemma mem_review_law:
  assumes inv: "mem_inv s" and op: "MemoryStore_RecordReviewDecision e s tn i st reason evs au = (r, s')"
  shows "mem_rely s s' \<and> (\<forall>err. r = Inl err \<longrightarrow> s = s') \<and>
    (\<forall>t'. r = Inr t' \<longrightarrow> (\<exists>s0 t. s = s0 \<and> view_owns (mem_view s0) tn i t \<and>
       Transfer_RecordReviewDecision t st reason (au_CreatedAt au) = Inr t' \<and>
       view_write (mem_view s0) t' evs [au] (mem_view s')))"
proof -
  have rely: "mem_rely s s'"
    using mem_rely_laws(5) mem_step.review [OF op] by blast
  from op show ?thesis
    using rely own_view [OF inv] write_view by (cases rule: Review_cases) auto
qed

lemma mem_settle_law:
  assumes inv: "mem_inv s" and hash: "cb_CallbackHash cb \<noteq> ''''"
    and op: "MemoryStore_UpdateSettlement e s tn i cb evs au = (r, s')"
  shows "mem_rely s s' \<and> (\<forall>err. r = Inl err \<longrightarrow> s = s') \<and>
    (\<forall>t. r = Inr (t, True) \<longrightarrow> s = s' \<and> view_owns (mem_view s') tn i t \<and>
       sv_callbacks (mem_view s') tn (cb_SPIMessageID cb) = Some (cb_CallbackHash cb)) \<and>
    (\<forall>t'. r = Inr (t', False) \<longrightarrow> (\<exists>s0 t. s = s0 \<and> view_owns (mem_view s0) tn i t \<and>
       sv_callbacks (mem_view s0) tn (cb_SPIMessageID cb) = None \<and>
       Transfer_RecordSettlement t cb = Inr t' \<and> view_write (mem_view s0) t' evs [au] (mem_view s') \<and>
       sv_callbacks (mem_view s') tn (cb_SPIMessageID cb) = Some (cb_CallbackHash cb)))"
proof -
  have rely: "mem_rely s s'"
    using mem_rely_laws(5) mem_step.settle [OF op] by blast
  have h: "callback_hash cb = cb_CallbackHash cb" using hash by (simp add: callback_hash_def)
  from op show ?thesis
  proof (cases rule: Settle_cases)
    case (written t t')
    moreover have "view_write (mem_view s) t' evs [au] (mem_view s')"
      unfolding written(5) by (simp add: view_write_def)
    ultimately show ?thesis
      using rely own_view [OF inv] by (auto simp: callback_key_def h)
  qed (use rely own_view [OF inv] in \<open>auto simp: callback_key_def h\<close>)
qed

lemma pending_mem:
  assumes inv: "mem_inv s" and op: "MemoryStore_PendingSPISubmissions e s n = Inr ts" and t: "t \<in> set ts"
  shows "ms_transfers s (t_ID t) = Some t \<and> spi_pending (me_now e) t"
proof -
  from op t have "t \<in> set (List.map_filter (ms_transfers s) (me_order e))" "spi_pending (me_now e) t"
    by (auto simp: MemoryStore_PendingSPISubmissions_def split: option.splits dest: in_set_takeD)
  then show ?thesis
    using mem_inv_transfer [OF inv] by (auto simp: map_filter_def)
qed

interpretation ms: transfer_store memory_store "\<lambda>_. True" mem_inv "\<lambda>tn. CHR '':'' \<notin> set tn" "(=)"
  mem_rely mem_view
proof (unfold_locales, goal_cases)
  case (9 e s tn k rf s')
  then show ?case
    using find_idempotent [of s tn e k] idempotent_find [of s tn k _ e None]
    by (auto simp: memory_store_def)
next
  case (10 e s t evs aus ri s')
  then show ?case using mem_insert_law by (simp add: memory_store_def)
next
  case (11 e s tn i rg s')
  then show ?case
    using own_view by (auto simp: memory_store_def MemoryStore_GetTransfer_def)
next
  case (12 e s tn i tok until rc s')
  then show ?case using mem_claim_law by (simp add: memory_store_def)
next
  case (13 e s tn i tok m evs au rc s')
  then show ?case using mem_record_law by (simp add: memory_store_def)
next
  case (14 e s tn i tok msg retry ri s')
  then show ?case using mem_release_law by (simp add: memory_store_def)
next
  case (15 e s tn i st reason evs au rg s')
  then show ?case using mem_review_law by (simp add: memory_store_def)
next
  case (16 e s cb tn i evs au rc s')
  then show ?case using mem_settle_law by (simp add: memory_store_def)
next
  case (17 e s n rp s')
  then show ?case
    using pending_mem [of s e n] by (auto simp: memory_store_def spi_pending_def)
qed (auto intro: mem_rely_laws mem_view_inv)

text \<open>The same store shared by any number of concurrent callers keeps the contract.\<close>

interpretation ims: transfer_store "interleaved memory_store" ms.env_ok_interleaved mem_inv
  "\<lambda>tn. CHR '':'' \<notin> set tn" mem_rely mem_rely mem_view
  by (rule ms.interleaved_store)

section \<open>Every transfer is inserted, approved and settled at most once\<close>

definition label_counts :: "MemoryStore \<Rightarrow> mem_label list \<Rightarrow> string \<Rightarrow> bool" where
  "label_counts s ls i \<longleftrightarrow>
     count_list ls (Inserted i) = (if ms_transfers s i = None then 0 else 1) \<and>
     count_list ls (Approved i) = (case ms_transfers s i of None \<Rightarrow> 0 | Some t \<Rightarrow> if spi_known t then 1 else 0) \<and>
     count_list ls (Settled i) = (case ms_transfers s i of None \<Rightarrow> 0 | Some t \<Rightarrow> if settled t then 1 else 0)"

lemma update_known:
  assumes "Transfer_step t t'" and "\<not> settled t'"
  shows "spi_known t' \<longleftrightarrow> spi_known t \<or> t_Status t = StatusAccepted \<and> t_Status t' = StatusApproved"
  using Transfer_step_status [OF assms(1)] assms(2) by (auto simp: spi_known_def settled_def)

lemma label_counts_step:
  assumes step: "mem_step s l s'" and inv: "mem_inv s" and counts: "\<forall>i. label_counts s ls i"
  shows "label_counts s' (ls @ [l]) j"
  using step inv
proof (cases rule: mem_step_cases)
  case quiet
  then have "count_list [l] (Inserted j) = 0" "count_list [l] (Approved j) = 0" "count_list [l] (Settled j) = 0"
    by auto
  with quiet(1) counts show ?thesis by (simp add: label_counts_def)
next
  case (insert t evs aus)
  from insert(1) have "\<not> spi_known t" "\<not> settled t"
    by (auto simp: Transfer_new_def spi_known_def settled_def)
  with insert counts [rule_format, of j] show ?thesis
    by (auto simp: label_counts_def split: option.splits)
next
  case (update i t t' evs aus)
  have t': "t_ID t' = i" "\<not> settled t"
    using mem_inv_transfer [OF inv update(1)] not_settled_step [OF inv update(1,2)]
      Transfer_identity_fields [OF Transfer_step_identity [OF update(2)]] by auto
  have known: "spi_known t' \<longleftrightarrow> spi_known t \<or> t_Status t = StatusAccepted \<and> t_Status t' = StatusApproved"
    using update(2,3) by (rule update_known)
  have "\<not> spi_known t" if "t_Status t = StatusAccepted" using that by (simp add: spi_known_def)
  with update t' known counts [rule_format, of j] show ?thesis
    by (cases "j = i") (auto simp: label_counts_def)
next
  case (settle i t t' tn cb evs au)
  note step = Transfer_step.settle [OF settle(3)]
  have "t_ID t' = i" "\<not> settled t"
    using mem_inv_transfer [OF inv settle(1)] not_settled_step [OF inv settle(1) step]
      Transfer_identity_fields [OF Transfer_step_identity [OF step]] by auto
  moreover have "spi_known t" "spi_known t'" "settled t'"
    using settle(3) by (auto simp: RecordSettlement_Inr spi_known_def settled_def)
  ultimately show ?thesis
    using settle counts [rule_format, of j] by (cases "j = i") (auto simp: label_counts_def)
qed (use counts [rule_format, of j] in \<open>auto simp: label_counts_def\<close>)

lemma label_counts_run: "mem_run NewMemoryStore ls s \<Longrightarrow> label_counts s ls i"
proof (induction NewMemoryStore ls s arbitrary: i rule: mem_run.induct)
  case stop
  show ?case by (simp add: label_counts_def NewMemoryStore_def)
next
  case (step ls s' l s'')
  then show ?case using label_counts_step mem_reachable by blast
qed

section \<open>The outbox\<close>

lemma outbox_sequences:
  assumes "mem_inv s" and "int (length (ms_events s)) \<le> int64_max"
  shows "map ob_Sequence (ms_events s) = map (\<lambda>j. int j + 1) [0..<length (ms_events s)]"
proof -
  have "wrap64 (1 + int j) = int j + 1" if "j < length (ms_events s)" for j
    using that assms(2) by (subst wrap64_id) (auto simp: int64_min_def)
  then have "map (\<lambda>j. wrap64 (1 + int j)) [0..<length (ms_events s)] = map (\<lambda>j. int j + 1) [0..<length (ms_events s)]"
    by simp
  with assms(1) show ?thesis by (simp add: mem_inv_def outbox_inv_def)
qed

lemma sequences_sorted:
  assumes "mem_inv s" and "int (length (ms_events s)) \<le> int64_max"
  shows "sorted_wrt (<) (map ob_Sequence (ms_events s))"
  unfolding outbox_sequences [OF assms] sorted_wrt_map
  by (rule sorted_wrt_mono_rel [OF _ sorted_wrt_upt]) simp

lemma pending_loop_take:
  "int (length cs) < limit \<Longrightarrow>
     pending_loop now limit cs rs = cs @ take (nat limit - length cs) (filter (outbox_due now) rs)"
proof (induction rs arbitrary: cs)
  case (Cons r rs)
  then show ?case
    by (cases "int (Suc (length cs)) = limit")
      (auto simp: Let_def take_Cons' nat_less_iff Suc_diff_Suc)
qed simp

lemma claim_loop_take:
  "int (length cs) < limit \<Longrightarrow> claim_loop now limit tok until cs rs = (cs', rs') \<Longrightarrow>
     cs' = cs @ map (claim_record tok until) (take (nat limit - length cs) (filter (outbox_due now) rs))"
proof (induction rs arbitrary: cs cs' rs')
  case (Cons r rs)
  show ?case
  proof (cases "outbox_due now r \<and> int (Suc (length cs)) \<noteq> limit")
    case True
    obtain cs2 rs2 where rec: "claim_loop now limit tok until (cs @ [claim_record tok until r]) rs = (cs2, rs2)"
      by (meson surj_pair)
    from True Cons.prems(1) have lt: "int (length (cs @ [claim_record tok until r])) < limit" by simp
    from True Cons.prems rec have "cs' = cs2" by (simp add: Let_def)
    with Cons.IH [OF lt rec] lt True show ?thesis by (simp add: take_Cons' nat_less_iff Suc_diff_Suc)
  next
    case False
    with Cons show ?thesis by (auto simp: Let_def take_Cons' split: if_splits prod.splits)
  qed
qed simp

lemma claim_loop_pointwise:
  "claim_loop now limit tok until cs rs = (cs', rs') \<Longrightarrow>
     list_all2 (\<lambda>r r'. r' = r \<or> outbox_due now r \<and> r' = claim_record tok until r) rs rs'"
  by (induction rs arbitrary: cs cs' rs')
    (auto simp: Let_def list.rel_refl split: if_splits prod.splits)

lemma mark_loop_pointwise:
  "mark_loop f q tok rs = (None, rs') \<Longrightarrow>
     list_all2 (\<lambda>r r'. r' = r \<or> ob_ClaimToken r = tok \<and> tok \<noteq> '''' \<and> r' = f r) rs rs'"
  by (induction rs arbitrary: rs') (auto simp: list.rel_refl split: if_splits prod.splits)

lemma mem_write_prefix: "prefix (ms_events s) (ms_events (mem_write s t evs aus))"
  using appendEvents_prefix [of "put_transfer s t" evs] by (simp add: mem_write_def)

lemma claim_loop_returned:
  "claim_loop now limit tok until cs rs = (cs', rs') \<Longrightarrow> set cs' \<subseteq> set cs \<union> set rs'"
  by (induction rs arbitrary: cs cs' rs') (force simp: Let_def split: if_splits prod.splits)+

lemma same_sequence:
  assumes "mem_inv s" and "int (length (ms_events s)) \<le> int64_max"
    and "r \<in> set (ms_events s)" and "r' \<in> set (ms_events s)" and "ob_Sequence r = ob_Sequence r'"
  shows "r = r'"
proof -
  have "distinct (map ob_Sequence (ms_events s))"
    using sequences_sorted [OF assms(1,2)] by (simp add: strict_sorted_iff)
  with assms(3-5) show ?thesis by (auto simp: distinct_map dest: inj_onD)
qed

lemma claimed_due:
  assumes "MemoryStore_ClaimPendingOutbox e c s limit tok until = (Inr rs, s')" and "r \<in> set rs"
  shows "\<exists>r0 \<in> set (ms_events s). outbox_due (me_now e) r0 \<and> r = claim_record tok until r0"
    and "r \<in> set (ms_events s')"
proof -
  from assms(1) obtain cs rs' where
      loop: "claim_loop (me_now e) (batch_limit limit) tok until [] (ms_events s) = (cs, rs')"
      and rs: "rs = sort_key ob_Sequence cs" and s': "s' = s\<lparr> ms_events := rs' \<rparr>"
    by (cases rule: ClaimOutbox_cases) auto
  have "0 < batch_limit limit" by (simp add: batch_limit_def)
  with claim_loop_take [OF _ loop] assms(2) rs
  show "\<exists>r0 \<in> set (ms_events s). outbox_due (me_now e) r0 \<and> r = claim_record tok until r0"
    by (auto dest!: in_set_takeD)
  from claim_loop_returned [OF loop] assms(2) rs s' show "r \<in> set (ms_events s')" by auto
qed

lemma list_all2_member: "list_all2 P xs ys \<Longrightarrow> x \<in> set xs \<Longrightarrow> \<exists>y \<in> set ys. P x y"
  by (induction rule: list_all2_induct) auto

text \<open>
  A record keeps its place in the outbox; a claimed one is left alone by everyone but its owner
  until the claim expires, and a published one for good.
\<close>

definition respects_lease :: "string \<Rightarrow> gotime \<Rightarrow> mem_label \<Rightarrow> bool" where
  "respects_lease tok until l \<longleftrightarrow> l \<noteq> OutboxAck tok \<and> (\<forall>now. l = OutboxClaim now \<longrightarrow> now < until)"

definition leased :: "string \<Rightarrow> gotime \<Rightarrow> OutboxRecord \<Rightarrow> bool" where
  "leased tok until r \<longleftrightarrow> ob_ClaimToken r = tok \<and> tok \<noteq> '''' \<and> ob_ClaimedUntil r = Some until"

lemma step_records:
  assumes "mem_step s l s'" and "mem_inv s" and "r \<in> set (ms_events s)"
  shows "(leased tok until r \<and> respects_lease tok until l \<longrightarrow> r \<in> set (ms_events s')) \<and>
         (ob_Published r \<longrightarrow> r \<in> set (ms_events s'))"
  using assms(1,2)
proof (cases rule: mem_step_cases)
  case quiet
  with assms(3) show ?thesis by simp
next
  case (insert t evs aus)
  then show ?thesis using assms(3) mem_write_prefix set_mono_prefix by fastforce
next
  case (update i t t' evs aus)
  then show ?thesis using assms(3) mem_write_prefix set_mono_prefix by blast
next
  case (settle i t t' tn cb evs au)
  then show ?thesis using assms(3) mem_write_prefix set_mono_prefix by fastforce
next
  case (claims now limit tok' until' cs rs)
  from list_all2_member [OF claim_loop_pointwise [OF claims(1)] assms(3)]
  obtain r' where "r' \<in> set rs" "r' = r \<or> outbox_due now r \<and> r' = claim_record tok' until' r"
    by blast
  with claims show ?thesis
    by (auto simp: leased_def respects_lease_def outbox_due_def go_simps)
next
  case (mark f q tok' rs at msg)
  from list_all2_member [OF mark_loop_pointwise [OF mark(1)] assms(3)]
  obtain r' where "r' \<in> set rs" "r' = r \<or> ob_ClaimToken r = tok' \<and> tok' \<noteq> '''' \<and> r' = f r"
    by blast
  moreover have "outbox_record_ok r" using assms(2,3) mem_inv_outbox by blast
  ultimately show ?thesis
    using mark by (auto simp: leased_def respects_lease_def outbox_record_ok_def)
qed

lemma lease_run:
  assumes "mem_run s ls s'" and "mem_inv s" and "r \<in> set (ms_events s)" and "leased tok until r"
    and "\<forall>l \<in> set ls. respects_lease tok until l"
  shows "r \<in> set (ms_events s')"
  using assms
proof (induction rule: mem_run.induct)
  case (step s ls s' l s'')
  then have "mem_inv s'" "r \<in> set (ms_events s')" "respects_lease tok until l"
    using mem_run_inv by auto
  then show ?case using step_records [OF step.hyps(2)] step.prems by blast
qed

lemma published_run:
  assumes "mem_run s ls s'" and "mem_inv s" and "r \<in> set (ms_events s)" and "ob_Published r"
  shows "r \<in> set (ms_events s')"
  using assms
proof (induction rule: mem_run.induct)
  case (step s ls s' l s'')
  then show ?case using step_records [OF step.hyps(2)] mem_run_inv by blast
qed

lemma mark_loop_found:
  "mark_loop f q tok rs = (None, rs') \<Longrightarrow> \<exists>r \<in> set rs. ob_Sequence r = q \<and> f r \<in> set rs'"
  by (induction rs arbitrary: rs') (auto split: if_splits prod.splits)

section \<open>A concrete run\<close>

text \<open>One transfer is inserted with an event, claimed, approved and settled; the event is claimed and published.\<close>

definition demo_env :: mem_env where
  "demo_env = \<lparr> me_ctx = None, me_now = 2, me_order = [''pxt_1''] \<rparr>"

definition demo_event :: Event where
  "demo_event = \<lparr> ev_EventID = ''evt_1'', ev_EventType = ''pix_transfer_accepted'', ev_SchemaVersion = ''1'',
     ev_OccurredAt = 1, ev_Producer = Producer, ev_TenantID = ''tenant_a'', ev_AccountID = ''acct_1'',
     ev_TransferID = ''pxt_1'', ev_CorrelationID = ''corr_1'', ev_Payload = ''{}'' \<rparr>"

definition demo_audit :: AuditRecord where
  "demo_audit = \<lparr> au_TenantID = ''tenant_a'', au_AccountID = ''acct_1'', au_TransferID = ''pxt_1'',
     au_Action = ''pix_transfer_decided'', au_CorrelationID = ''corr_1'', au_Metadata = Map.empty,
     au_CreatedAt = 1 \<rparr>"

definition demo_inserted :: MemoryStore where
  "demo_inserted = snd (MemoryStore_InsertTransfer demo_env NewMemoryStore demo_transfer [demo_event] [])"

definition demo_mem_claimed :: MemoryStore where
  "demo_mem_claimed = put_transfer demo_inserted demo_claimed"

definition demo_mem_approved :: MemoryStore where
  "demo_mem_approved = mem_write demo_mem_claimed demo_approved [] [demo_audit]"

definition demo_cb :: SettlementCallback where
  "demo_cb = (demo_callback ''spi_1'')\<lparr> cb_CallbackHash := ''hash'' \<rparr>"

definition demo_mem_settled :: MemoryStore where
  "demo_mem_settled = mem_write (demo_mem_approved\<lparr> ms_callbacks := [''tenant_a:spi_1'' \<mapsto> ''hash''] \<rparr>)
     demo_settled [] [demo_audit]"

definition demo_outbox :: "OutboxRecord" where
  "demo_outbox = \<lparr> ob_Sequence = 1, ob_Event = demo_event, ob_Published = False, ob_Attempts = 0,
     ob_LastError = '''', ob_AvailableAt = 1, ob_ClaimToken = '''', ob_ClaimedUntil = None,
     ob_DispatchedAt = None \<rparr>"

definition demo_leased :: MemoryStore where
  "demo_leased = demo_inserted\<lparr> ms_events := [claim_record ''relay'' 60 demo_outbox] \<rparr>"

definition demo_published :: MemoryStore where
  "demo_published = demo_leased\<lparr> ms_events := [published_record 3 (claim_record ''relay'' 60 demo_outbox)] \<rparr>"

lemma demo_ids [simp]: "t_ID demo_transfer = ''pxt_1''" "t_ID demo_claimed = ''pxt_1''"
  "t_ID demo_approved = ''pxt_1''" "t_ID demo_settled = ''pxt_1''"
  "t_TenantID demo_transfer = ''tenant_a''" "t_TenantID demo_claimed = ''tenant_a''"
  "t_TenantID demo_approved = ''tenant_a''" "t_TenantID demo_settled = ''tenant_a''"
  "t_IdempotencyKey demo_transfer = ''idem''"
  by (simp_all add: demo_defs)

lemma demo_insert:
  "MemoryStore_InsertTransfer demo_env NewMemoryStore demo_transfer [demo_event] [] = (None, demo_inserted)"
  by (simp add: demo_inserted_def MemoryStore_InsertTransfer_def NewMemoryStore_def Let_def)

lemma demo_inserted_frame [simp]:
  "ms_transfers demo_inserted = [''pxt_1'' \<mapsto> demo_transfer]" "ms_callbacks demo_inserted = Map.empty"
  "ms_events demo_inserted = [demo_outbox]"
  by (simp_all add: demo_inserted_def MemoryStore_InsertTransfer_def NewMemoryStore_def Let_def demo_outbox_def
      put_transfer_def append_audit_def demo_event_def)

lemma demo_mem_claim:
  "MemoryStore_ClaimSPISubmission demo_env demo_inserted ''tenant_a'' ''pxt_1'' ''worker'' 30 =
     (Inr (demo_claimed, False), demo_mem_claimed)"
  using demo_claim
  by (simp add: MemoryStore_ClaimSPISubmission_def MemoryStore_Health_def demo_env_def own_transfer_def
      demo_mem_claimed_def) (simp add: demo_defs)

lemma demo_mem_record:
  "MemoryStore_RecordSPISubmission demo_env demo_mem_claimed ''tenant_a'' ''pxt_1'' ''worker'' demo_message [] demo_audit =
     (Inr (demo_approved, False), demo_mem_approved)"
  using demo_record
  by (simp add: MemoryStore_RecordSPISubmission_def MemoryStore_Health_def demo_env_def own_transfer_def
      demo_mem_claimed_def demo_mem_approved_def mem_write_def) (simp add: demo_defs)

lemma demo_settle_cb: "Transfer_RecordSettlement demo_approved demo_cb = Inr demo_settled"
  by (simp add: Transfer_RecordSettlement_def TransferStatus_Terminal_def demo_defs demo_cb_def)

lemma demo_mem_settle:
  "MemoryStore_UpdateSettlement demo_env demo_mem_approved ''tenant_a'' ''pxt_1'' demo_cb [] demo_audit =
     (Inr (demo_settled, False), demo_mem_settled)"
  using demo_settle_cb
  by (simp add: UpdateSettlement_unfold own_transfer_def demo_mem_settled_def demo_mem_claimed_def
      demo_mem_approved_def callback_key_def callback_hash_def demo_cb_def demo_callback_def)

lemma demo_mem_lease:
  "MemoryStore_ClaimPendingOutbox demo_env 2 demo_inserted 10 ''relay'' 60 =
     (Inr [claim_record ''relay'' 60 demo_outbox], demo_leased)"
  by (simp add: MemoryStore_ClaimPendingOutbox_def MemoryStore_Health_def demo_env_def demo_leased_def
      batch_limit_def outbox_due_def demo_outbox_def go_simps Let_def)

lemma demo_mem_publish:
  "MemoryStore_MarkOutboxPublished demo_env demo_leased 1 ''relay'' 3 = (None, demo_published)"
  by (simp add: MemoryStore_MarkOutboxPublished_def MemoryStore_Health_def demo_env_def demo_leased_def
      demo_published_def claim_record_def demo_outbox_def)

lemma demo_step_insert: "mem_step NewMemoryStore (Inserted ''pxt_1'') demo_inserted"
  using mem_step.insert [OF demo_new _ demo_insert] by simp

lemma demo_mem_runs:
  "mem_run NewMemoryStore [Inserted ''pxt_1''] demo_inserted"
  "mem_run demo_inserted [Tau, Approved ''pxt_1''] demo_mem_approved"
  "mem_run demo_mem_approved [Settled ''pxt_1''] demo_mem_settled"
  "mem_run NewMemoryStore [Inserted ''pxt_1'', Tau, Approved ''pxt_1'', Settled ''pxt_1''] demo_mem_settled"
  "mem_run NewMemoryStore [Inserted ''pxt_1'', Tau, Approved ''pxt_1''] demo_mem_approved"
proof -
  show 1: "mem_run NewMemoryStore [Inserted ''pxt_1''] demo_inserted"
    by (rule mem_step_run [OF demo_step_insert])
  show 2: "mem_run demo_inserted [Tau, Approved ''pxt_1''] demo_mem_approved"
    using mem_run_append [OF mem_step_run [OF mem_step.record_spi [OF demo_mem_record]]
        mem_step_run [OF mem_step.claim [OF demo_mem_claim]]]
    by (simp add: write_label_def)
  show 3: "mem_run demo_mem_approved [Settled ''pxt_1''] demo_mem_settled"
    using mem_step_run [OF mem_step.settle [OF demo_mem_settle]] by (simp add: write_label_def)
  show "mem_run NewMemoryStore [Inserted ''pxt_1'', Tau, Approved ''pxt_1'', Settled ''pxt_1''] demo_mem_settled"
    using mem_run_append [OF 3 mem_run_append [OF 2 1]] by simp
  show "mem_run NewMemoryStore [Inserted ''pxt_1'', Tau, Approved ''pxt_1''] demo_mem_approved"
    using mem_run_append [OF 2 1] by simp
qed

section \<open>Properties of the store\<close>

lemma mem_inv_idem:
  "mem_inv s \<Longrightarrow> ms_transfers s i = Some t \<Longrightarrow>
     ms_idempotency s (idem_key (t_TenantID t) (t_IdempotencyKey t)) = Some i"
  by (simp add: mem_inv_def transfers_inv_def)

lemma mem_run_lookup:
  assumes "mem_run s ls s'" and "mem_inv s" and "ms_transfers s i = Some t"
  obtains t' where "ms_transfers s' i = Some t'" "Transfer_step\<^sup>*\<^sup>* t t'"
  using mem_run_evolves [OF assms(1,2)] assms(3) unfolding view_evolves_def mem_view_simps by blast

text \<open>
  C1 (consistent store).  Whatever calls any number of callers make in whatever order, the store
  stays consistent: every transfer is filed under its own id, is well formed and is found under
  its idempotency key, no idempotency key points anywhere else, exactly the settled and rejected
  transfers have a settlement callback on file, and every outbox record is free, claimed or
  published.
\<close>

theorem memory_store_reachable_inv:
  assumes "mem_run NewMemoryStore ls s"
  shows "mem_inv s"
  using assms by (rule mem_reachable)

theorem memory_store_reachable_inv_witness: "mem_inv demo_mem_settled"
  by (rule memory_store_reachable_inv [OF demo_mem_runs(4)])

text \<open>
  C2 (exactly once).  In every run a transfer id is inserted at most once, its approval by the SPI
  network is recorded exactly once if it is approved, settled or rejected now and never
  otherwise, and its settlement is recorded exactly once if it is settled or rejected now and
  never otherwise; so no interleaving of workers, retries and callbacks approves or settles a
  transfer twice.
\<close>

theorem approved_and_settled_once:
  assumes "mem_run NewMemoryStore ls s"
  shows "count_list ls (Inserted i) = (if ms_transfers s i = None then 0 else 1) \<and>
         count_list ls (Approved i) = (case ms_transfers s i of None \<Rightarrow> 0 | Some t \<Rightarrow> if spi_known t then 1 else 0) \<and>
         count_list ls (Settled i) = (case ms_transfers s i of None \<Rightarrow> 0 | Some t \<Rightarrow> if settled t then 1 else 0)"
  using label_counts_run [OF assms] unfolding label_counts_def .

theorem approved_and_settled_once_witness:
  "ms_transfers demo_mem_settled ''pxt_1'' = Some demo_settled \<and> settled demo_settled \<and>
   count_list [Inserted ''pxt_1'', Tau, Approved ''pxt_1'', Settled ''pxt_1''] (Settled ''pxt_1'') =
     (case ms_transfers demo_mem_settled ''pxt_1'' of None \<Rightarrow> 0 | Some t \<Rightarrow> if settled t then 1 else 0)"
  using approved_and_settled_once [OF demo_mem_runs(4), of "''pxt_1''"]
  by (simp add: demo_mem_settled_def settled_def demo_settled_def)

text \<open>
  C3 (idempotency key).  Once a transfer has been inserted, its tenant and idempotency key lead
  to it in every later state, with its identity unchanged, and every further insert under that
  tenant and key is refused as a conflict and changes nothing.
\<close>

theorem idempotency_key_is_final:
  assumes reach: "mem_run NewMemoryStore ls s" and new: "Transfer_new t" "CHR '':'' \<notin> set (t_TenantID t)"
    and ins: "MemoryStore_InsertTransfer e s t evs aus = (None, s1)"
    and run: "mem_run s1 ls' s2" and ctx: "me_ctx e' = None"
  shows "(\<exists>t'. MemoryStore_FindByIdempotency e' s2 (t_TenantID t) (t_IdempotencyKey t) = Inr (Some t') \<and>
            Transfer_identity t' = Transfer_identity t) \<and>
         (\<forall>u e'' evs' aus'. t_TenantID u = t_TenantID t \<and> t_IdempotencyKey u = t_IdempotencyKey t \<longrightarrow>
            (\<exists>err. MemoryStore_InsertTransfer e'' s2 u evs' aus' = (Some err, s2) \<and> errors_Is err ErrConflict))"
proof -
  let ?k = "idem_key (t_TenantID t) (t_IdempotencyKey t)"
  have inv: "mem_inv s" using reach by (rule mem_reachable)
  then have inv1: "mem_inv s1" using mem_step_inv mem_step.insert [OF new ins] by blast
  have "ms_transfers s1 (t_ID t) = Some t"
    using ins by (cases rule: Insert_cases) auto
  then obtain t' where t': "ms_transfers s2 (t_ID t) = Some t'" and steps: "Transfer_step\<^sup>*\<^sup>* t t'"
    using mem_run_lookup [OF run inv1] by blast
  note ident = Transfer_steps_identity [OF steps]
  have idem: "ms_idempotency s2 ?k = Some (t_ID t)"
    using mem_inv_idem [OF mem_run_inv [OF run inv1] t'] Transfer_identity_fields [OF ident] by simp
  have "\<exists>err. MemoryStore_InsertTransfer e'' s2 u evs' aus' = (Some err, s2) \<and> errors_Is err ErrConflict"
    if "t_TenantID u = t_TenantID t" "t_IdempotencyKey u = t_IdempotencyKey t" for u e'' evs' aus'
    using idem t' that
    by (cases "t_ID u = t_ID t") (simp_all add: MemoryStore_InsertTransfer_def Let_def)
  with t' idem ident ctx show ?thesis
    by (simp add: MemoryStore_FindByIdempotency_def MemoryStore_Health_def)
qed

theorem idempotency_key_is_final_witness:
  "\<exists>t. MemoryStore_FindByIdempotency demo_env demo_mem_approved ''tenant_a'' ''idem'' = Inr (Some t) \<and>
       Transfer_identity t = Transfer_identity demo_transfer"
  using idempotency_key_is_final [OF mem_run.stop demo_new _ demo_insert demo_mem_runs(2), of demo_env]
  by (simp add: demo_env_def)

text \<open>
  C4 (tenant isolation).  To a tenant, another tenant's transfer does not exist: reading it,
  claiming it, recording or releasing a submission, deciding its review and settling it all
  answer \<open>ErrNotFound\<close> and leave the store as it was, and a lookup by idempotency key never
  returns another tenant's transfer.
\<close>

theorem tenant_isolation:
  assumes reach: "mem_run NewMemoryStore ls s"
    and foreign: "ms_transfers s i = Some t" "t_TenantID t \<noteq> tn" and ctx: "me_ctx e = None"
  shows "MemoryStore_GetTransfer e s tn i = Inl (Sentinel ErrNotFound) \<and>
    MemoryStore_ClaimSPISubmission e s tn i tok until = (Inl (Sentinel ErrNotFound), s) \<and>
    MemoryStore_RecordSPISubmission e s tn i tok m evs au = (Inl (Sentinel ErrNotFound), s) \<and>
    MemoryStore_ReleaseSPISubmission e s tn i tok msg retry = (Some (Sentinel ErrNotFound), s) \<and>
    MemoryStore_RecordReviewDecision e s tn i st reason evs au = (Inl (Sentinel ErrNotFound), s) \<and>
    MemoryStore_UpdateSettlement e s tn i cb evs au = (Inl (Sentinel ErrNotFound), s) \<and>
    (CHR '':'' \<notin> set tn \<longrightarrow> MemoryStore_FindByIdempotency e s tn k \<noteq> Inr (Some t))"
proof -
  have own: "own_transfer s tn i = Inl (Sentinel ErrNotFound)"
    using foreign by (simp add: own_transfer_def)
  have "MemoryStore_FindByIdempotency e s tn k \<noteq> Inr (Some t)" if "CHR '':'' \<notin> set tn"
    using find_idempotent [OF mem_reachable [OF reach] that, of e k t] foreign(2)
    by (auto simp: view_idempotent_def)
  with own ctx show ?thesis
    by (simp add: MemoryStore_GetTransfer_def MemoryStore_ClaimSPISubmission_def
        MemoryStore_RecordSPISubmission_def MemoryStore_ReleaseSPISubmission_def
        MemoryStore_RecordReviewDecision_def MemoryStore_UpdateSettlement_def MemoryStore_Health_def)
qed

theorem tenant_isolation_witness:
  "MemoryStore_ClaimSPISubmission demo_env demo_inserted ''tenant_b'' ''pxt_1'' ''worker'' 30 =
     (Inl (Sentinel ErrNotFound), demo_inserted)"
  using tenant_isolation [OF demo_mem_runs(1), of "''pxt_1''" demo_transfer "''tenant_b''" demo_env]
  by (simp add: demo_env_def)

text \<open>
  C5 (all or nothing).  A call that fails has changed nothing: neither the transfer nor its
  events nor its audit trail.
\<close>

theorem failed_call_changes_nothing:
  "(MemoryStore_InsertTransfer e s t evs aus = (Some err, s') \<longrightarrow> s' = s) \<and>
   (MemoryStore_ClaimSPISubmission e s tn i tok until = (Inl err, s') \<longrightarrow> s' = s) \<and>
   (MemoryStore_RecordSPISubmission e s tn i tok m evs au = (Inl err, s') \<longrightarrow> s' = s) \<and>
   (MemoryStore_ReleaseSPISubmission e s tn i tok msg retry = (Some err, s') \<longrightarrow> s' = s) \<and>
   (MemoryStore_RecordReviewDecision e s tn i st reason evs au = (Inl err, s') \<longrightarrow> s' = s) \<and>
   (MemoryStore_UpdateSettlement e s tn i cb evs au = (Inl err, s') \<longrightarrow> s' = s) \<and>
   (MemoryStore_ClaimPendingOutbox e now s limit tok until = (Inl err, s') \<longrightarrow> s' = s) \<and>
   (MemoryStore_MarkOutboxPublished e s q tok at = (Some err, s') \<longrightarrow> s' = s) \<and>
   (MemoryStore_MarkOutboxFailed e s q tok msg retry = (Some err, s') \<longrightarrow> s' = s)"
  by (intro conjI impI)
    (auto elim: Insert_cases Claim_cases Record_cases Release_cases Review_cases Settle_cases
      ClaimOutbox_cases Published_cases Failed_cases)

theorem failed_call_changes_nothing_witness:
  "\<exists>err. MemoryStore_InsertTransfer demo_env demo_inserted demo_transfer [demo_event] [] = (Some err, demo_inserted)"
proof -
  have "fst (MemoryStore_InsertTransfer demo_env demo_inserted demo_transfer [demo_event] []) \<noteq> None"
    by (simp add: MemoryStore_InsertTransfer_def Let_def)
  then obtain err s' where *: "MemoryStore_InsertTransfer demo_env demo_inserted demo_transfer [demo_event] [] = (Some err, s')"
    by (cases "MemoryStore_InsertTransfer demo_env demo_inserted demo_transfer [demo_event] []") auto
  with failed_call_changes_nothing [of demo_env demo_inserted demo_transfer "[demo_event]" "[]" err s']
  have "s' = demo_inserted" by simp
  with * show ?thesis by blast
qed

text \<open>
  C6 (append-only outbox and audit trail).  Over any run the events and the audit records of a
  state stay the beginning of those of every later state, and as long as the outbox has not
  outgrown \<open>int64\<close> its records carry the sequence numbers 1, 2, 3 and so on in the order they
  were written.
\<close>

theorem outbox_append_only:
  assumes reach: "mem_run NewMemoryStore ls s" and run: "mem_run s ls' s'"
    and len: "int (length (ms_events s')) \<le> int64_max"
  shows "prefix (map ob_Event (ms_events s)) (map ob_Event (ms_events s')) \<and>
         prefix (ms_audit s) (ms_audit s') \<and>
         map ob_Sequence (ms_events s') = map (\<lambda>j. int j + 1) [0..<length (ms_events s')]"
proof -
  have inv: "mem_inv s" using reach by (rule mem_reachable)
  from outbox_sequences [OF mem_run_inv [OF run inv] len] mem_run_evolves [OF run inv]
  show ?thesis by (simp add: view_evolves_def)
qed

theorem outbox_append_only_witness:
  "prefix (map ob_Event (ms_events demo_inserted)) (map ob_Event (ms_events demo_mem_approved)) \<and>
   map ob_Sequence (ms_events demo_mem_approved) = [1]"
proof -
  have len: "length (ms_events demo_mem_approved) = 1"
    by (simp add: demo_mem_approved_def demo_mem_claimed_def mem_write_def)
  with outbox_append_only [OF demo_mem_runs(1,2)] show ?thesis by (simp add: int64_max_def)
qed

text \<open>
  C7 (idempotent settlement).  A settlement callback that is recorded makes the transfer settled or
  rejected, for good.  In every later state the same callback (same hash) is answered with exactly
  this transfer, as a replay, and a callback for the same SPI message with another hash is refused
  as a conflict; neither writes anything, no event and no audit record either.
\<close>

theorem settlement_replay:
  assumes reach: "mem_run NewMemoryStore ls s"
    and settle: "MemoryStore_UpdateSettlement e s tn i cb evs au = (Inr (t, False), s1)"
    and run: "mem_run s1 ls' s2"
    and cb': "cb_SPIMessageID cb' = cb_SPIMessageID cb"
  shows "settled t \<and> t_ID t = i \<and> t_TenantID t = tn \<and> t_SPIMessageID t = cb_SPIMessageID cb \<and>
         ms_transfers s2 i = Some t \<and>
         (callback_hash cb' = callback_hash cb \<longrightarrow>
            MemoryStore_UpdateSettlement e' s2 tn i cb' evs' au' = (Inr (t, True), s2)) \<and>
         (callback_hash cb' \<noteq> callback_hash cb \<longrightarrow>
            (\<exists>err. MemoryStore_UpdateSettlement e' s2 tn i cb' evs' au' = (Inl err, s2) \<and>
                   errors_Is err ErrConflict))"
proof -
  have inv: "mem_inv s" using reach by (rule mem_reachable)
  have inv1: "mem_inv s1" using mem_step_inv [OF mem_step.settle [OF settle] inv] .
  have hash: "ms_callbacks s1 (callback_key tn cb) = Some (callback_hash cb)"
    and t: "ms_transfers s1 i = Some t" "t_ID t = i" "t_TenantID t = tn"
    using settle Transfer_identity_fields [OF Transfer_step_identity [OF Transfer_step.settle]]
      mem_inv_transfer [OF inv]
    by (cases rule: Settle_cases; auto simp: own_transfer_Inr)+
  have fin: "settled t" "t_SPIMessageID t = cb_SPIMessageID cb"
    using settle by (cases rule: Settle_cases; auto simp: Transfer_RecordSettlement_def settled_def split: if_splits)+
  obtain t' where "ms_transfers s2 i = Some t'" "Transfer_step\<^sup>*\<^sup>* t t'"
    using run inv1 t(1) by (rule mem_run_lookup)
  then have t2: "ms_transfers s2 i = Some t"
    using not_settled_step [OF inv1 t(1)] fin(1) by (metis converse_rtranclpE)
  have "ms_callbacks s2 (callback_key tn cb') = Some (callback_hash cb)"
    using mem_run_evolves [OF run inv1] hash by (simp add: view_evolves_def callback_key_def cb')
  with t t2 fin show ?thesis by (simp add: UpdateSettlement_unfold own_transfer_Inr [THEN iffD2])
qed

theorem settlement_replay_witness:
  "MemoryStore_UpdateSettlement demo_env demo_mem_settled ''tenant_a'' ''pxt_1'' demo_cb [] demo_audit =
     (Inr (demo_settled, True), demo_mem_settled)"
  using settlement_replay [OF demo_mem_runs(5) demo_mem_settle mem_run.stop, of demo_cb] by simp

text \<open>
  C8 (exclusive outbox claims).  Records claimed by one relay are not handed to another relay
  before the claim expires, whatever other callers do in between, unless the owner of the claim
  gives the records back.
\<close>

theorem outbox_claims_disjoint:
  assumes reach: "mem_run NewMemoryStore ls s"
    and claim: "MemoryStore_ClaimPendingOutbox e c s limit tok until = (Inr rs, s1)"
    and run: "mem_run s1 ls' s2" "\<forall>l \<in> set ls'. respects_lease tok until l"
    and claim': "MemoryStore_ClaimPendingOutbox e' c' s2 limit' tok' until' = (Inr rs', s3)"
    and now: "me_now e' < until" and len: "int (length (ms_events s2)) \<le> int64_max"
  shows "ob_Sequence ` set rs \<inter> ob_Sequence ` set rs' = {}"
proof (rule ccontr)
  assume "ob_Sequence ` set rs \<inter> ob_Sequence ` set rs' \<noteq> {}"
  then obtain r r' where r: "r \<in> set rs" and r': "r' \<in> set rs'" and same: "ob_Sequence r = ob_Sequence r'"
    by auto
  have inv: "mem_inv s" using reach by (rule mem_reachable)
  have inv1: "mem_inv s1" using mem_step_inv [OF mem_step.outbox_claim [OF claim] inv] .
  have "tok \<noteq> ''''" using claim by (cases rule: ClaimOutbox_cases) auto
  then have lease: "leased tok until r"
    using claimed_due(1) [OF claim r] by (auto simp: leased_def claim_record_def)
  have here: "r \<in> set (ms_events s2)"
    by (rule lease_run [OF run(1) inv1 claimed_due(2) [OF claim r] lease run(2)])
  from claimed_due(1) [OF claim' r'] obtain r0 where r0: "r0 \<in> set (ms_events s2)"
      "outbox_due (me_now e') r0" "r' = claim_record tok' until' r0"
    by blast
  with same have "ob_Sequence r = ob_Sequence r0" by (simp add: claim_record_def)
  then have "r = r0"
    using same_sequence [OF mem_run_inv [OF run(1) inv1] len here r0(1)] by simp
  with r0(2) lease now show False by (simp add: outbox_due_def leased_def go_simps)
qed

theorem outbox_claims_disjoint_witness:
  "MemoryStore_ClaimPendingOutbox demo_env 2 demo_leased 10 ''other'' 90 = (Inr [], demo_leased) \<and>
   ob_Sequence ` set [claim_record ''relay'' 60 demo_outbox] \<inter> ob_Sequence ` set [] = {}"
proof -
  have claim: "MemoryStore_ClaimPendingOutbox demo_env 2 demo_leased 10 ''other'' 90 = (Inr [], demo_leased)"
    by (simp add: MemoryStore_ClaimPendingOutbox_def MemoryStore_Health_def demo_env_def demo_leased_def
        batch_limit_def outbox_due_def claim_record_def go_simps)
  with outbox_claims_disjoint [OF demo_mem_runs(1) demo_mem_lease mem_run.stop _ claim]
  show ?thesis by (simp add: demo_env_def demo_leased_def int64_max_def)
qed

text \<open>
  C9 (no delivery after publication).  Once a relay has marked a record as published, no relay is
  ever handed that record again.
\<close>

theorem published_never_claimed:
  assumes reach: "mem_run NewMemoryStore ls s"
    and pub: "MemoryStore_MarkOutboxPublished e s q tok at = (None, s1)"
    and run: "mem_run s1 ls' s2"
    and claim: "MemoryStore_ClaimPendingOutbox e' c s2 limit tok' until = (Inr rs, s3)"
    and len: "int (length (ms_events s2)) \<le> int64_max"
  shows "q \<notin> ob_Sequence ` set rs"
proof
  assume "q \<in> ob_Sequence ` set rs"
  then obtain r where "r \<in> set rs" "ob_Sequence r = q" by auto
  with claimed_due(1) [OF claim] obtain r0 where r0: "r0 \<in> set (ms_events s2)" "outbox_due (me_now e') r0"
      "ob_Sequence r0 = q"
    by (fastforce simp: claim_record_def)
  have inv: "mem_inv s" using reach by (rule mem_reachable)
  have inv1: "mem_inv s1" using mem_step_inv [OF mem_step.outbox_published [OF pub] inv] .
  from pub obtain rp where rp: "rp \<in> set (ms_events s1)" "ob_Sequence rp = q" "ob_Published rp"
    by (cases rule: Published_cases)
      (auto dest!: mark_loop_found simp: published_record_def)
  have "rp \<in> set (ms_events s2)" by (rule published_run [OF run inv1 rp(1,3)])
  then have "rp = r0"
    using same_sequence [OF mem_run_inv [OF run inv1] len _ r0(1)] rp(2) r0(3) by simp
  with rp(3) r0(2) show False by (simp add: outbox_due_def)
qed

lemma demo_run_leased: "mem_run NewMemoryStore [Inserted ''pxt_1'', OutboxClaim 2] demo_leased"
  using mem_run_append [OF mem_step_run [OF mem_step.outbox_claim [OF demo_mem_lease]] demo_mem_runs(1)]
  by (simp add: demo_env_def)

theorem published_never_claimed_witness:
  "MemoryStore_ClaimPendingOutbox demo_env 2 demo_published 10 ''other'' 90 = (Inr [], demo_published) \<and>
   1 \<notin> ob_Sequence ` set []"
proof -
  have claim: "MemoryStore_ClaimPendingOutbox demo_env 2 demo_published 10 ''other'' 90 = (Inr [], demo_published)"
    by (simp add: MemoryStore_ClaimPendingOutbox_def MemoryStore_Health_def demo_env_def demo_published_def
        batch_limit_def outbox_due_def published_record_def go_simps)
  with published_never_claimed [OF demo_run_leased demo_mem_publish mem_run.stop claim]
  show ?thesis by (simp add: demo_published_def int64_max_def)
qed

lemma ClaimPendingOutbox_due:
  assumes inv: "mem_inv s" and len: "int (length (ms_events s)) \<le> int64_max"
    and ctx: "me_ctx e = None" and tok: "tok \<noteq> ''''" and until: "c < until"
  shows "\<exists>s'. MemoryStore_ClaimPendingOutbox e c s limit tok until =
      (Inr (map (claim_record tok until)
              (take (nat (batch_limit limit)) (filter (outbox_due (me_now e)) (ms_events s)))), s')"
proof -
  let ?due = "take (nat (batch_limit limit)) (filter (outbox_due (me_now e)) (ms_events s))"
  have limit: "0 < batch_limit limit" by (simp add: batch_limit_def)
  have "sorted (map ob_Sequence (ms_events s))"
    using sequences_sorted [OF inv len] by (simp add: strict_sorted_iff)
  then have sorted: "sorted (map ob_Sequence ?due)"
    by (simp add: sorted_filter sorted_wrt_take take_map [symmetric])
  obtain cs rs where loop: "claim_loop (me_now e) (batch_limit limit) tok until [] (ms_events s) = (cs, rs)"
    by (meson surj_pair)
  have cs: "cs = map (claim_record tok until) ?due"
    using claim_loop_take [OF _ loop] limit by simp
  have "sort_key ob_Sequence cs = cs"
    using sorted by (intro sort_key_id_if_sorted) (simp add: cs claim_record_def comp_def)
  then show ?thesis
    using loop ctx tok until cs
    by (simp add: MemoryStore_ClaimPendingOutbox_def MemoryStore_Health_def go_simps)
qed

text \<open>
  First in, first out.  A relay that claims outbox records with a valid token and expiry is
  handed exactly the first due records in the order they were written, at most the requested
  number (100 when none is given), each of them claimed for it in the store; \<open>PendingOutbox\<close> lists
  the same records.
\<close>

theorem outbox_claim_fifo:
  assumes reach: "mem_run NewMemoryStore ls s" and len: "int (length (ms_events s)) \<le> int64_max"
    and ctx: "me_ctx e = None" and tok: "tok \<noteq> ''''" and until: "c < until"
  shows "\<exists>s'. MemoryStore_ClaimPendingOutbox e c s limit tok until =
      (Inr (map (claim_record tok until)
              (take (nat (batch_limit limit)) (filter (outbox_due (me_now e)) (ms_events s)))), s') \<and>
    set (map (claim_record tok until)
           (take (nat (batch_limit limit)) (filter (outbox_due (me_now e)) (ms_events s)))) \<subseteq> set (ms_events s') \<and>
    MemoryStore_PendingOutbox e s limit =
      Inr (take (nat (batch_limit limit)) (filter (outbox_due (me_now e)) (ms_events s)))"
proof -
  let ?due = "take (nat (batch_limit limit)) (filter (outbox_due (me_now e)) (ms_events s))"
  have limit: "0 < batch_limit limit" by (simp add: batch_limit_def)
  have "sorted (map ob_Sequence (ms_events s))"
    using sequences_sorted [OF mem_reachable [OF reach] len] by (simp add: strict_sorted_iff)
  then have sorted: "sorted (map ob_Sequence ?due)"
    by (simp add: sorted_filter sorted_wrt_take take_map [symmetric])
  obtain s' where claim: "MemoryStore_ClaimPendingOutbox e c s limit tok until =
      (Inr (map (claim_record tok until) ?due), s')"
    using ClaimPendingOutbox_due [OF mem_reachable [OF reach] len ctx tok until] by blast
  moreover have "set (map (claim_record tok until) ?due) \<subseteq> set (ms_events s')"
    using claimed_due(2) [OF claim] by blast
  moreover have "MemoryStore_PendingOutbox e s limit = Inr ?due"
    using ctx limit sorted pending_loop_take [of "[]" "batch_limit limit"]
    by (simp add: MemoryStore_PendingOutbox_def MemoryStore_Health_def sort_key_id_if_sorted)
  ultimately show ?thesis by blast
qed

theorem outbox_claim_fifo_witness:
  "\<exists>s. MemoryStore_ClaimPendingOutbox demo_env 2 demo_inserted 10 ''relay'' 60 =
     (Inr [claim_record ''relay'' 60 demo_outbox], s)"
  using outbox_claim_fifo [OF demo_mem_runs(1), of demo_env "''relay''" 2 60 10]
  by (auto simp: demo_env_def int64_max_def batch_limit_def outbox_due_def demo_outbox_def go_simps)

lemma map_filter_ids:
  assumes "mem_inv s" and "set is \<subseteq> dom (ms_transfers s)"
  shows "map t_ID (List.map_filter (ms_transfers s) is) = is"
  using assms(2) mem_inv_transfer [OF assms(1)] by (induction "is") (auto simp: map_filter_simps)

lemma set_map_filter_transfers:
  assumes "mem_inv s" and "set is = dom (ms_transfers s)"
  shows "set (List.map_filter (ms_transfers s) is) = {t. ms_transfers s (t_ID t) = Some t}"
proof -
  have "set (List.map_filter (ms_transfers s) is) = {t. \<exists>i \<in> dom (ms_transfers s). ms_transfers s i = Some t}"
    unfolding assms(2) [symmetric] by (auto simp: map_filter_def image_iff) (metis option.distinct(1) option.sel)
  then show ?thesis using mem_inv_transfer [OF assms(1)] by auto
qed

text \<open>
  Pending submissions.  \<open>PendingSPISubmissions\<close> returns, oldest first, without duplicates and
  at most as many as asked for, stored transfers that are accepted, not yet known to the SPI
  network and not under an unexpired claim; below the limit it returns all of them.  This holds
  for every order in which the map of transfers is iterated.
\<close>

theorem pending_submissions:
  assumes reach: "mem_run NewMemoryStore ls s" and ctx: "me_ctx e = None"
    and order: "distinct (me_order e)" "set (me_order e) = dom (ms_transfers s)"
  shows "\<exists>ts. MemoryStore_PendingSPISubmissions e s limit = Inr ts \<and>
    sorted (map t_CreatedAt ts) \<and> distinct (map t_ID ts) \<and> int (length ts) \<le> batch_limit limit \<and>
    set ts \<subseteq> {t. ms_transfers s (t_ID t) = Some t \<and> spi_pending (me_now e) t} \<and>
    (int (length ts) < batch_limit limit \<longrightarrow>
       set ts = {t. ms_transfers s (t_ID t) = Some t \<and> spi_pending (me_now e) t})"
proof -
  have inv: "mem_inv s" using reach by (rule mem_reachable)
  define all where "all = List.map_filter (ms_transfers s) (me_order e)"
  define ts0 where "ts0 = sort_key t_CreatedAt (filter (spi_pending (me_now e)) all)"
  define n where "n = nat (batch_limit limit)"
  have "distinct (map t_ID all)" and set_all: "set all = {t. ms_transfers s (t_ID t) = Some t}"
    using map_filter_ids [OF inv, of "me_order e"] set_map_filter_transfers [OF inv order(2)] order
    by (simp_all add: all_def)
  then have ids: "distinct (map t_ID ts0)"
    by (auto simp: ts0_def distinct_map intro: inj_on_subset)
  have set_ts0: "set ts0 = {t. ms_transfers s (t_ID t) = Some t \<and> spi_pending (me_now e) t}"
    by (auto simp: ts0_def set_all)
  have n: "int n = batch_limit limit" by (simp add: n_def batch_limit_def)
  have "sorted (map t_CreatedAt (take n ts0))"
    by (simp add: ts0_def sorted_wrt_take flip: take_map)
  moreover have "distinct (map t_ID (take n ts0))"
    using ids by (simp flip: take_map)
  moreover have "set (take n ts0) \<subseteq> set ts0" by (rule set_take_subset)
  moreover have "take n ts0 = ts0" if "int (length (take n ts0)) < batch_limit limit"
    using that n by simp
  moreover have "MemoryStore_PendingSPISubmissions e s limit = Inr (take n ts0)"
    using ctx by (simp add: MemoryStore_PendingSPISubmissions_def MemoryStore_Health_def ts0_def n_def all_def Let_def)
  ultimately show ?thesis
    using set_ts0 n by (intro exI [of _ "take n ts0"]) auto
qed

theorem pending_submissions_witness:
  "\<exists>ts. MemoryStore_PendingSPISubmissions demo_env demo_inserted 10 = Inr ts \<and> distinct (map t_ID ts) \<and>
      sorted (map t_CreatedAt ts)"
  using pending_submissions [OF demo_mem_runs(1), of demo_env 10] by (auto simp: demo_env_def)

end
