(* ===== verification/Switcher.thy ===== *)
theory Switcher
  imports Memory_Store
begin

text \<open>
  The use cases of the switch, \<open>internal/switcher/service.go\<close>.

  A \<open>Service\<close> holds the ports: the store, the DICT resolver, the fraud scorer, the SPI client and
  two optional rate limiters.  Ports of which the sources have only an interface are functions
  of the record; \<open>'x\<close> is what they read from outside (context, clock, network).  The SPI client
  and the limiters have a state, so that it can be stated when they are called.

  What a use case reads from its surroundings between its entry and its return is its
  environment record: the outcome of every store call (\<open>'e\<close>), of the ports, of the clock and of
  the random source, one field for every place in the code.
\<close>

section \<open>Ports, results and environments\<close>

record ('e, 's, 'x, 'l, 'p) Service =
  svc_store :: "('e, 's) Store"
  svc_dict :: "'x \<Rightarrow> string \<Rightarrow> string \<Rightarrow> DictKeyType \<Rightarrow> DictEntry result"
  svc_fraud :: "'x \<Rightarrow> CreateTransferRequest \<Rightarrow> DictEntry \<Rightarrow> FraudDecision result"
  svc_spi :: "'x \<Rightarrow> 'p \<Rightarrow> Transfer \<Rightarrow> SPIMessage result \<times> 'p"
  svc_tenantLimit :: "('x \<Rightarrow> 'l \<Rightarrow> string \<Rightarrow> bool \<times> 'l) option"
  svc_dictLimit :: "('x \<Rightarrow> 'l \<Rightarrow> string \<Rightarrow> bool \<times> 'l) option"

record ('s, 'l, 'p) world =
  w_store :: 's
  w_tenantLimit :: 'l
  w_dictLimit :: 'l
  w_spi :: 'p

record Result =
  res_Transfer :: Transfer
  res_IdempotentReplay :: bool
  res_Events :: "Event list"

record SPIBatchResult =
  br_Scanned :: int
  br_Submitted :: int
  br_Replayed :: int
  br_Skipped :: int

definition spiClaimTTL :: duration where "spiClaimTTL = 30 * second"

text \<open>\<open>ev_source\<close> is what one call of \<open>addEvent\<close> reads: the random bytes of the id, and the clock.\<close>

type_synonym ev_source = "nat \<Rightarrow> rand_read \<times> gotime"

record ('e, 'x) create_env =
  ce_requested :: gotime
  ce_find :: 'e
  ce_ports :: 'x
  ce_now :: gotime
  ce_id :: rand_read
  ce_events :: ev_source
  ce_insert :: 'e
  ce_refind :: 'e

record ('e, 'x) submit_env =
  se_token :: rand_read
  se_now :: gotime
  se_claim :: 'e
  se_ports :: 'x
  se_events :: ev_source
  se_record :: 'e
  se_release :: 'e
  se_release_now :: gotime

record 'e review_env =
  re_now :: gotime
  re_get :: 'e
  re_ids :: "nat \<Rightarrow> rand_read"
  re_record :: 'e

record 'e settle_env =
  te_now :: gotime
  te_corr :: rand_read
  te_get :: 'e
  te_id :: rand_read
  te_update :: 'e

section \<open>CreateTransfer\<close>

definition normalize_request :: "gotime \<Rightarrow> CreateTransferRequest \<Rightarrow> CreateTransferRequest" where
  "normalize_request now req =
     (let req = req\<lparr> req_TenantID := strings_TrimSpace (req_TenantID req),
                     req_AccountID := strings_TrimSpace (req_AccountID req),
                     req_IdempotencyKey := strings_TrimSpace (req_IdempotencyKey req),
                     req_CorrelationID := strings_TrimSpace (req_CorrelationID req),
                     req_ReceiverKey := strings_TrimSpace (req_ReceiverKey req) \<rparr>;
          req = (if req_Currency req = '''' then req\<lparr> req_Currency := ''BRL'' \<rparr> else req)
      in if time_IsZero (req_RequestedAt req) then req\<lparr> req_RequestedAt := now \<rparr> else req)"

definition replay_existing :: "Transfer \<Rightarrow> string \<Rightarrow> Result result" where
  "replay_existing transfer requestHash =
     (if t_RequestHash transfer \<noteq> '''' \<and> t_RequestHash transfer \<noteq> requestHash then
        Inl (Suffixed (Sentinel ErrConflict) ''idempotency key reused with different request payload'')
      else Inr \<lparr> res_Transfer = transfer, res_IdempotentReplay = True, res_Events = [] \<rparr>)"

definition allow :: "('x \<Rightarrow> 'l \<Rightarrow> string \<Rightarrow> bool \<times> 'l) option \<Rightarrow> 'x \<Rightarrow> 'l \<Rightarrow> string \<Rightarrow> bool \<times> 'l" where
  "allow limiter x l key = (case limiter of None \<Rightarrow> (True, l) | Some a \<Rightarrow> a x l key)"

text \<open>The guards before the decision: both limiters, the resolver and the fraud engine.\<close>

definition admit ::
    "('e, 's, 'x, 'l, 'p) Service \<Rightarrow> 'x \<Rightarrow> ('s, 'l, 'p) world \<Rightarrow> CreateTransferRequest \<Rightarrow>
       (DictEntry \<times> FraudDecision) result \<times> ('s, 'l, 'p) world" where
  "admit s x w req =
     (let (ok, tl) = allow (svc_tenantLimit s) x (w_tenantLimit w) (req_TenantID req @ '':'' @ req_AccountID req);
          w = w\<lparr> w_tenantLimit := tl \<rparr>
      in if \<not> ok then (Inl (Suffixed (Sentinel ErrRateLimited) ''tenant/account bucket exhausted''), w)
      else
     (let (ok, dl) = allow (svc_dictLimit s) x (w_dictLimit w) (req_TenantID req @ '':'' @ req_ReceiverKey req);
          w = w\<lparr> w_dictLimit := dl \<rparr>
      in if \<not> ok then (Inl (Suffixed (Sentinel ErrRateLimited) ''dict lookup bucket exhausted''), w)
      else case svc_dict s x (req_TenantID req) (req_ReceiverKey req) (req_ReceiverKeyType req) of
        Inl err \<Rightarrow>
          (if errors_Is err ContextDeadlineExceeded \<or> errors_Is err ContextCanceled
           then Inl (Suffixed (Sentinel ErrDependencyFailed) ''dict lookup timeout'')
           else Inl err, w)
      | Inr dictEntry \<Rightarrow> (case svc_fraud s x req dictEntry of
          Inl err \<Rightarrow> (Inl err, w)
        | Inr decision \<Rightarrow>
            if fd_Status decision \<in> {StatusAccepted, StatusReview, StatusBlocked}
            then (Inr (dictEntry, decision), w)
            else (Inl (Suffixed (Sentinel ErrDependencyFailed) ''fraud decision status is invalid''), w))))"

definition decided_transfer ::
    "string \<Rightarrow> gotime \<Rightarrow> CreateTransferRequest \<Rightarrow> string \<Rightarrow> DictEntry \<Rightarrow> FraudDecision \<Rightarrow> Transfer" where
  "decided_transfer tid now req requestHash dictEntry decision =
     \<lparr> t_ID = tid,
       t_TenantID = req_TenantID req,
       t_AccountID = req_AccountID req,
       t_IdempotencyKey = req_IdempotencyKey req,
       t_RequestHash = requestHash,
       t_CorrelationID = req_CorrelationID req,
       t_EndToEndID = '''',
       t_AmountCents = req_AmountCents req,
       t_Currency = req_Currency req,
       t_ReceiverKey = req_ReceiverKey req,
       t_ReceiverKeyType = req_ReceiverKeyType req,
       t_ReceiverName = de_Name dictEntry,
       t_ReceiverBank = de_BankISPB dictEntry,
       t_ReceiverRisk = de_RiskSignal dictEntry,
       t_FraudScore = fd_Score decision,
       t_FraudRules = fd_Rules decision,
       t_Status = fd_Status decision,
       t_DecisionReason = fd_Reason decision,
       t_SPIMessageID = '''',
       t_SPIClaimToken = '''',
       t_SPIClaimedUntil = None,
       t_SPISubmissionAttempts = 0,
       t_SPILastError = '''',
       t_SettlementCode = '''',
       t_CreatedAt = now,
       t_UpdatedAt = now \<rparr>"

text \<open>The events of a decision, as event type and payload, in the order they are added.\<close>

definition decision_events ::
    "Transfer \<Rightarrow> string \<Rightarrow> DictEntry \<Rightarrow> FraudDecision \<Rightarrow> (string \<times> payload) list" where
  "decision_events transfer requestHash dictEntry decision =
     [(''pix_transfer_requested'',
        [(''amount_cents'', JInt (t_AmountCents transfer)),
         (''currency'', JString (t_Currency transfer)),
         (''receiver_key_type'', JString (t_ReceiverKeyType transfer))]),
      (''dict_key_resolved'',
        [(''receiver_id'', JString (de_ReceiverID dictEntry)),
         (''receiver_bank'', JString (de_BankISPB dictEntry)),
         (''risk_signal'', JInt (de_RiskSignal dictEntry))]),
      (''fraud_score_calculated'',
        [(''score'', JInt (fd_Score decision)),
         (''status'', JString (fd_Status decision)),
         (''rules'', JStrings (fd_Rules decision))])] @
     (if fd_Status decision = StatusAccepted then
        [(''pix_transfer_accepted'', [(''decision_reason'', JString (t_DecisionReason transfer))]),
         (''spi_submission_requested'', [(''request_hash'', JString requestHash)])]
      else if fd_Status decision = StatusReview then
        [(''pix_transfer_review_requested'',
           [(''score'', JInt (fd_Score decision)),
            (''rules'', JStrings (fd_Rules decision)),
            (''decision_reason'', JString (fd_Reason decision))])]
      else if fd_Status decision = StatusBlocked then
        [(''pix_transfer_blocked'',
           [(''score'', JInt (fd_Score decision)),
            (''rules'', JStrings (fd_Rules decision)),
            (''decision_reason'', JString (fd_Reason decision))])]
      else [])"

text \<open>
  The local function \<open>addEvent\<close> of \<open>CreateTransfer\<close>, called for a list of events; it leaves out an
  event whose payload cannot be encoded.
\<close>

fun add_events :: "ev_source \<Rightarrow> nat \<Rightarrow> Transfer \<Rightarrow> (string \<times> payload) list \<Rightarrow> Event list" where
  "add_events src n transfer [] = []"
| "add_events src n transfer ((eventType, payload) # rest) =
     (case events_New (newID ''evt'' (fst (src n))) eventType (t_TenantID transfer) (t_AccountID transfer)
            (t_ID transfer) (t_CorrelationID transfer) (snd (src n)) payload of
        Inl _ \<Rightarrow> add_events src (Suc n) transfer rest
      | Inr event \<Rightarrow> event # add_events src (Suc n) transfer rest)"

definition decision_audit :: "Transfer \<Rightarrow> gotime \<Rightarrow> AuditRecord list" where
  "decision_audit transfer now =
     [\<lparr> au_TenantID = t_TenantID transfer, au_AccountID = t_AccountID transfer,
        au_TransferID = t_ID transfer, au_Action = ''pix_transfer_decided'',
        au_CorrelationID = t_CorrelationID transfer,
        au_Metadata = [''status'' \<mapsto> t_Status transfer, ''score'' \<mapsto> show_int (t_FraudScore transfer)],
        au_CreatedAt = now \<rparr>]"

text \<open>The insert, with the second lookup when another caller was faster.\<close>

definition insert_decided ::
    "('e, 's, 'x, 'l, 'p) Service \<Rightarrow> ('e, 'x) create_env \<Rightarrow> ('s, 'l, 'p) world \<Rightarrow> CreateTransferRequest \<Rightarrow>
       string \<Rightarrow> DictEntry \<Rightarrow> FraudDecision \<Rightarrow> Result result \<times> ('s, 'l, 'p) world" where
  "insert_decided s e w req requestHash dictEntry decision =
     (let transfer = decided_transfer (newID ''pxt'' (ce_id e)) (ce_now e) req requestHash dictEntry decision;
          outbox = add_events (ce_events e) 0 transfer (decision_events transfer requestHash dictEntry decision);
          audit = decision_audit transfer (ce_now e);
          (inserted, st) = store_InsertTransfer (svc_store s) (ce_insert e) (w_store w) transfer outbox audit;
          w = w\<lparr> w_store := st \<rparr>
      in case inserted of
           None \<Rightarrow> (Inr \<lparr> res_Transfer = transfer, res_IdempotentReplay = False, res_Events = outbox \<rparr>, w)
         | Some err \<Rightarrow>
             if errors_Is err ErrConflict then
               (let (found, st) = store_FindByIdempotency (svc_store s) (ce_refind e) (w_store w)
                                    (req_TenantID req) (req_IdempotencyKey req);
                    w = w\<lparr> w_store := st \<rparr>
                in case found of
                     Inl findErr \<Rightarrow> (Inl findErr, w)
                   | Inr (Some existing) \<Rightarrow> (replay_existing existing requestHash, w)
                   | Inr None \<Rightarrow> (Inl err, w))
             else (Inl err, w))"

definition Service_CreateTransfer ::
    "('e, 's, 'x, 'l, 'p) Service \<Rightarrow> ('e, 'x) create_env \<Rightarrow> ('s, 'l, 'p) world \<Rightarrow> CreateTransferRequest \<Rightarrow>
       Result result \<times> ('s, 'l, 'p) world" where
  "Service_CreateTransfer s e w request =
     (let req = normalize_request (ce_requested e) request
      in case CreateTransferRequest_Validate req of
           Some err \<Rightarrow> (Inl err, w)
         | None \<Rightarrow>
             (let requestHash = CreateTransferRequest_Fingerprint req;
                  (found, st) = store_FindByIdempotency (svc_store s) (ce_find e) (w_store w)
                                  (req_TenantID req) (req_IdempotencyKey req);
                  w = w\<lparr> w_store := st \<rparr>
              in case found of
                   Inl err \<Rightarrow> (Inl err, w)
                 | Inr (Some transfer) \<Rightarrow> (replay_existing transfer requestHash, w)
                 | Inr None \<Rightarrow>
                     (case admit s (ce_ports e) w req of
                        (Inl err, w) \<Rightarrow> (Inl err, w)
                      | (Inr (dictEntry, decision), w) \<Rightarrow>
                          insert_decided s e w req requestHash dictEntry decision)))"

definition Service_GetTransfer ::
    "('e, 's, 'x, 'l, 'p) Service \<Rightarrow> 'e \<Rightarrow> ('s, 'l, 'p) world \<Rightarrow> string \<Rightarrow> string \<Rightarrow>
       Transfer result \<times> ('s, 'l, 'p) world" where
  "Service_GetTransfer s e w tenantID transferID =
     (let (r, st) = store_GetTransfer (svc_store s) e (w_store w) tenantID transferID
      in (r, w\<lparr> w_store := st \<rparr>))"

definition Service_Health ::
    "('e, 's, 'x, 'l, 'p) Service \<Rightarrow> 'e \<Rightarrow> ('s, 'l, 'p) world \<Rightarrow> go_error option \<times> ('s, 'l, 'p) world" where
  "Service_Health s e w =
     (let (r, st) = store_Health (svc_store s) e (w_store w) in (r, w\<lparr> w_store := st \<rparr>))"

section \<open>SubmitToSPI\<close>

text \<open>The local function \<open>addEvent\<close> of the other use cases stops at the first event that cannot be encoded.\<close>

fun add_all_events ::
    "ev_source \<Rightarrow> nat \<Rightarrow> Transfer \<Rightarrow> string \<Rightarrow> (string \<times> payload) list \<Rightarrow> Event list result" where
  "add_all_events src n current correlationID [] = Inr []"
| "add_all_events src n current correlationID ((eventType, payload) # rest) =
     (case events_New (newID ''evt'' (fst (src n))) eventType (t_TenantID current) (t_AccountID current)
            (t_ID current) correlationID (snd (src n)) payload of
        Inl err \<Rightarrow> Inl err
      | Inr event \<Rightarrow> (case add_all_events src (Suc n) current correlationID rest of
          Inl err \<Rightarrow> Inl err
        | Inr evs \<Rightarrow> Inr (event # evs)))"

definition submission_events :: "Transfer \<Rightarrow> SPIMessage \<Rightarrow> (string \<times> payload) list" where
  "submission_events current message =
     [(''spi_message_created'',
        [(''spi_message_id'', JString (sm_MessageID message)),
         (''end_to_end_id'', JString (sm_EndToEndID message))]),
      (''pix_transfer_approved'',
        [(''end_to_end_id'', JString (sm_EndToEndID message)),
         (''spi_message_id'', JString (sm_MessageID message)),
         (''decision_reason'', JString (t_DecisionReason current))])]"

definition submission_audit :: "Transfer \<Rightarrow> string \<Rightarrow> SPIMessage \<Rightarrow> AuditRecord" where
  "submission_audit current correlationID message =
     \<lparr> au_TenantID = t_TenantID current, au_AccountID = t_AccountID current,
       au_TransferID = t_ID current, au_Action = ''spi_submission_recorded'',
       au_CorrelationID = correlationID,
       au_Metadata = [''spi_message_id'' \<mapsto> sm_MessageID message, ''end_to_end_id'' \<mapsto> sm_EndToEndID message],
       au_CreatedAt = sm_SubmittedAt message \<rparr>"

text \<open>A failure after the claim releases it for a retry one second later; the result of the release is dropped.\<close>

definition release_claim ::
    "('e, 's, 'x, 'l, 'p) Service \<Rightarrow> ('e, 'x) submit_env \<Rightarrow> ('s, 'l, 'p) world \<Rightarrow> string \<Rightarrow> string \<Rightarrow> string \<Rightarrow>
       go_error \<Rightarrow> Result result \<times> ('s, 'l, 'p) world" where
  "release_claim s e w tenantID transferID claimToken err =
     (let (_, st) = store_ReleaseSPISubmission (svc_store s) (se_release e) (w_store w) tenantID transferID
                      claimToken (error_Error err) (time_Add (se_release_now e) second)
      in (Inl err, w\<lparr> w_store := st \<rparr>))"

text \<open>After the claim: the network call, the events and the record of the submission.\<close>

definition submit_claimed ::
    "('e, 's, 'x, 'l, 'p) Service \<Rightarrow> ('e, 'x) submit_env \<Rightarrow> ('s, 'l, 'p) world \<Rightarrow> string \<Rightarrow> string \<Rightarrow> string \<Rightarrow>
       string \<Rightarrow> Transfer \<Rightarrow> Result result \<times> ('s, 'l, 'p) world" where
  "submit_claimed s e w tenantID transferID claimToken correlationID current =
     (let (sent, net) = svc_spi s (se_ports e) (w_spi w) current;
          w = w\<lparr> w_spi := net \<rparr>
      in case sent of
           Inl err \<Rightarrow> release_claim s e w tenantID transferID claimToken err
         | Inr message \<Rightarrow>
             (case add_all_events (se_events e) 0 current correlationID (submission_events current message) of
                Inl err \<Rightarrow> release_claim s e w tenantID transferID claimToken err
              | Inr eventsToWrite \<Rightarrow>
                  (let (r, st) = store_RecordSPISubmission (svc_store s) (se_record e) (w_store w) tenantID
                                   transferID claimToken message eventsToWrite
                                   (submission_audit current correlationID message);
                       w = w\<lparr> w_store := st \<rparr>
                   in case r of
                        Inl err \<Rightarrow> (Inl err, w)
                      | Inr (updated, replay) \<Rightarrow>
                          (Inr \<lparr> res_Transfer = updated, res_IdempotentReplay = replay,
                                 res_Events = (if replay then [] else eventsToWrite) \<rparr>, w))))"

definition Service_SubmitToSPI ::
    "('e, 's, 'x, 'l, 'p) Service \<Rightarrow> ('e, 'x) submit_env \<Rightarrow> ('s, 'l, 'p) world \<Rightarrow> string \<Rightarrow> string \<Rightarrow> string \<Rightarrow>
       Result result \<times> ('s, 'l, 'p) world" where
  "Service_SubmitToSPI s e w tenant transfer correlation =
     (let tenantID = strings_TrimSpace tenant;
          transferID = strings_TrimSpace transfer;
          correlationID = strings_TrimSpace correlation
      in if tenantID = '''' \<or> transferID = '''' then
           (Inl (Suffixed (Sentinel ErrValidation) ''tenant_id and transfer_id are required''), w)
         else
           (let claimToken = newID ''spiclaim'' (se_token e);
                claimUntil = time_Add (se_now e) spiClaimTTL;
                (r, st) = store_ClaimSPISubmission (svc_store s) (se_claim e) (w_store w) tenantID transferID
                            claimToken claimUntil;
                w = w\<lparr> w_store := st \<rparr>
            in case r of
                 Inl err \<Rightarrow> (Inl err, w)
               | Inr (current, replay) \<Rightarrow>
                   if replay then
                     (Inr \<lparr> res_Transfer = current, res_IdempotentReplay = True, res_Events = [] \<rparr>, w)
                   else submit_claimed s e w tenantID transferID claimToken
                          (if correlationID = '''' then t_CorrelationID current else correlationID) current))"

text \<open>
  The batch of the worker stops at the first error that is not a conflict and then returns the
  counts so far together with the error.  The counts are bounded by the length of a slice.
\<close>

fun submit_loop ::
    "('e, 's, 'x, 'l, 'p) Service \<Rightarrow> (nat \<Rightarrow> ('e, 'x) submit_env) \<Rightarrow> nat \<Rightarrow> ('s, 'l, 'p) world \<Rightarrow>
       SPIBatchResult \<Rightarrow> Transfer list \<Rightarrow> (SPIBatchResult \<times> go_error option) \<times> ('s, 'l, 'p) world" where
  "submit_loop s es n w result [] = ((result, None), w)"
| "submit_loop s es n w result (transfer # pending) =
     (case Service_SubmitToSPI s (es n) w (t_TenantID transfer) (t_ID transfer) (t_CorrelationID transfer) of
        (Inl err, w) \<Rightarrow>
          if errors_Is err ErrConflict then
            submit_loop s es (Suc n) w (result\<lparr> br_Skipped := br_Skipped result + 1 \<rparr>) pending
          else ((result, Some err), w)
      | (Inr submitted, w) \<Rightarrow>
          if res_IdempotentReplay submitted then
            submit_loop s es (Suc n) w (result\<lparr> br_Replayed := br_Replayed result + 1 \<rparr>) pending
          else submit_loop s es (Suc n) w (result\<lparr> br_Submitted := br_Submitted result + 1 \<rparr>) pending)"

definition Service_SubmitPendingSPI ::
    "('e, 's, 'x, 'l, 'p) Service \<Rightarrow> 'e \<Rightarrow> (nat \<Rightarrow> ('e, 'x) submit_env) \<Rightarrow> ('s, 'l, 'p) world \<Rightarrow> int \<Rightarrow>
       (SPIBatchResult \<times> go_error option) \<times> ('s, 'l, 'p) world" where
  "Service_SubmitPendingSPI s e es w limit =
     (let (r, st) = store_PendingSPISubmissions (svc_store s) e (w_store w) limit;
          w = w\<lparr> w_store := st \<rparr>
      in case r of
           Inl err \<Rightarrow> ((\<lparr> br_Scanned = 0, br_Submitted = 0, br_Replayed = 0, br_Skipped = 0 \<rparr>, Some err), w)
         | Inr pending \<Rightarrow>
             submit_loop s es 0 w
               \<lparr> br_Scanned = int (length pending), br_Submitted = 0, br_Replayed = 0, br_Skipped = 0 \<rparr> pending)"

section \<open>RecordReview and RecordSettlement\<close>

definition normalize_review :: "gotime \<Rightarrow> ReviewDecisionRequest \<Rightarrow> ReviewDecisionRequest" where
  "normalize_review now req =
     (let req = req\<lparr> rv_TenantID := strings_TrimSpace (rv_TenantID req),
                     rv_TransferID := strings_TrimSpace (rv_TransferID req),
                     rv_CorrelationID := strings_TrimSpace (rv_CorrelationID req),
                     rv_Reason := strings_TrimSpace (rv_Reason req) \<rparr>
      in if time_IsZero (rv_ReviewedAt req) then req\<lparr> rv_ReviewedAt := now \<rparr> else req)"

text \<open>The status, the event type and the reason that a decision stands for.\<close>

definition review_outcome :: "ReviewDecisionRequest \<Rightarrow> (TransferStatus \<times> string \<times> string) result" where
  "review_outcome req =
     (if rv_Decision req = ReviewBlock then
        Inr (StatusBlocked, ''pix_transfer_review_blocked'',
             if rv_Reason req = '''' then ''manual review blocked'' else rv_Reason req)
      else if rv_Decision req \<noteq> ReviewApprove then
        Inl (Suffixed (Sentinel ErrValidation) ''review decision must be approve or block'')
      else
        Inr (StatusAccepted, ''pix_transfer_review_approved'',
             if rv_Reason req = '''' then ''manual review approved'' else rv_Reason req))"

definition review_events ::
    "Transfer \<Rightarrow> ReviewDecisionRequest \<Rightarrow> TransferStatus \<Rightarrow> string \<Rightarrow> string \<Rightarrow> (string \<times> payload) list" where
  "review_events current req nextStatus eventType reason =
     (eventType, [(''decision'', JString (rv_Decision req)), (''reason'', JString reason)]) #
     (if nextStatus = StatusAccepted then
        [(''spi_submission_requested'', [(''request_hash'', JString (t_RequestHash current))])]
      else if nextStatus = StatusBlocked then
        [(''pix_transfer_blocked'',
           [(''score'', JInt (t_FraudScore current)),
            (''rules'', JStrings (t_FraudRules current)),
            (''decision_reason'', JString reason)])]
      else [])"

definition review_audit :: "Transfer \<Rightarrow> ReviewDecisionRequest \<Rightarrow> TransferStatus \<Rightarrow> AuditRecord" where
  "review_audit current req nextStatus =
     \<lparr> au_TenantID = t_TenantID current, au_AccountID = t_AccountID current,
       au_TransferID = t_ID current, au_Action = ''manual_review_recorded'',
       au_CorrelationID = rv_CorrelationID req,
       au_Metadata = [''decision'' \<mapsto> rv_Decision req, ''status'' \<mapsto> nextStatus],
       au_CreatedAt = rv_ReviewedAt req \<rparr>"

text \<open>The decision on the transfer that was read: its events, its audit record and the store call.\<close>

definition decide_review ::
    "('e, 's, 'x, 'l, 'p) Service \<Rightarrow> 'e review_env \<Rightarrow> ('s, 'l, 'p) world \<Rightarrow> ReviewDecisionRequest \<Rightarrow> Transfer \<Rightarrow>
       Result result \<times> ('s, 'l, 'p) world" where
  "decide_review s e w request current =
     (let req = (if rv_CorrelationID request = ''''
                 then request\<lparr> rv_CorrelationID := t_CorrelationID current \<rparr> else request)
      in case review_outcome req of
           Inl err \<Rightarrow> (Inl err, w)
         | Inr (nextStatus, eventType, reason) \<Rightarrow>
             (case add_all_events (\<lambda>n. (re_ids e n, rv_ReviewedAt req)) 0 current (rv_CorrelationID req)
                     (review_events current req nextStatus eventType reason) of
                Inl err \<Rightarrow> (Inl err, w)
              | Inr eventsToWrite \<Rightarrow>
                  (let (r, st) = store_RecordReviewDecision (svc_store s) (re_record e) (w_store w)
                                   (rv_TenantID req) (rv_TransferID req) nextStatus reason
                                   eventsToWrite (review_audit current req nextStatus);
                       w = w\<lparr> w_store := st \<rparr>
                   in case r of
                        Inl err \<Rightarrow> (Inl err, w)
                      | Inr updated \<Rightarrow>
                          (Inr \<lparr> res_Transfer = updated, res_IdempotentReplay = False,
                                 res_Events = eventsToWrite \<rparr>, w))))"

definition Service_RecordReview ::
    "('e, 's, 'x, 'l, 'p) Service \<Rightarrow> 'e review_env \<Rightarrow> ('s, 'l, 'p) world \<Rightarrow> ReviewDecisionRequest \<Rightarrow>
       Result result \<times> ('s, 'l, 'p) world" where
  "Service_RecordReview s e w request =
     (let req = normalize_review (re_now e) request
      in if rv_TenantID req = '''' \<or> rv_TransferID req = '''' then
           (Inl (Suffixed (Sentinel ErrValidation) ''tenant_id and transfer_id are required''), w)
         else
           (let (got, st) = store_GetTransfer (svc_store s) (re_get e) (w_store w) (rv_TenantID req) (rv_TransferID req);
                w = w\<lparr> w_store := st \<rparr>
            in case got of
                 Inl err \<Rightarrow> (Inl err, w)
               | Inr current \<Rightarrow>
                   if t_Status current \<noteq> StatusReview then
                     (Inl (Suffixed (Sentinel ErrConflict) ''transfer is not waiting for review''), w)
                   else decide_review s e w req current))"

text \<open>The defaults of a callback; the reading of the clock and of the random source are arguments.\<close>

definition normalize_callback :: "gotime \<Rightarrow> rand_read \<Rightarrow> SettlementCallback \<Rightarrow> SettlementCallback" where
  "normalize_callback now rnd cb =
     (let cb = (if time_IsZero (cb_ReceivedAt cb) then cb\<lparr> cb_ReceivedAt := now \<rparr> else cb)
      in if cb_CorrelationID cb = '''' then cb\<lparr> cb_CorrelationID := newID ''corr'' rnd \<rparr> else cb)"

definition settlement_event_type :: "SettlementStatus \<Rightarrow> string option" where
  "settlement_event_type status =
     (if status = SettlementAccepted then Some ''pix_transfer_settled''
      else if status = SettlementRejected then Some ''pix_transfer_rejected''
      else None)"

definition settlement_audit :: "Transfer \<Rightarrow> SettlementCallback \<Rightarrow> AuditRecord" where
  "settlement_audit current cb =
     \<lparr> au_TenantID = t_TenantID current, au_AccountID = t_AccountID current,
       au_TransferID = t_ID current, au_Action = ''spi_settlement_callback_recorded'',
       au_CorrelationID = cb_CorrelationID cb,
       au_Metadata = [''status'' \<mapsto> cb_Status cb, ''code'' \<mapsto> cb_Code cb],
       au_CreatedAt = cb_ReceivedAt cb \<rparr>"

text \<open>The callback applied to the transfer that was read.\<close>

definition settle_current ::
    "('e, 's, 'x, 'l, 'p) Service \<Rightarrow> 'e settle_env \<Rightarrow> ('s, 'l, 'p) world \<Rightarrow> SettlementCallback \<Rightarrow> Transfer \<Rightarrow>
       Result result \<times> ('s, 'l, 'p) world" where
  "settle_current s e w cb current =
     (if t_SPIMessageID current = '''' \<or> t_SPIMessageID current \<noteq> cb_SPIMessageID cb then
        (Inl (Suffixed (Sentinel ErrConflict) ''spi_message_id mismatch''), w)
      else (case settlement_event_type (cb_Status cb) of
          None \<Rightarrow> (Inl (Suffixed (Sentinel ErrValidation) ''unsupported settlement status''), w)
        | Some eventType \<Rightarrow>
            (case events_New (newID ''evt'' (te_id e)) eventType (t_TenantID current)
                    (t_AccountID current) (t_ID current) (cb_CorrelationID cb) (cb_ReceivedAt cb)
                    [(''spi_message_id'', JString (cb_SPIMessageID cb)),
                     (''status'', JString (cb_Status cb)), (''code'', JString (cb_Code cb))] of
               Inl err \<Rightarrow> (Inl err, w)
             | Inr event \<Rightarrow>
                 (let (r, st) = store_UpdateSettlement (svc_store s) (te_update e) (w_store w)
                                  (cb_TenantID cb) (cb_TransferID cb) cb [event] (settlement_audit current cb);
                      w = w\<lparr> w_store := st \<rparr>
                  in case r of
                       Inl err \<Rightarrow> (Inl err, w)
                     | Inr (updated, replay) \<Rightarrow>
                         (Inr \<lparr> res_Transfer = updated, res_IdempotentReplay = replay,
                                res_Events = (if replay then [] else [event]) \<rparr>, w)))))"

definition Service_RecordSettlement ::
    "('e, 's, 'x, 'l, 'p) Service \<Rightarrow> 'e settle_env \<Rightarrow> ('s, 'l, 'p) world \<Rightarrow> SettlementCallback \<Rightarrow>
       Result result \<times> ('s, 'l, 'p) world" where
  "Service_RecordSettlement s e w callback =
     (let cb = normalize_callback (te_now e) (te_corr e) callback
      in if cb_TenantID cb = '''' \<or> cb_TransferID cb = '''' \<or> cb_SPIMessageID cb = '''' then
           (Inl (Suffixed (Sentinel ErrValidation) ''tenant_id, transfer_id, and spi_message_id are required''), w)
         else
           (let cb = (if cb_CallbackHash cb = '''' then cb\<lparr> cb_CallbackHash := SettlementCallback_Fingerprint cb \<rparr>
                      else cb);
                (got, st) = store_GetTransfer (svc_store s) (te_get e) (w_store w) (cb_TenantID cb) (cb_TransferID cb);
                w = w\<lparr> w_store := st \<rparr>
            in case got of
                 Inl err \<Rightarrow> (Inl err, w)
               | Inr current \<Rightarrow> settle_current s e w cb current))"

definition Service_Outbox ::
    "('e, 's, 'x, 'l, 'p) Service \<Rightarrow> 'e \<Rightarrow> ('s, 'l, 'p) world \<Rightarrow> OutboxRecord list result \<times> ('s, 'l, 'p) world" where
  "Service_Outbox s e w =
     (let (r, st) = store_Outbox (svc_store s) e (w_store w) in (r, w\<lparr> w_store := st \<rparr>))"

definition Service_Audit ::
    "('e, 's, 'x, 'l, 'p) Service \<Rightarrow> 'e \<Rightarrow> ('s, 'l, 'p) world \<Rightarrow> AuditRecord list result \<times> ('s, 'l, 'p) world" where
  "Service_Audit s e w =
     (let (r, st) = store_Audit (svc_store s) e (w_store w) in (r, w\<lparr> w_store := st \<rparr>))"

end
