(* ===== verification/Switcher_Contract.thy ===== *)
theory Switcher_Contract
  imports Switcher
begin

text \<open>
  What each use case of the switch does to any store that keeps the contract \<open>transfer_store\<close>:
  a caller sees its own write, if there is one, after something that the other callers did.
  The lemmas are proved once for the contract and hold of every store that meets it.
\<close>

section \<open>Lemmas on the parts of a use case\<close>

lemma decided_new:
  "fd_Status decision \<in> {StatusAccepted, StatusReview, StatusBlocked} \<Longrightarrow>
     Transfer_new (decided_transfer tid now req h dictEntry decision)"
  by (auto simp: Transfer_new_def decided_transfer_def)

lemma decided_fields [simp]:
  "t_ID (decided_transfer tid now req h de dc) = tid"
  "t_TenantID (decided_transfer tid now req h de dc) = req_TenantID req"
  "t_IdempotencyKey (decided_transfer tid now req h de dc) = req_IdempotencyKey req"
  "t_RequestHash (decided_transfer tid now req h de dc) = h"
  "t_Status (decided_transfer tid now req h de dc) = fd_Status dc"
  by (simp_all add: decided_transfer_def)

lemma admit_frame:
  assumes "admit s x w req = (r, w')"
  shows "w_store w' = w_store w" "w_spi w' = w_spi w"
    and "r = Inr (de, dc) \<Longrightarrow> fd_Status dc \<in> {StatusAccepted, StatusReview, StatusBlocked}"
  using assms by (auto simp: admit_def Let_def split: prod.splits if_splits sum.splits)

lemma add_events_encodable:
  assumes "\<forall>(ty, p) \<in> set specs. \<forall>(k, v) \<in> set p. encodable v"
  shows "map ev_EventType (add_events src n t specs) = map fst specs \<and>
    (\<forall>ev \<in> set (add_events src n t specs). ev_TenantID ev = t_TenantID t \<and> ev_AccountID ev = t_AccountID t \<and>
       ev_TransferID ev = t_ID t \<and> ev_CorrelationID ev = t_CorrelationID t)"
  using assms
proof (induction specs arbitrary: n)
  case Nil
  show ?case by simp
next
  case (Cons sp specs)
  obtain ty p where sp: "sp = (ty, p)" by (cases sp)
  have "\<forall>(k, v) \<in> set p. encodable v" using Cons.prems by (simp add: sp)
  then obtain ev where "events_New (newID ''evt'' (fst (src n))) ty (t_TenantID t) (t_AccountID t) (t_ID t)
      (t_CorrelationID t) (snd (src n)) p = Inr ev" "ev_EventType ev = ty" "ev_TenantID ev = t_TenantID t"
      "ev_AccountID ev = t_AccountID t" "ev_TransferID ev = t_ID t" "ev_CorrelationID ev = t_CorrelationID t"
    by (rule events_New_Inr)
  with Cons show ?case by (simp add: sp)
qed

lemma add_all_events_encodable:
  assumes "\<forall>(ty, p) \<in> set specs. \<forall>(k, v) \<in> set p. encodable v"
  shows "\<exists>evs. add_all_events src n t co specs = Inr evs \<and> map ev_EventType evs = map fst specs \<and>
    (\<forall>ev \<in> set evs. ev_TenantID ev = t_TenantID t \<and> ev_AccountID ev = t_AccountID t \<and>
       ev_TransferID ev = t_ID t \<and> ev_CorrelationID ev = co)"
  using assms
proof (induction specs arbitrary: n)
  case Nil
  show ?case by simp
next
  case (Cons sp specs)
  obtain ty p where sp: "sp = (ty, p)" by (cases sp)
  have "\<forall>(k, v) \<in> set p. encodable v" using Cons.prems by (simp add: sp)
  then obtain ev where "events_New (newID ''evt'' (fst (src n))) ty (t_TenantID t) (t_AccountID t) (t_ID t)
      co (snd (src n)) p = Inr ev" "ev_EventType ev = ty" "ev_TenantID ev = t_TenantID t"
      "ev_AccountID ev = t_AccountID t" "ev_TransferID ev = t_ID t" "ev_CorrelationID ev = co"
    by (rule events_New_Inr)
  moreover obtain evs where "add_all_events src (Suc n) t co specs = Inr evs" "map ev_EventType evs = map fst specs"
      "\<forall>ev \<in> set evs. ev_TenantID ev = t_TenantID t \<and> ev_AccountID ev = t_AccountID t \<and>
         ev_TransferID ev = t_ID t \<and> ev_CorrelationID ev = co"
    using Cons.IH [of "Suc n"] Cons.prems by auto
  ultimately show ?case by (simp add: sp)
qed

lemma switch_events_encodable:
  "\<forall>(ty, p) \<in> set (decision_events t h de dc). \<forall>(k, v) \<in> set p. encodable v"
  "\<forall>(ty, p) \<in> set (submission_events t m). \<forall>(k, v) \<in> set p. encodable v"
  "\<forall>(ty, p) \<in> set (review_events t req st ety reason). \<forall>(k, v) \<in> set p. encodable v"
  by (simp_all add: decision_events_def submission_events_def review_events_def)

lemma hashParts_nonempty: "hashParts ps \<noteq> ''''"
proof -
  have "length (hashParts ps) = 64" by (simp add: hashParts_def)
  then show ?thesis by auto
qed

lemma normalize_request_fields [simp]:
  "req_TenantID (normalize_request now r) = strings_TrimSpace (req_TenantID r)"
  "req_IdempotencyKey (normalize_request now r) = strings_TrimSpace (req_IdempotencyKey r)"
  "req_AccountID (normalize_request now r) = strings_TrimSpace (req_AccountID r)"
  "req_ReceiverKey (normalize_request now r) = strings_TrimSpace (req_ReceiverKey r)"
  "req_AmountCents (normalize_request now r) = req_AmountCents r"
  by (simp_all add: normalize_request_def Let_def)

section \<open>What a use case does to a store that keeps the contract\<close>

text \<open>The writes of the use cases, as relations between the view before and the view after.\<close>

definition insert_write :: "store_view \<Rightarrow> Transfer \<Rightarrow> Event list \<Rightarrow> AuditRecord list \<Rightarrow> store_view \<Rightarrow> bool" where
  "insert_write v t evs aus v' \<longleftrightarrow>
     sv_transfers v (t_ID t) = None \<and>
     (\<nexists>u. view_idempotent v (t_TenantID t) (t_IdempotencyKey t) u) \<and> view_write v t evs aus v'"

definition claim_write ::
    "store_view \<Rightarrow> string \<Rightarrow> string \<Rightarrow> string \<Rightarrow> gotime \<Rightarrow> Transfer \<Rightarrow> store_view \<Rightarrow> bool" where
  "claim_write v tn i tok until cur v' \<longleftrightarrow>
     (\<exists>t now. view_owns v tn i t \<and> Transfer_ClaimSPISubmission t tok until now = Inr cur \<and>
        view_write v cur [] [] v')"

definition spi_write ::
    "store_view \<Rightarrow> string \<Rightarrow> string \<Rightarrow> string \<Rightarrow> SPIMessage \<Rightarrow> Event list \<Rightarrow> AuditRecord \<Rightarrow> Transfer \<Rightarrow>
       store_view \<Rightarrow> bool" where
  "spi_write v tn i tok m evs au t' v' \<longleftrightarrow>
     (\<exists>t. view_owns v tn i t \<and> Transfer_RecordSPISubmission t tok m = Inr t' \<and>
        view_write v t' evs [au] v')"

definition review_write ::
    "store_view \<Rightarrow> string \<Rightarrow> string \<Rightarrow> ReviewDecision \<Rightarrow> Result \<Rightarrow> store_view \<Rightarrow> bool" where
  "review_write v tn i decision res v' \<longleftrightarrow>
     (\<exists>t nextStatus reason au. view_owns v tn i t \<and> t_Status t = StatusReview \<and>
        (nextStatus = StatusAccepted \<and> decision = ReviewApprove \<and>
           map ev_EventType (res_Events res) = [''pix_transfer_review_approved'', ''spi_submission_requested''] \<or>
         nextStatus = StatusBlocked \<and> decision = ReviewBlock \<and>
           map ev_EventType (res_Events res) = [''pix_transfer_review_blocked'', ''pix_transfer_blocked'']) \<and>
        Transfer_RecordReviewDecision t nextStatus reason (au_CreatedAt au) = Inr (res_Transfer res) \<and>
        view_write v (res_Transfer res) (res_Events res) [au] v')"

definition settle_write :: "store_view \<Rightarrow> SettlementCallback \<Rightarrow> Result \<Rightarrow> store_view \<Rightarrow> bool" where
  "settle_write v cb res v' \<longleftrightarrow>
     (\<exists>t au. view_owns v (cb_TenantID cb) (cb_TransferID cb) t \<and>
        sv_callbacks v (cb_TenantID cb) (cb_SPIMessageID cb) = None \<and>
        Transfer_RecordSettlement t cb = Inr (res_Transfer res) \<and>
        view_write v (res_Transfer res) (res_Events res) [au] v') \<and>
     map ev_EventType (res_Events res) =
       [if cb_Status cb = SettlementAccepted then ''pix_transfer_settled'' else ''pix_transfer_rejected'']"

context transfer_store
begin

text \<open>A write seen by a caller: something the others did, and then the write.\<close>

definition after_others :: "'s \<Rightarrow> (store_view \<Rightarrow> bool) \<Rightarrow> bool" where
  "after_others s P \<longleftrightarrow> (\<exists>s0. others s s0 \<and> P (view s0))"

lemma others_after: "others s s1 \<Longrightarrow> after_others s1 P \<Longrightarrow> after_others s P"
  unfolding after_others_def using others_trans by blast

definition create_env_ok :: "('e, 'x) create_env \<Rightarrow> bool" where
  "create_env_ok e \<longleftrightarrow> env_ok (ce_find e) \<and> env_ok (ce_insert e) \<and> env_ok (ce_refind e)"

definition submit_env_ok :: "('e, 'x) submit_env \<Rightarrow> bool" where
  "submit_env_ok e \<longleftrightarrow> env_ok (se_claim e) \<and> env_ok (se_record e) \<and> env_ok (se_release e)"

definition replayed :: "'s \<Rightarrow> string \<Rightarrow> string \<Rightarrow> string \<Rightarrow> Transfer \<Rightarrow> bool" where
  "replayed s' tn k h t \<longleftrightarrow> view_idempotent (view s') tn k t \<and> t_RequestHash t \<in> {'''', h}"

lemma replay_existing_Inr:
  "replay_existing t h = Inr res \<Longrightarrow>
     res_Transfer res = t \<and> res_IdempotentReplay res \<and> res_Events res = [] \<and> t_RequestHash t \<in> {'''', h}"
  by (auto simp: replay_existing_def split: if_splits)

lemma insert_decided_outcome:
  assumes sv: "svc_store sv = S" and e: "create_env_ok e" and inv: "inv (w_store w)"
    and tn: "tenant_ok (req_TenantID req)" and dc: "fd_Status dc \<in> {StatusAccepted, StatusReview, StatusBlocked}"
    and op: "insert_decided sv e w req h de dc = (r, w')"
  shows "rely (w_store w) (w_store w') \<and> w_spi w' = w_spi w \<and>
    (\<forall>err. r = Inl err \<longrightarrow> others (w_store w) (w_store w')) \<and>
    (\<forall>res. r = Inr res \<longrightarrow>
       (if res_IdempotentReplay res
        then others (w_store w) (w_store w') \<and> res_Events res = [] \<and>
             replayed (w_store w') (req_TenantID req) (req_IdempotencyKey req) h (res_Transfer res)
        else res_Transfer res = decided_transfer (newID ''pxt'' (ce_id e)) (ce_now e) req h de dc \<and>
             res_Events res = add_events (ce_events e) 0 (res_Transfer res)
               (decision_events (res_Transfer res) h de dc) \<and>
             after_others (w_store w) (\<lambda>v. insert_write v (res_Transfer res) (res_Events res) (decision_audit (res_Transfer res) (ce_now e)) (view (w_store w')))))"
proof -
  define t where "t = decided_transfer (newID ''pxt'' (ce_id e)) (ce_now e) req h de dc"
  define evs where "evs = add_events (ce_events e) 0 t (decision_events t h de dc)"
  obtain ri s1 where ins: "store_InsertTransfer S (ce_insert e) (w_store w) t evs (decision_audit t (ce_now e)) = (ri, s1)"
    by (meson surj_pair)
  have law: "rely (w_store w) s1" "ri \<noteq> None \<Longrightarrow> others (w_store w) s1"
    "ri = None \<Longrightarrow> after_others (w_store w) (\<lambda>v. insert_write v t evs (decision_audit t (ce_now e)) (view s1))"
    using insert [OF _ inv _ _ ins] e decided_new [OF dc] tn
    by (auto simp: create_env_ok_def after_others_def insert_write_def t_def)
  obtain rf s2 where find_again: "store_FindByIdempotency S (ce_refind e) s1 (req_TenantID req) (req_IdempotencyKey req) = (rf, s2)"
    by (meson surj_pair)
  have inv1: "inv s1" using law(1) inv by (rule rely_inv)
  have law2: "others s1 s2"
    "\<And>u. rf = Inr (Some u) \<Longrightarrow> view_idempotent (view s2) (req_TenantID req) (req_IdempotencyKey req) u"
    using find [OF _ inv1 find_again] e tn by (auto simp: create_env_ok_def)
  have rely2: "rely (w_store w) s2" using others_then [OF law(1) inv law2(1)] .
  show ?thesis
  proof (cases ri)
    case None
    with op ins sv have "r = Inr \<lparr> res_Transfer = t, res_IdempotentReplay = False, res_Events = evs \<rparr>" "w' = w\<lparr> w_store := s1 \<rparr>"
      by (simp_all add: insert_decided_def Let_def flip: t_def evs_def)
    with law None show ?thesis by (simp add: evs_def flip: t_def)
  next
    case (Some err)
    have oth: "others (w_store w) s2"
      using law(2) Some law2(1) others_trans by blast
    show ?thesis
    proof (cases "errors_Is err ErrConflict")
      case True
      with op ins sv Some find_again have w': "w' = w\<lparr> w_store := s2 \<rparr>"
        and r: "r = (case rf of Inl e \<Rightarrow> Inl e | Inr (Some u) \<Rightarrow> replay_existing u h | Inr None \<Rightarrow> Inl err)"
        by (auto simp: insert_decided_def Let_def simp flip: t_def evs_def split: sum.splits option.splits)
      have "res_IdempotentReplay res \<and> res_Events res = [] \<and>
          replayed s2 (req_TenantID req) (req_IdempotencyKey req) h (res_Transfer res)" if "r = Inr res" for res
        using that law2(2) replay_existing_Inr unfolding r replayed_def
        by (auto split: sum.splits option.splits)
      with w' oth rely2 show ?thesis by auto
    next
      case False
      with op ins sv Some have "r = Inl err" "w' = w\<lparr> w_store := s1 \<rparr>"
        by (simp_all add: insert_decided_def Let_def flip: t_def evs_def)
      with law Some show ?thesis by simp
    qed
  qed
qed

lemma CreateTransfer_outcome:
  assumes sv: "svc_store sv = S" and e: "create_env_ok e" and inv: "inv (w_store w)"
    and tn: "tenant_ok (strings_TrimSpace (req_TenantID request))"
    and op: "Service_CreateTransfer sv e w request = (r, w')"
  defines "req \<equiv> normalize_request (ce_requested e) request"
  defines "h \<equiv> CreateTransferRequest_Fingerprint req"
  shows "rely (w_store w) (w_store w') \<and> w_spi w' = w_spi w \<and>
    (\<forall>err. r = Inl err \<longrightarrow> others (w_store w) (w_store w')) \<and>
    (\<forall>res. r = Inr res \<longrightarrow> CreateTransferRequest_Validate req = None \<and>
       (if res_IdempotentReplay res
        then others (w_store w) (w_store w') \<and> res_Events res = [] \<and>
             replayed (w_store w') (req_TenantID req) (req_IdempotencyKey req) h (res_Transfer res)
        else \<exists>de dc. fd_Status dc \<in> {StatusAccepted, StatusReview, StatusBlocked} \<and>
             res_Transfer res = decided_transfer (newID ''pxt'' (ce_id e)) (ce_now e) req h de dc \<and>
             res_Events res = add_events (ce_events e) 0 (res_Transfer res)
               (decision_events (res_Transfer res) h de dc) \<and>
             after_others (w_store w) (\<lambda>v. insert_write v (res_Transfer res) (res_Events res) (decision_audit (res_Transfer res) (ce_now e)) (view (w_store w')))))"
proof (cases "CreateTransferRequest_Validate req")
  case (Some err)
  with op have "r = Inl err" "w' = w" by (simp_all add: Service_CreateTransfer_def Let_def flip: req_def)
  then show ?thesis using rely_refl others_refl by simp
next
  case None
  obtain rf s1 where find1: "store_FindByIdempotency S (ce_find e) (w_store w) (req_TenantID req) (req_IdempotencyKey req) = (rf, s1)"
    by (meson surj_pair)
  have law: "others (w_store w) s1"
    "\<And>u. rf = Inr (Some u) \<Longrightarrow> view_idempotent (view s1) (req_TenantID req) (req_IdempotencyKey req) u"
    using find [OF _ inv find1] e tn by (auto simp: create_env_ok_def req_def)
  have rely1: "rely (w_store w) s1" using others_rely [OF law(1) inv] .
  have inv1: "inv s1" using rely_inv [OF rely1 inv] .
  let ?w = "w\<lparr> w_store := s1 \<rparr>"
  show ?thesis
  proof (cases rf)
    case (Inl err)
    with op None find1 sv have "r = Inl err" "w' = ?w"
      by (simp_all add: Service_CreateTransfer_def Let_def flip: req_def)
    with rely1 law show ?thesis by simp
  next
    case (Inr found)
    show ?thesis
    proof (cases found)
      case (Some u)
      with Inr op None find1 sv have "r = replay_existing u h" "w' = ?w"
        by (simp_all add: Service_CreateTransfer_def Let_def h_def flip: req_def)
      with rely1 law Inr Some None replay_existing_Inr show ?thesis by (auto simp: replayed_def)
    next
      case none: None
      obtain ra w2 where adm: "admit sv (ce_ports e) ?w req = (ra, w2)" by (meson surj_pair)
      note frame = admit_frame [OF adm]
      show ?thesis
      proof (cases ra)
        case (Inl err)
        with Inr none op None find1 sv adm have "r = Inl err" "w' = w2"
          by (simp_all add: Service_CreateTransfer_def Let_def flip: req_def)
        with rely1 law frame show ?thesis by simp
      next
        case dec: (Inr dd)
        obtain de dc where dd: "dd = (de, dc)" by (cases dd)
        from Inr none op None find1 sv adm dec dd
        have ins: "insert_decided sv e w2 req h de dc = (r, w')"
          by (simp add: Service_CreateTransfer_def Let_def h_def flip: req_def)
        have st: "w_store w2 = s1" "w_spi w2 = w_spi w" using frame by simp_all
        have dc: "fd_Status dc \<in> {StatusAccepted, StatusReview, StatusBlocked}"
          using frame(3) dec dd by blast
        have "tenant_ok (req_TenantID req)" using tn by (simp add: req_def)
        note out = insert_decided_outcome [OF sv e _ this dc ins, unfolded st, OF inv1]
        show ?thesis
        proof (intro conjI allI impI, goal_cases)
          case 1
          show ?case using rely_trans [OF rely1] out by blast
        next
          case 2
          show ?case using out by blast
        next
          case (3 err)
          then show ?case using others_trans [OF law(1)] out by blast
        next
          case (4 res)
          show ?case by (rule None)
        next
          case (5 res)
          show ?case
          proof (cases "res_IdempotentReplay res")
            case True
            with 5 out others_trans [OF law(1)] show ?thesis by simp
          next
            case False
            with 5 out have "res_Transfer res = decided_transfer (newID ''pxt'' (ce_id e)) (ce_now e) req h de dc"
              "res_Events res = add_events (ce_events e) 0 (res_Transfer res)
                 (decision_events (res_Transfer res) h de dc)"
              "after_others s1 (\<lambda>v. insert_write v (res_Transfer res) (res_Events res) (decision_audit (res_Transfer res) (ce_now e)) (view (w_store w')))"
              by auto
            with False dc others_after [OF law(1)] show ?thesis by auto
          qed
        qed
      qed
    qed
  qed
qed

end

lemma view_inv_unique:
  assumes "view_inv v" and "sv_transfers v i = Some t" and "sv_transfers v j = Some u"
    and "t_TenantID t = t_TenantID u" and "t_IdempotencyKey t = t_IdempotencyKey u"
  shows "i = j"
proof -
  from assms(1) have "\<forall>i j t u. sv_transfers v i = Some t \<longrightarrow> sv_transfers v j = Some u \<longrightarrow>
      t_TenantID t = t_TenantID u \<longrightarrow> t_IdempotencyKey t = t_IdempotencyKey u \<longrightarrow> i = j"
    unfolding view_inv_def by (rule conjunct2)
  with assms(2-5) show ?thesis by blast
qed

context transfer_store
begin

lemma idempotent_evolves:
  assumes "rely s s'" and "inv s" and "view_idempotent (view s) tn k t"
  obtains t' where "view_idempotent (view s') tn k t'" "Transfer_identity t' = Transfer_identity t"
proof -
  from rely_view [OF assms(1,2)] assms(3) obtain t' where
    "sv_transfers (view s') (t_ID t) = Some t'" "Transfer_step\<^sup>*\<^sup>* t t'"
    unfolding view_evolves_def view_idempotent_def by blast
  with that [of t'] assms(3) Transfer_steps_identity [of t t'] Transfer_identity_fields [of t' t] show thesis
    by (auto simp: view_idempotent_def)
qed

lemma idempotent_unique:
  assumes "inv s" and t: "view_idempotent (view s) tn k t" and u: "view_idempotent (view s) tn k u"
  shows "t = u"
proof -
  have same: "t_ID t = t_ID u"
    by (rule view_inv_unique [where t = t and u = u, OF inv_view [OF assms(1)]])
      (use t u in \<open>simp_all add: view_idempotent_def\<close>)
  from t u show ?thesis unfolding view_idempotent_def same by simp
qed

lemma created_idempotent:
  assumes "svc_store sv = S" and "create_env_ok e" and "inv (w_store w)"
    and "tenant_ok (strings_TrimSpace (req_TenantID request))"
    and "Service_CreateTransfer sv e w request = (Inr res, w')"
  shows "view_idempotent (view (w_store w')) (strings_TrimSpace (req_TenantID request))
           (strings_TrimSpace (req_IdempotencyKey request)) (res_Transfer res)"
  using CreateTransfer_outcome [OF assms]
  by (auto simp: replayed_def after_others_def insert_write_def view_write_def view_idempotent_def split: if_splits)

lemma created_hash:
  assumes "svc_store sv = S" and "create_env_ok e" and "inv (w_store w)"
    and "tenant_ok (strings_TrimSpace (req_TenantID request))"
    and "Service_CreateTransfer sv e w request = (Inr res, w')"
  shows "t_RequestHash (res_Transfer res) \<in>
      {if res_IdempotentReplay res then '''' else CreateTransferRequest_Fingerprint (normalize_request (ce_requested e) request),
       CreateTransferRequest_Fingerprint (normalize_request (ce_requested e) request)}"
  using CreateTransfer_outcome [OF assms] by (auto simp: replayed_def split: if_splits)

lemma create_twice:
  assumes sv: "svc_store sv1 = S" "svc_store sv2 = S" and e: "create_env_ok e1" "create_env_ok e2"
    and inv: "inv (w_store w1)"
    and tn: "strings_TrimSpace (req_TenantID req2) = strings_TrimSpace (req_TenantID req1)"
      "tenant_ok (strings_TrimSpace (req_TenantID req1))"
    and key: "strings_TrimSpace (req_IdempotencyKey req2) = strings_TrimSpace (req_IdempotencyKey req1)"
    and op1: "Service_CreateTransfer sv1 e1 w1 req1 = (Inr res1, w1')"
    and between: "rely (w_store w1') (w_store w2)"
    and op2: "Service_CreateTransfer sv2 e2 w2 req2 = (Inr res2, w2')"
  shows "Transfer_identity (res_Transfer res2) = Transfer_identity (res_Transfer res1) \<and>
         res_IdempotentReplay res2"
proof -
  let ?tn = "strings_TrimSpace (req_TenantID req1)" and ?k = "strings_TrimSpace (req_IdempotencyKey req1)"
  have tn2: "tenant_ok (strings_TrimSpace (req_TenantID req2))" using tn by simp
  have rely1: "rely (w_store w1) (w_store w1')"
    using CreateTransfer_outcome [OF sv(1) e(1) inv tn(2) op1] by blast
  have inv1: "inv (w_store w1')" using rely_inv [OF rely1 inv] .
  have inv2: "inv (w_store w2)" using rely_inv [OF between inv1] .
  note out2 = CreateTransfer_outcome [OF sv(2) e(2) inv2 tn2 op2]
  have t1: "view_idempotent (view (w_store w1')) ?tn ?k (res_Transfer res1)"
    using created_idempotent [OF sv(1) e(1) inv tn(2) op1] .
  have replay: "res_IdempotentReplay res2"
  proof (rule ccontr)
    assume "\<not> res_IdempotentReplay res2"
    with out2 have "\<exists>evs aus. after_others (w_store w2) (\<lambda>v. insert_write v (res_Transfer res2) evs aus (view (w_store w2'))) \<and>
        t_TenantID (res_Transfer res2) = ?tn \<and> t_IdempotencyKey (res_Transfer res2) = ?k"
      using tn(1) key by auto
    then obtain s0 where "others (w_store w2) s0" "\<nexists>u. view_idempotent (view s0) ?tn ?k u"
      unfolding after_others_def insert_write_def by auto
    with rely_trans [OF between others_rely [OF _ inv2]] show False
      using idempotent_evolves [OF _ inv1 t1] by metis
  qed
  have rely2: "rely (w_store w1') (w_store w2')" using rely_trans [OF between] out2 by blast
  obtain u where u: "view_idempotent (view (w_store w2')) ?tn ?k u"
      "Transfer_identity u = Transfer_identity (res_Transfer res1)"
    using idempotent_evolves [OF rely2 inv1 t1] .
  have "view_idempotent (view (w_store w2')) ?tn ?k (res_Transfer res2)"
    using created_idempotent [OF sv(2) e(2) inv2 tn2 op2] tn(1) key by simp
  with u idempotent_unique [OF rely_inv [OF rely2 inv1]] have "u = res_Transfer res2" by blast
  with u replay show ?thesis by simp
qed

end

context transfer_store
begin

lemma release_claim_outcome:
  assumes sv: "svc_store sv = S" and e: "submit_env_ok e" and inv: "inv (w_store w)"
    and op: "release_claim sv e w tn i tok err = (r, w')"
  shows "r = Inl err" "rely (w_store w) (w_store w')" "w_spi w' = w_spi w"
proof -
  obtain ri s1 where rel: "store_ReleaseSPISubmission S (se_release e) (w_store w) tn i tok (error_Error err)
      (time_Add (se_release_now e) second) = (ri, s1)"
    by (meson surj_pair)
  with op sv have "r = Inl err" "w' = w\<lparr> w_store := s1 \<rparr>"
    by (simp_all add: release_claim_def)
  moreover have "rely (w_store w) s1" using release [OF _ inv rel] e by (simp add: submit_env_ok_def)
  ultimately show "r = Inl err" "rely (w_store w) (w_store w')" "w_spi w' = w_spi w" by simp_all
qed

lemma submit_claimed_outcome:
  assumes sv: "svc_store sv = S" and e: "submit_env_ok e" and inv: "inv (w_store w)"
    and op: "submit_claimed sv e w tn i tok co cur = (r, w')"
  shows "rely (w_store w) (w_store w') \<and> w_spi w' = snd (svc_spi sv (se_ports e) (w_spi w) cur) \<and>
    (\<forall>res. r = Inr res \<longrightarrow> (\<exists>m. fst (svc_spi sv (se_ports e) (w_spi w) cur) = Inr m \<and>
       t_Status (res_Transfer res) = StatusApproved \<and>
       (if res_IdempotentReplay res then res_Events res = []
        else map ev_EventType (res_Events res) = [''spi_message_created'', ''pix_transfer_approved''] \<and>
             after_others (w_store w) (\<lambda>v. spi_write v tn i tok m (res_Events res) (submission_audit cur co m) (res_Transfer res) (view (w_store w'))))))"
proof -
  obtain sent net where spi: "svc_spi sv (se_ports e) (w_spi w) cur = (sent, net)" by (meson surj_pair)
  let ?w = "w\<lparr> w_spi := net \<rparr>"
  show ?thesis
  proof (cases sent)
    case (Inl err)
    with op spi have "release_claim sv e ?w tn i tok err = (r, w')" by (simp add: submit_claimed_def)
    from release_claim_outcome [OF sv e _ this] inv show ?thesis by (simp add: spi)
  next
    case (Inr m)
    obtain evs where evs: "add_all_events (se_events e) 0 cur co (submission_events cur m) = Inr evs"
        "map ev_EventType evs = map fst (submission_events cur m)"
      using add_all_events_encodable [OF switch_events_encodable(2) [of cur m]] by blast
    have types: "map ev_EventType evs = [''spi_message_created'', ''pix_transfer_approved'']"
      using evs(2) by (simp add: submission_events_def)
    obtain rc s1 where rec: "store_RecordSPISubmission S (se_record e) (w_store w) tn i tok m evs
        (submission_audit cur co m) = (rc, s1)"
      by (meson surj_pair)
    have w': "w' = ?w\<lparr> w_store := s1 \<rparr>"
      and r: "r = (case rc of Inl err \<Rightarrow> Inl err | Inr (updated, replay) \<Rightarrow>
        Inr \<lparr> res_Transfer = updated, res_IdempotentReplay = replay, res_Events = (if replay then [] else evs) \<rparr>)"
      using op spi Inr evs rec sv by (auto simp: submit_claimed_def Let_def split: sum.splits prod.splits)
    have law: "rely (w_store w) s1" "\<And>t. rc = Inr (t, True) \<Longrightarrow> t_Status t = StatusApproved"
      "\<And>t. rc = Inr (t, False) \<Longrightarrow> after_others (w_store w) (\<lambda>v. spi_write v tn i tok m evs (submission_audit cur co m) t (view s1))"
      using record_spi [OF _ inv rec] e by (auto simp: submit_env_ok_def after_others_def spi_write_def)
    have approved: "t_Status t = StatusApproved"
      if "after_others (w_store w) (\<lambda>v. spi_write v tn i tok m evs (submission_audit cur co m) t (view s1))" for t
      using that method_status(2) unfolding after_others_def spi_write_def by blast
    have "t_Status (res_Transfer res) = StatusApproved \<and>
       (if res_IdempotentReplay res then res_Events res = []
        else map ev_EventType (res_Events res) = [''spi_message_created'', ''pix_transfer_approved''] \<and>
             after_others (w_store w) (\<lambda>v. spi_write v tn i tok m (res_Events res) (submission_audit cur co m) (res_Transfer res) (view s1)))"
      if "r = Inr res" for res
      using that law(2,3) types approved unfolding r
      by (auto split: sum.splits prod.splits if_splits)
    with w' law(1) spi Inr show ?thesis by simp
  qed
qed

lemma SubmitToSPI_outcome:
  assumes sv: "svc_store sv = S" and e: "submit_env_ok e" and inv: "inv (w_store w)"
    and op: "Service_SubmitToSPI sv e w tenant transfer correlation = (r, w')"
  defines "tok \<equiv> newID ''spiclaim'' (se_token e)" and "until \<equiv> time_Add (se_now e) spiClaimTTL"
    and "tn \<equiv> strings_TrimSpace tenant" and "i \<equiv> strings_TrimSpace transfer"
  shows "rely (w_store w) (w_store w') \<and>
    (w_spi w' = w_spi w \<and> (\<forall>res. r = Inr res \<longrightarrow> res_IdempotentReplay res \<and> res_Events res = [] \<and>
         t_Status (res_Transfer res) = StatusApproved) \<or>
     (\<exists>cur s1. after_others (w_store w) (\<lambda>v. claim_write v tn i tok until cur (view s1)) \<and>
        w_spi w' = snd (svc_spi sv (se_ports e) (w_spi w) cur) \<and>
        (\<forall>res. r = Inr res \<longrightarrow> (\<exists>m co. fst (svc_spi sv (se_ports e) (w_spi w) cur) = Inr m \<and>
           t_Status (res_Transfer res) = StatusApproved \<and>
           (if res_IdempotentReplay res then res_Events res = []
            else map ev_EventType (res_Events res) = [''spi_message_created'', ''pix_transfer_approved''] \<and>
                 after_others s1 (\<lambda>v. spi_write v tn i tok m (res_Events res) (submission_audit cur co m) (res_Transfer res) (view (w_store w'))))))))"
proof (cases "tn = '''' \<or> i = ''''")
  case True
  with op show ?thesis using rely_refl by (auto simp: Service_SubmitToSPI_def Let_def tn_def i_def)
next
  case False
  obtain rc s1 where cl: "store_ClaimSPISubmission S (se_claim e) (w_store w) tn i tok until = (rc, s1)"
    by (meson surj_pair)
  have law: "rely (w_store w) s1" "\<And>t. rc = Inr (t, True) \<Longrightarrow> t_Status t = StatusApproved"
    "\<And>t. rc = Inr (t, False) \<Longrightarrow> after_others (w_store w) (\<lambda>v. claim_write v tn i tok until t (view s1))"
    using claim [OF _ inv cl] e by (auto simp: submit_env_ok_def after_others_def claim_write_def)
  have inv1: "inv s1" using rely_inv [OF law(1) inv] .
  let ?w = "w\<lparr> w_store := s1 \<rparr>"
  note op' = op [unfolded Service_SubmitToSPI_def Let_def, folded tn_def i_def tok_def until_def]
  show ?thesis
  proof (cases rc)
    case (Inl err)
    with op' False cl sv law(1) show ?thesis by auto
  next
    case (Inr cr)
    obtain cur replay where cr: "cr = (cur, replay)" by (cases cr)
    show ?thesis
    proof (cases replay)
      case True
      with op' False cl sv law(1,2) Inr cr show ?thesis by auto
    next
      case fresh: False
      obtain co where "submit_claimed sv e ?w tn i tok co cur = (r, w')"
        using op' False cl sv Inr cr fresh by auto
      from submit_claimed_outcome [OF sv e _ this] inv1
      have out: "rely s1 (w_store w')" "w_spi w' = snd (svc_spi sv (se_ports e) (w_spi w) cur)"
        "\<And>res. r = Inr res \<Longrightarrow> \<exists>m. fst (svc_spi sv (se_ports e) (w_spi w) cur) = Inr m \<and>
           t_Status (res_Transfer res) = StatusApproved \<and>
           (if res_IdempotentReplay res then res_Events res = []
            else map ev_EventType (res_Events res) = [''spi_message_created'', ''pix_transfer_approved''] \<and>
                 after_others s1 (\<lambda>v. spi_write v tn i tok m (res_Events res) (submission_audit cur co m) (res_Transfer res) (view (w_store w'))))"
        by auto
      have "after_others (w_store w) (\<lambda>v. claim_write v tn i tok until cur (view s1))" using law(3) Inr cr fresh by blast
      with rely_trans [OF law(1) out(1)] out(2,3) show ?thesis by blast
    qed
  qed
qed

end

lemma submit_loop_counts:
  "submit_loop s es n w res pending = ((res', err), w') \<Longrightarrow>
     br_Scanned res' = br_Scanned res \<and> br_Submitted res \<le> br_Submitted res' \<and>
     br_Replayed res \<le> br_Replayed res' \<and> br_Skipped res \<le> br_Skipped res' \<and>
     (let done = br_Submitted res' + br_Replayed res' + br_Skipped res' -
                 (br_Submitted res + br_Replayed res + br_Skipped res)
      in if err = None then done = int (length pending) else done < int (length pending))"
proof (induction pending arbitrary: n w res)
  case Nil
  then show ?case by auto
next
  case (Cons t pending)
  obtain r w1 where sub: "Service_SubmitToSPI s (es n) w (t_TenantID t) (t_ID t) (t_CorrelationID t) = (r, w1)"
    by (meson surj_pair)
  show ?case
  proof (cases r)
    case (Inl e)
    show ?thesis
    proof (cases "errors_Is e ErrConflict")
      case True
      with Cons.prems Inl sub have
        "submit_loop s es (Suc n) w1 (res\<lparr> br_Skipped := br_Skipped res + 1 \<rparr>) pending = ((res', err), w')"
        by simp
      from Cons.IH [OF this] show ?thesis by (auto simp: Let_def split: if_splits)
    next
      case False
      with Cons.prems Inl sub show ?thesis by auto
    qed
  next
    case (Inr q)
    show ?thesis
    proof (cases "res_IdempotentReplay q")
      case True
      with Cons.prems Inr sub have
        "submit_loop s es (Suc n) w1 (res\<lparr> br_Replayed := br_Replayed res + 1 \<rparr>) pending = ((res', err), w')"
        by simp
      from Cons.IH [OF this] show ?thesis by (auto simp: Let_def split: if_splits)
    next
      case False
      with Cons.prems Inr sub have
        "submit_loop s es (Suc n) w1 (res\<lparr> br_Submitted := br_Submitted res + 1 \<rparr>) pending = ((res', err), w')"
        by simp
      from Cons.IH [OF this] show ?thesis by (auto simp: Let_def split: if_splits)
    qed
  qed
qed

context transfer_store
begin

lemma submit_loop_rely:
  assumes sv: "svc_store sv = S" and e: "\<forall>n. submit_env_ok (es n)"
  shows "inv (w_store w) \<Longrightarrow> submit_loop sv es n w res pending = (rr, w') \<Longrightarrow> rely (w_store w) (w_store w')"
proof (induction pending arbitrary: n w res)
  case Nil
  then show ?case using rely_refl by simp
next
  case (Cons t pending)
  obtain r w1 where sub: "Service_SubmitToSPI sv (es n) w (t_TenantID t) (t_ID t) (t_CorrelationID t) = (r, w1)"
    by (meson surj_pair)
  have rely1: "rely (w_store w) (w_store w1)"
    using SubmitToSPI_outcome [OF sv _ Cons.prems(1) sub] e by blast
  have inv1: "inv (w_store w1)" using rely_inv [OF rely1 Cons.prems(1)] .
  have "w' = w1 \<or> (\<exists>res'. submit_loop sv es (Suc n) w1 res' pending = (rr, w'))"
    using Cons.prems(2) sub by (auto split: sum.splits if_splits)
  then show ?case using rely1 Cons.IH [OF inv1] rely_trans by blast
qed

text \<open>A review that succeeds has decided a transfer in review and wrote two events and one audit record.\<close>

lemma review_event_types:
  assumes "review_outcome req = Inr (ns, ety, reason)"
  shows "ns = StatusAccepted \<and> rv_Decision req = ReviewApprove \<and>
      map fst (review_events cur req ns ety reason) = [''pix_transfer_review_approved'', ''spi_submission_requested''] \<or>
    ns = StatusBlocked \<and> rv_Decision req = ReviewBlock \<and>
      map fst (review_events cur req ns ety reason) = [''pix_transfer_review_blocked'', ''pix_transfer_blocked'']"
  using assms by (auto simp: review_outcome_def review_events_def split: if_splits)

lemma decide_review_outcome:
  assumes sv: "svc_store sv = S" and e: "env_ok (re_record e)" and inv: "inv (w_store w)"
    and op: "decide_review sv e w request cur = (r, w')"
  shows "rely (w_store w) (w_store w') \<and> w_spi w' = w_spi w \<and>
    (\<forall>err. r = Inl err \<longrightarrow> others (w_store w) (w_store w')) \<and>
    (\<forall>res. r = Inr res \<longrightarrow>
       \<not> res_IdempotentReplay res \<and>
       after_others (w_store w) (\<lambda>v. review_write v (rv_TenantID request) (rv_TransferID request) (rv_Decision request) res (view (w_store w'))))"
proof -
  define req where
    "req = (if rv_CorrelationID request = '''' then request\<lparr> rv_CorrelationID := t_CorrelationID cur \<rparr> else request)"
  have fields: "rv_TenantID req = rv_TenantID request" "rv_TransferID req = rv_TransferID request"
    "rv_Decision req = rv_Decision request"
    by (simp_all add: req_def)
  show ?thesis
  proof (cases "review_outcome req")
    case (Inl err)
    with op have "r = Inl err" "w' = w"
      by (simp_all add: decide_review_def Let_def flip: req_def)
    with rely_refl others_refl show ?thesis by simp
  next
    case (Inr o3)
    note outcome = this
    obtain ns ety reason where o3: "o3 = (ns, ety, reason)" by (cases o3)
    obtain evs where evs: "add_all_events (\<lambda>n. (re_ids e n, rv_ReviewedAt req)) 0 cur (rv_CorrelationID req)
          (review_events cur req ns ety reason) = Inr evs"
        "map ev_EventType evs = map fst (review_events cur req ns ety reason)"
      using add_all_events_encodable [OF switch_events_encodable(3) [of cur req ns ety reason]] by blast
    note types = review_event_types [of req ns ety reason cur, folded evs(2), unfolded fields]
    obtain rr s2 where rec: "store_RecordReviewDecision S (re_record e) (w_store w) (rv_TenantID request)
        (rv_TransferID request) ns reason evs (review_audit cur req ns) = (rr, s2)"
      by (meson surj_pair)
    have w': "w' = w\<lparr> w_store := s2 \<rparr>"
      and r: "r = (case rr of Inl err \<Rightarrow> Inl err | Inr updated \<Rightarrow>
         Inr \<lparr> res_Transfer = updated, res_IdempotentReplay = False, res_Events = evs \<rparr>)"
      using op sv Inr o3 evs(1) rec fields
      by (auto simp: decide_review_def Let_def simp flip: req_def split: sum.splits)
    have law: "rely (w_store w) s2" "\<And>err. rr = Inl err \<Longrightarrow> others (w_store w) s2"
      "\<And>t'. rr = Inr t' \<Longrightarrow> \<exists>s0 t. others (w_store w) s0 \<and>
         view_owns (view s0) (rv_TenantID request) (rv_TransferID request) t \<and>
         Transfer_RecordReviewDecision t ns reason (au_CreatedAt (review_audit cur req ns)) = Inr t' \<and>
         view_write (view s0) t' evs [review_audit cur req ns] (view s2)"
      using review [OF e inv rec] by blast+
    show ?thesis
    proof (cases rr)
      case (Inl err)
      with r w' law(1,2) show ?thesis by simp
    next
      case (Inr t')
      from law(3) [OF Inr] obtain s0 t where s0: "others (w_store w) s0"
          and t: "view_owns (view s0) (rv_TenantID request) (rv_TransferID request) t"
            "Transfer_RecordReviewDecision t ns reason (au_CreatedAt (review_audit cur req ns)) = Inr t'"
            "view_write (view s0) t' evs [review_audit cur req ns] (view s2)"
        by blast
      have "review_write (view s0) (rv_TenantID request) (rv_TransferID request) (rv_Decision request)
          \<lparr> res_Transfer = t', res_IdempotentReplay = False, res_Events = evs \<rparr> (view s2)"
        unfolding review_write_def
        by (intro exI [of _ t] exI [of _ ns] exI [of _ reason] exI [of _ "review_audit cur req ns"])
          (use t types outcome o3 method_status(3) [OF t(2)] in simp)
      with s0 have "after_others (w_store w) (\<lambda>v. review_write v (rv_TenantID request) (rv_TransferID request)
          (rv_Decision request) \<lparr> res_Transfer = t', res_IdempotentReplay = False, res_Events = evs \<rparr> (view s2))"
        unfolding after_others_def by blast
      with r w' law(1) Inr show ?thesis by simp
    qed
  qed
qed

lemma RecordReview_outcome:
  assumes sv: "svc_store sv = S" and e: "env_ok (re_get e)" "env_ok (re_record e)" and inv: "inv (w_store w)"
    and op: "Service_RecordReview sv e w request = (r, w')"
  shows "rely (w_store w) (w_store w') \<and> w_spi w' = w_spi w \<and>
    (\<forall>err. r = Inl err \<longrightarrow> others (w_store w) (w_store w')) \<and>
    (\<forall>res. r = Inr res \<longrightarrow> \<not> res_IdempotentReplay res \<and>
       after_others (w_store w) (\<lambda>v. review_write v (strings_TrimSpace (rv_TenantID request)) (strings_TrimSpace (rv_TransferID request)) (rv_Decision request) res (view (w_store w'))))"
proof -
  define req where "req = normalize_review (re_now e) request"
  have fields: "rv_TenantID req = strings_TrimSpace (rv_TenantID request)"
    "rv_TransferID req = strings_TrimSpace (rv_TransferID request)" "rv_Decision req = rv_Decision request"
    by (simp_all add: req_def normalize_review_def Let_def)
  obtain rg s1 where got: "store_GetTransfer S (re_get e) (w_store w) (rv_TenantID req) (rv_TransferID req) = (rg, s1)"
    by (meson surj_pair)
  have law: "others (w_store w) s1" using get [OF e(1) inv got] by blast
  have rely1: "rely (w_store w) s1" using others_rely [OF law inv] .
  have inv1: "inv s1" using rely_inv [OF rely1 inv] .
  let ?w = "w\<lparr> w_store := s1 \<rparr>"
  consider (early) err where "r = Inl err" "w' = w" | (failed) err where "r = Inl err" "w' = ?w"
    | (decided) cur where "decide_review sv e ?w req cur = (r, w')"
    using op got sv
    by (auto simp: Service_RecordReview_def Let_def simp flip: req_def split: if_splits sum.splits)
  then show ?thesis
  proof cases
    case early
    with rely_refl others_refl show ?thesis by simp
  next
    case failed
    with rely1 law show ?thesis by simp
  next
    case decided
    note out = decide_review_outcome [OF sv e(2) _ decided, unfolded fields]
    from out inv1 rely_trans [OF rely1] others_trans [OF law] others_after [OF law] show ?thesis
      by simp
  qed
qed

lemma settle_current_outcome:
  assumes sv: "svc_store sv = S" and e: "env_ok (te_update e)" and inv: "inv (w_store w)"
    and hash: "cb_CallbackHash cb \<noteq> ''''"
    and op: "settle_current sv e w cb cur = (r, w')"
  shows "rely (w_store w) (w_store w') \<and> w_spi w' = w_spi w \<and>
    (\<forall>err. r = Inl err \<longrightarrow> others (w_store w) (w_store w')) \<and>
    (\<forall>res. r = Inr res \<longrightarrow>
       sv_callbacks (view (w_store w')) (cb_TenantID cb) (cb_SPIMessageID cb) = Some (cb_CallbackHash cb) \<and>
       (if res_IdempotentReplay res then others (w_store w) (w_store w') \<and> res_Events res = []
        else after_others (w_store w) (\<lambda>v. settle_write v cb res (view (w_store w')))))"
proof -
  consider (failed) err where "r = Inl err" "w' = w"
    | (update) ety ev where "settlement_event_type (cb_Status cb) = Some ety"
      "events_New (newID ''evt'' (te_id e)) ety (t_TenantID cur) (t_AccountID cur) (t_ID cur) (cb_CorrelationID cb)
         (cb_ReceivedAt cb) [(''spi_message_id'', JString (cb_SPIMessageID cb)),
            (''status'', JString (cb_Status cb)), (''code'', JString (cb_Code cb))] = Inr ev"
      "t_SPIMessageID cur \<noteq> ''''" "t_SPIMessageID cur = cb_SPIMessageID cb"
    using op by (auto simp: settle_current_def split: if_splits option.splits sum.splits)
  then show ?thesis
  proof cases
    case failed
    with rely_refl others_refl show ?thesis by simp
  next
    case update
    have ety: "ety = (if cb_Status cb = SettlementAccepted then ''pix_transfer_settled'' else ''pix_transfer_rejected'')"
      using update(1) by (auto simp: settlement_event_type_def split: if_splits)
    have "ev_EventType ev = ety" using update(2) by (auto simp: events_New_def split: sum.splits)
    obtain rc s2 where rec: "store_UpdateSettlement S (te_update e) (w_store w) (cb_TenantID cb) (cb_TransferID cb)
        cb [ev] (settlement_audit cur cb) = (rc, s2)"
      by (meson surj_pair)
    have w': "w' = w\<lparr> w_store := s2 \<rparr>"
      and r: "r = (case rc of Inl err \<Rightarrow> Inl err | Inr (updated, replay) \<Rightarrow>
         Inr \<lparr> res_Transfer = updated, res_IdempotentReplay = replay, res_Events = (if replay then [] else [ev]) \<rparr>)"
      using op sv update rec by (auto simp: settle_current_def Let_def split: sum.splits)
    note law = settle [OF e inv hash rec]
    show ?thesis
    proof (cases rc)
      case (Inl err)
      with r w' law show ?thesis by simp
    next
      case (Inr tr)
      obtain t' replay where tr: "tr = (t', replay)" by (cases tr)
      have "after_others (w_store w) (\<lambda>v. settle_write v cb \<lparr> res_Transfer = t', res_IdempotentReplay = False, res_Events = [ev] \<rparr> (view s2))"
        if "\<not> replay"
        using law that Inr tr \<open>ev_EventType ev = ety\<close> ety unfolding after_others_def settle_write_def by auto
      with r w' law Inr tr show ?thesis by (cases replay) auto
    qed
  qed
qed

lemma RecordSettlement_outcome:
  assumes sv: "svc_store sv = S" and e: "env_ok (te_get e)" "env_ok (te_update e)" and inv: "inv (w_store w)"
    and op: "Service_RecordSettlement sv e w callback = (r, w')"
  defines "cb0 \<equiv> normalize_callback (te_now e) (te_corr e) callback"
  defines "cb \<equiv> cb0\<lparr> cb_CallbackHash := (if cb_CallbackHash callback = '''' then SettlementCallback_Fingerprint callback
                                         else cb_CallbackHash callback) \<rparr>"
  shows "rely (w_store w) (w_store w') \<and> w_spi w' = w_spi w \<and>
    (\<forall>err. r = Inl err \<longrightarrow> others (w_store w) (w_store w')) \<and>
    (\<forall>res. r = Inr res \<longrightarrow>
       sv_callbacks (view (w_store w')) (cb_TenantID callback) (cb_SPIMessageID callback) = Some (cb_CallbackHash cb) \<and>
       (if res_IdempotentReplay res then others (w_store w) (w_store w') \<and> res_Events res = []
        else after_others (w_store w) (\<lambda>v. settle_write v cb res (view (w_store w')))))"
proof -
  have fields: "cb_CallbackHash cb0 = cb_CallbackHash callback" "cb_TenantID cb = cb_TenantID callback"
    "cb_TransferID cb = cb_TransferID callback" "cb_SPIMessageID cb = cb_SPIMessageID callback"
    "SettlementCallback_Fingerprint cb0 = SettlementCallback_Fingerprint callback"
    by (simp_all add: cb0_def cb_def normalize_callback_def Let_def SettlementCallback_Fingerprint_def callback_parts_def)
  have cb: "(if cb_CallbackHash cb0 = '''' then cb0\<lparr> cb_CallbackHash := SettlementCallback_Fingerprint cb0 \<rparr> else cb0) = cb"
    using fields by (simp add: cb_def)
  have hash: "cb_CallbackHash cb \<noteq> ''''"
    using hashParts_nonempty by (simp add: cb_def SettlementCallback_Fingerprint_def)
  obtain rg s1 where got: "store_GetTransfer S (te_get e) (w_store w) (cb_TenantID cb) (cb_TransferID cb) = (rg, s1)"
    by (meson surj_pair)
  have law: "others (w_store w) s1" using get [OF e(1) inv got] by blast
  have rely1: "rely (w_store w) s1" using others_rely [OF law inv] .
  have inv1: "inv s1" using rely_inv [OF rely1 inv] .
  let ?w = "w\<lparr> w_store := s1 \<rparr>"
  consider (early) err where "r = Inl err" "w' = w" | (failed) err where "r = Inl err" "w' = ?w"
    | (settle) cur where "settle_current sv e ?w cb cur = (r, w')"
    using op got sv
    by (auto simp: Service_RecordSettlement_def Let_def cb simp flip: cb0_def split: if_splits sum.splits)
  then show ?thesis
  proof cases
    case early
    with rely_refl others_refl show ?thesis by simp
  next
    case failed
    with rely1 law show ?thesis by simp
  next
    case settle
    note out = settle_current_outcome [OF sv e(2) _ hash settle]
    have st: "w_store ?w = s1" "w_spi ?w = w_spi w" by simp_all
    from out [unfolded st, OF inv1] rely_trans [OF rely1] others_trans [OF law] others_after [OF law] fields show ?thesis
      by auto
  qed
qed

end

end
