(* ===== verification/Ratelimit.thy ===== *)
theory Ratelimit
  imports Go_Prelude
begin

text \<open>
  The rate limiters, \<open>internal/ratelimit/limiter.go\<close> (the token bucket the switch uses) and
  \<open>internal/ratelimit/strategies.go\<close> (fixed window, sliding window, leaky bucket).

  Every limiter keeps one slot per key under a mutex; \<open>Allow\<close> reads the clock once, which is the
  argument \<open>now\<close> here.  For each limiter a step function decides on one slot, and \<open>Allow\<close> applies
  it to the slot of its key.
\<close>

section \<open>Token bucket\<close>

record BucketConfig =
  bc_Capacity :: int
  bc_RefillTokens :: int
  bc_RefillEvery :: duration

record bucket =
  bk_tokens :: int
  bk_seenAt :: gotime

record Limiter =
  lm_config :: BucketConfig
  lm_buckets :: "string \<rightharpoonup> bucket"

definition Limiter_New :: "BucketConfig \<Rightarrow> Limiter" where
  "Limiter_New c =
     (let c = (if bc_Capacity c \<le> 0 then c\<lparr> bc_Capacity := 60 \<rparr> else c);
          c = (if bc_RefillTokens c \<le> 0 then c\<lparr> bc_RefillTokens := bc_Capacity c \<rparr> else c);
          c = (if bc_RefillEvery c \<le> 0 then c\<lparr> bc_RefillEvery := minute \<rparr> else c)
      in \<lparr> lm_config = c, lm_buckets = Map.empty \<rparr>)"

definition refill :: "BucketConfig \<Rightarrow> bucket \<Rightarrow> gotime \<Rightarrow> bucket" where
  "refill c b now =
     (let elapsed = time_Sub now (bk_seenAt b)
      in if elapsed \<ge> bc_RefillEvery c then
           (let periods = elapsed div bc_RefillEvery c;
                tokens = wrap64 (bk_tokens b + wrap64 (periods * bc_RefillTokens c))
            in \<lparr> bk_tokens = (if tokens > bc_Capacity c then bc_Capacity c else tokens),
                 bk_seenAt = time_Add (bk_seenAt b) (wrap64 (periods * bc_RefillEvery c)) \<rparr>)
         else b)"

definition bucket_step :: "BucketConfig \<Rightarrow> bucket option \<Rightarrow> gotime \<Rightarrow> bool \<times> bucket option" where
  "bucket_step c slot now =
     (case slot of
        None \<Rightarrow> (True, Some \<lparr> bk_tokens = wrap64 (bc_Capacity c - 1), bk_seenAt = now \<rparr>)
      | Some b0 \<Rightarrow>
          (let b = refill c b0 now
           in if bk_tokens b \<le> 0 then (False, Some b)
              else (True, Some (b\<lparr> bk_tokens := wrap64 (bk_tokens b - 1) \<rparr>))))"

definition Limiter_Allow :: "Limiter \<Rightarrow> gotime \<Rightarrow> string \<Rightarrow> bool \<times> Limiter" where
  "Limiter_Allow l now key =
     (let (ok, b) = bucket_step (lm_config l) (lm_buckets l key) now
      in (ok, l\<lparr> lm_buckets := (lm_buckets l)(key := b) \<rparr>))"

section \<open>Fixed window\<close>

record FixedWindowConfig =
  fw_Limit :: int
  fw_Window :: duration

record fixedWindow =
  fx_start :: gotime
  fx_count :: int

record FixedWindowLimiter =
  fl_config :: FixedWindowConfig
  fl_windows :: "string \<rightharpoonup> fixedWindow"

definition NewFixedWindow :: "FixedWindowConfig \<Rightarrow> FixedWindowLimiter" where
  "NewFixedWindow c =
     (let c = (if fw_Limit c \<le> 0 then c\<lparr> fw_Limit := 60 \<rparr> else c);
          c = (if fw_Window c \<le> 0 then c\<lparr> fw_Window := minute \<rparr> else c)
      in \<lparr> fl_config = c, fl_windows = Map.empty \<rparr>)"

text \<open>A missing key reads as the zero window.\<close>

definition fixed_step :: "FixedWindowConfig \<Rightarrow> fixedWindow option \<Rightarrow> gotime \<Rightarrow> bool \<times> fixedWindow option" where
  "fixed_step c slot now =
     (let window = (case slot of None \<Rightarrow> \<lparr> fx_start = 0, fx_count = 0 \<rparr> | Some w \<Rightarrow> w)
      in if time_IsZero (fx_start window) \<or> time_Sub now (fx_start window) \<ge> fw_Window c then
           (True, Some \<lparr> fx_start = now, fx_count = 1 \<rparr>)
         else if fx_count window \<ge> fw_Limit c then (False, slot)
         else (True, Some (window\<lparr> fx_count := wrap64 (fx_count window + 1) \<rparr>)))"

definition FixedWindowLimiter_Allow :: "FixedWindowLimiter \<Rightarrow> gotime \<Rightarrow> string \<Rightarrow> bool \<times> FixedWindowLimiter" where
  "FixedWindowLimiter_Allow l now key =
     (let (ok, w) = fixed_step (fl_config l) (fl_windows l key) now
      in (ok, l\<lparr> fl_windows := (fl_windows l)(key := w) \<rparr>))"

section \<open>Sliding window\<close>

record SlidingWindowConfig =
  sw_Limit :: int
  sw_Window :: duration

record SlidingWindowLimiter =
  sl_config :: SlidingWindowConfig
  sl_events :: "string \<rightharpoonup> gotime list"

definition NewSlidingWindow :: "SlidingWindowConfig \<Rightarrow> SlidingWindowLimiter" where
  "NewSlidingWindow c =
     (let c = (if sw_Limit c \<le> 0 then c\<lparr> sw_Limit := 60 \<rparr> else c);
          c = (if sw_Window c \<le> 0 then c\<lparr> sw_Window := minute \<rparr> else c)
      in \<lparr> sl_config = c, sl_events = Map.empty \<rparr>)"

text \<open>The loop over \<open>keepFrom\<close> and the copy drop the events that are not after the cutoff.\<close>

definition sliding_step :: "SlidingWindowConfig \<Rightarrow> gotime list option \<Rightarrow> gotime \<Rightarrow> bool \<times> gotime list option" where
  "sliding_step c slot now =
     (let cutoff = time_Add now (- sw_Window c);
          events = dropWhile (\<lambda>t. \<not> time_After t cutoff) (case slot of None \<Rightarrow> [] | Some ts \<Rightarrow> ts)
      in if int (length events) \<ge> sw_Limit c then (False, Some events)
         else (True, Some (events @ [now])))"

definition SlidingWindowLimiter_Allow :: "SlidingWindowLimiter \<Rightarrow> gotime \<Rightarrow> string \<Rightarrow> bool \<times> SlidingWindowLimiter" where
  "SlidingWindowLimiter_Allow l now key =
     (let (ok, ts) = sliding_step (sl_config l) (sl_events l key) now
      in (ok, l\<lparr> sl_events := (sl_events l)(key := ts) \<rparr>))"

section \<open>Leaky bucket\<close>

record LeakyBucketConfig =
  lb_Capacity :: int
  lb_LeakEvery :: duration

record leakyBucket =
  lk_level :: int
  lk_seenAt :: gotime

record LeakyBucketLimiter =
  ll_config :: LeakyBucketConfig
  ll_buckets :: "string \<rightharpoonup> leakyBucket"

definition NewLeakyBucket :: "LeakyBucketConfig \<Rightarrow> LeakyBucketLimiter" where
  "NewLeakyBucket c =
     (let c = (if lb_Capacity c \<le> 0 then c\<lparr> lb_Capacity := 60 \<rparr> else c);
          c = (if lb_LeakEvery c \<le> 0 then c\<lparr> lb_LeakEvery := second \<rparr> else c)
      in \<lparr> ll_config = c, ll_buckets = Map.empty \<rparr>)"

definition leak :: "LeakyBucketConfig \<Rightarrow> leakyBucket \<Rightarrow> gotime \<Rightarrow> leakyBucket" where
  "leak c b now =
     (let elapsed = time_Sub now (lk_seenAt b)
      in if elapsed \<ge> lb_LeakEvery c then
           (let leaked = elapsed div lb_LeakEvery c;
                level = wrap64 (lk_level b - leaked)
            in \<lparr> lk_level = (if level < 0 then 0 else level),
                 lk_seenAt = time_Add (lk_seenAt b) (wrap64 (leaked * lb_LeakEvery c)) \<rparr>)
         else b)"

definition leaky_step :: "LeakyBucketConfig \<Rightarrow> leakyBucket option \<Rightarrow> gotime \<Rightarrow> bool \<times> leakyBucket option" where
  "leaky_step c slot now =
     (let bucket = (case slot of None \<Rightarrow> \<lparr> lk_level = 0, lk_seenAt = 0 \<rparr> | Some b \<Rightarrow> b)
      in if time_IsZero (lk_seenAt bucket) then (True, Some \<lparr> lk_level = 1, lk_seenAt = now \<rparr>)
         else (let b = leak c bucket now
               in if lk_level b \<ge> lb_Capacity c then (False, Some b)
                  else (True, Some (b\<lparr> lk_level := wrap64 (lk_level b + 1) \<rparr>))))"

definition LeakyBucketLimiter_Allow :: "LeakyBucketLimiter \<Rightarrow> gotime \<Rightarrow> string \<Rightarrow> bool \<times> LeakyBucketLimiter" where
  "LeakyBucketLimiter_Allow l now key =
     (let (ok, b) = leaky_step (ll_config l) (ll_buckets l key) now
      in (ok, l\<lparr> ll_buckets := (ll_buckets l)(key := b) \<rparr>))"

section \<open>The contract of a limiter\<close>

text \<open>The times at which a sequence of requests for one slot is admitted, and those of one key in a sequence of requests.\<close>

fun slot_admitted :: "('b \<Rightarrow> gotime \<Rightarrow> bool \<times> 'b) \<Rightarrow> 'b \<Rightarrow> gotime list \<Rightarrow> gotime list" where
  "slot_admitted step b [] = []"
| "slot_admitted step b (now # ts) =
     (let (ok, b') = step b now in (if ok then [now] else []) @ slot_admitted step b' ts)"

fun admitted :: "('l \<Rightarrow> gotime \<Rightarrow> string \<Rightarrow> bool \<times> 'l) \<Rightarrow> 'l \<Rightarrow> (gotime \<times> string) list \<Rightarrow> string \<Rightarrow> gotime list" where
  "admitted allow l [] key = []"
| "admitted allow l ((now, k) # reqs) key =
     (let (ok, l') = allow l now k
      in (if ok \<and> k = key then [now] else []) @ admitted allow l' reqs key)"

definition requests_of :: "string \<Rightarrow> (gotime \<times> string) list \<Rightarrow> gotime list" where
  "requests_of key reqs = map fst (filter (\<lambda>(now, k). k = key) reqs)"

text \<open>
  What the switch and the operator rely on: a request touches the slot of its own key only, and
  the decision depends on that slot and on the configuration only.
\<close>

locale keyed_limiter =
  fixes allow :: "'l \<Rightarrow> gotime \<Rightarrow> string \<Rightarrow> bool \<times> 'l"
    and slot :: "'l \<Rightarrow> string \<Rightarrow> 'b"
    and config :: "'l \<Rightarrow> 'c"
    and step :: "'c \<Rightarrow> 'b \<Rightarrow> gotime \<Rightarrow> bool \<times> 'b"
  assumes allow_step: "allow l now k = (ok, l') \<Longrightarrow> step (config l) (slot l k) now = (ok, slot l' k)"
    and allow_frame: "allow l now k = (ok, l') \<Longrightarrow> k' \<noteq> k \<Longrightarrow> slot l' k' = slot l k'"
    and allow_config: "allow l now k = (ok, l') \<Longrightarrow> config l' = config l"
begin

lemma admitted_slot:
  "admitted allow l reqs key = slot_admitted (step (config l)) (slot l key) (requests_of key reqs)"
proof (induction reqs arbitrary: l)
  case Nil
  show ?case by (simp add: requests_of_def)
next
  case (Cons req reqs)
  obtain now k where req: "req = (now, k)" by (cases req)
  obtain ok l' where a: "allow l now k = (ok, l')" by (meson surj_pair)
  show ?case
    using Cons.IH [of l'] allow_step [OF a] allow_frame [OF a, of key] allow_config [OF a] a
    by (cases "k = key") (auto simp: req requests_of_def)
qed

text \<open>Requests for other keys never change the answers for a key.\<close>

lemma key_independence:
  assumes "requests_of key reqs = requests_of key reqs'"
  shows "admitted allow l reqs key = admitted allow l reqs' key"
  by (simp add: admitted_slot assms)

end

interpretation tb: keyed_limiter Limiter_Allow lm_buckets lm_config bucket_step
  by unfold_locales (auto simp: Limiter_Allow_def split: prod.splits)

interpretation fw: keyed_limiter FixedWindowLimiter_Allow fl_windows fl_config fixed_step
  by unfold_locales (auto simp: FixedWindowLimiter_Allow_def split: prod.splits)

interpretation sw: keyed_limiter SlidingWindowLimiter_Allow sl_events sl_config sliding_step
  by unfold_locales (auto simp: SlidingWindowLimiter_Allow_def split: prod.splits)

interpretation lb: keyed_limiter LeakyBucketLimiter_Allow ll_buckets ll_config leaky_step
  by unfold_locales (auto simp: LeakyBucketLimiter_Allow_def split: prod.splits)

section \<open>How much each limiter lets through\<close>

text \<open>
  A clock that does not run backwards delivers sorted times.  The counters of the token bucket
  stay inside \<open>int64\<close> for configurations in this range; one bucket per minute with fewer than
  fifty thousand million tokens is inside it.
\<close>

definition bucket_config_ok :: "BucketConfig \<Rightarrow> bool" where
  "bucket_config_ok c \<longleftrightarrow>
     0 < bc_Capacity c \<and> 0 < bc_RefillTokens c \<and> 0 < bc_RefillEvery c \<and>
     bc_Capacity c + int64_max div bc_RefillEvery c * bc_RefillTokens c \<le> int64_max"

lemma time_Sub_le: "u \<le> t \<Longrightarrow> time_Sub t u \<le> t - u"
  by (auto simp: time_Sub_def int64_min_def int64_max_def)

lemma periods_wrap:
  assumes "0 < (e::int)" and "0 \<le> el" and "el \<le> int64_max"
  shows "wrap64 (el div e * e) = el div e * e" "el div e * e \<le> el" "0 \<le> el div e"
proof -
  show le: "el div e * e \<le> el" using assms(1) by (simp flip: minus_mod_eq_div_mult)
  show nn: "0 \<le> el div e" using assms by (simp add: pos_imp_zdiv_nonneg_iff)
  have "0 \<le> el div e * e" using nn assms(1) by simp
  with le assms(3) show "wrap64 (el div e * e) = el div e * e"
    by (simp add: wrap64_id int64_min_def)
qed

lemma div_minus_periods: "0 < (e::int) \<Longrightarrow> (x - p * e) div e = x div e - p"
  using div_mult_self1 [of e x "- p"] by simp

lemma refill_bounds:
  assumes ok: "bucket_config_ok c" and b: "0 \<le> bk_tokens b" "bk_tokens b \<le> bc_Capacity c" "bk_seenAt b \<le> now"
  obtains p where "0 \<le> p" "bk_seenAt (refill c b now) = bk_seenAt b + p * bc_RefillEvery c"
    "bk_seenAt (refill c b now) \<le> now" "0 \<le> bk_tokens (refill c b now)"
    "bk_tokens (refill c b now) \<le> bc_Capacity c" "bk_tokens (refill c b now) \<le> bk_tokens b + p * bc_RefillTokens c"
proof (cases "bc_RefillEvery c \<le> time_Sub now (bk_seenAt b)")
  case False
  with b that [of 0] show thesis by (simp add: refill_def Let_def)
next
  case True
  let ?e = "bc_RefillEvery c" and ?r = "bc_RefillTokens c" and ?el = "time_Sub now (bk_seenAt b)"
  define p where "p = ?el div ?e"
  have pos: "0 < ?e" "0 < ?r" "0 < bc_Capacity c"
    and room: "bc_Capacity c + int64_max div ?e * ?r \<le> int64_max"
    using ok by (simp_all add: bucket_config_ok_def)
  have el: "0 \<le> ?el" "?el \<le> int64_max" "?el \<le> now - bk_seenAt b"
    using True pos(1) time_Sub_range time_Sub_le [OF b(3)] by auto
  note per = periods_wrap [OF pos(1) el(1,2), folded p_def]
  have "p \<le> int64_max div ?e" unfolding p_def using el(2) pos(1) by (rule zdiv_mono1)
  then have "p * ?r \<le> int64_max div ?e * ?r" using pos(2) by simp
  moreover have "0 \<le> p * ?r" using per(3) pos(2) by simp
  ultimately have w: "wrap64 (p * ?r) = p * ?r" "wrap64 (bk_tokens b + p * ?r) = bk_tokens b + p * ?r"
    using room b pos(3) by (simp_all add: wrap64_id int64_min_def)
  have eq: "refill c b now = \<lparr> bk_tokens = (if bk_tokens b + p * ?r > bc_Capacity c then bc_Capacity c
        else bk_tokens b + p * ?r), bk_seenAt = bk_seenAt b + p * ?e \<rparr>"
    using True by (simp add: refill_def Let_def w per(1) time_Add_def flip: p_def)
  have "bk_seenAt b + p * ?e \<le> now" using per(2) el(3) by simp
  with that [of p] per(3) eq b pos(3) \<open>0 \<le> p * ?r\<close> show thesis by simp
qed

lemma bucket_run_bound:
  assumes ok: "bucket_config_ok c"
  shows "sorted ts \<Longrightarrow> 0 \<le> bk_tokens b \<Longrightarrow> bk_tokens b \<le> bc_Capacity c \<Longrightarrow>
     \<forall>t \<in> set ts. bk_seenAt b \<le> t \<and> t \<le> T \<Longrightarrow> bk_seenAt b \<le> T \<Longrightarrow>
     int (length (slot_admitted (bucket_step c) (Some b) ts)) \<le>
       bk_tokens b + bc_RefillTokens c * ((T - bk_seenAt b) div bc_RefillEvery c)"
proof (induction ts arbitrary: b)
  case Nil
  have "0 \<le> (T - bk_seenAt b) div bc_RefillEvery c"
    using ok Nil.prems(5) by (simp add: bucket_config_ok_def pos_imp_zdiv_nonneg_iff)
  with ok Nil.prems(2) show ?case by (simp add: bucket_config_ok_def)
next
  case (Cons now ts)
  let ?e = "bc_RefillEvery c" and ?r = "bc_RefillTokens c"
  have pos: "0 < ?e" using ok by (simp add: bucket_config_ok_def)
  define b1 where "b1 = refill c b now"
  have "bk_seenAt b \<le> now" using Cons.prems(4) by simp
  then obtain p where p: "0 \<le> p" "bk_seenAt b1 = bk_seenAt b + p * ?e" "bk_seenAt b1 \<le> now"
      "0 \<le> bk_tokens b1" "bk_tokens b1 \<le> bc_Capacity c" "bk_tokens b1 \<le> bk_tokens b + p * ?r"
    using refill_bounds [OF ok Cons.prems(2,3)] unfolding b1_def by metis
  have div: "(T - bk_seenAt b1) div ?e = (T - bk_seenAt b) div ?e - p"
    using div_minus_periods [OF pos, of "T - bk_seenAt b" p] p(2) by (simp add: algebra_simps)
  have later: "\<forall>t \<in> set ts. bk_seenAt b1 \<le> t \<and> t \<le> T" "bk_seenAt b1 \<le> T" "sorted ts"
    using Cons.prems(1,4) p(3) by auto
  have cap: "bc_Capacity c \<le> int64_max"
  proof -
    have "0 \<le> int64_max div ?e * ?r" using ok pos
      by (simp add: bucket_config_ok_def int64_max_def pos_imp_zdiv_nonneg_iff)
    with ok show ?thesis by (simp add: bucket_config_ok_def)
  qed
  show ?case
  proof (cases "bk_tokens b1 \<le> 0")
    case True
    then have "bucket_step c (Some b) now = (False, Some b1)"
      by (simp add: bucket_step_def Let_def flip: b1_def)
    with Cons.IH [of b1] later p(4-6) div show ?thesis by (simp add: algebra_simps)
  next
    case False
    define b2 where "b2 = b1\<lparr> bk_tokens := bk_tokens b1 - 1 \<rparr>"
    have w: "wrap64 (bk_tokens b1 - 1) = bk_tokens b1 - 1"
      using False p(5) cap by (simp add: wrap64_id int64_min_def)
    have "bk_tokens b2 = bk_tokens b1 - 1" "bk_seenAt b2 = bk_seenAt b1" by (simp_all add: b2_def)
    moreover have "bucket_step c (Some b) now = (True, Some b2)"
      using False w by (simp add: bucket_step_def Let_def b2_def flip: b1_def)
    ultimately show ?thesis
      using Cons.IH [of b2] later p(4-6) div False by (simp add: algebra_simps)
  qed
qed

lemma requests_sorted: "sorted (map fst reqs) \<Longrightarrow> sorted (requests_of key reqs)"
  unfolding requests_of_def by (rule sorted_filter)

text \<open>The fixed window: every window lasts at least its length and admits at most the limit.\<close>

definition fixed_config_ok :: "FixedWindowConfig \<Rightarrow> bool" where
  "fixed_config_ok c \<longleftrightarrow> 0 < fw_Limit c \<and> fw_Limit c < int64_max \<and> 0 < fw_Window c"

lemma time_Sub_ge: "time_Sub t u \<ge> d \<Longrightarrow> 0 < d \<Longrightarrow> u + d \<le> t"
  by (auto simp: time_Sub_def int64_min_def min_def max_def split: if_splits)

lemma fixed_run_bound:
  assumes ok: "fixed_config_ok c"
  shows "sorted ts \<Longrightarrow> \<forall>t \<in> set ts. 0 < t \<and> fx_start w \<le> t \<and> t \<le> T \<Longrightarrow> 0 < fx_start w \<Longrightarrow> fx_start w \<le> T \<Longrightarrow>
     0 \<le> fx_count w \<Longrightarrow> fx_count w \<le> fw_Limit c \<Longrightarrow>
     fx_count w + int (length (slot_admitted (fixed_step c) (Some w) ts)) \<le>
       fw_Limit c * ((T - fx_start w) div fw_Window c + 1)"
proof (induction ts arbitrary: w)
  case Nil
  have "0 \<le> (T - fx_start w) div fw_Window c"
    using ok Nil.prems(4) by (simp add: fixed_config_ok_def pos_imp_zdiv_nonneg_iff)
  then have "fw_Limit c * 1 \<le> fw_Limit c * ((T - fx_start w) div fw_Window c + 1)"
    using ok unfolding fixed_config_ok_def by (intro mult_left_mono) auto
  with Nil.prems(6) show ?case by simp
next
  case (Cons now ts)
  have pos: "0 < fw_Window c" "0 < fw_Limit c" using ok by (simp_all add: fixed_config_ok_def)
  have nz: "\<not> time_IsZero (fx_start w)" using Cons.prems(3) by (simp add: time_IsZero_def)
  have later: "sorted ts" "\<forall>t \<in> set ts. 0 < t \<and> fx_start w \<le> t \<and> t \<le> T" "\<forall>t \<in> set ts. now \<le> t"
    using Cons.prems(1,2) by auto
  consider (rollover) "time_Sub now (fx_start w) \<ge> fw_Window c"
    | (full) "time_Sub now (fx_start w) < fw_Window c" "fx_count w \<ge> fw_Limit c"
    | (count) "time_Sub now (fx_start w) < fw_Window c" "fx_count w < fw_Limit c"
    by linarith
  then show ?case
  proof cases
    case rollover
    let ?w = "\<lparr> fx_start = now, fx_count = 1 \<rparr>"
    have step: "fixed_step c (Some w) now = (True, Some ?w)"
      using rollover by (simp add: fixed_step_def Let_def)
    have start: "fx_start w + fw_Window c \<le> now" using rollover pos(1) by (rule time_Sub_ge)
    have "1 + int (length (slot_admitted (fixed_step c) (Some ?w) ts)) \<le>
        fw_Limit c * ((T - now) div fw_Window c + 1)"
      using Cons.IH [of ?w] later Cons.prems(2) pos(2) by auto
    also have "\<dots> \<le> fw_Limit c * ((T - fx_start w) div fw_Window c)"
    proof (rule mult_left_mono)
      have "(T - now) div fw_Window c \<le> (T - fx_start w - 1 * fw_Window c) div fw_Window c"
        using start pos(1) by (intro zdiv_mono1) simp_all
      then show "(T - now) div fw_Window c + 1 \<le> (T - fx_start w) div fw_Window c"
        using div_minus_periods [OF pos(1), of "T - fx_start w" 1] by simp
    qed (use pos(2) in simp)
    finally show ?thesis
      using step Cons.prems(6) by (simp add: algebra_simps)
  next
    case full
    with nz have "fixed_step c (Some w) now = (False, Some w)" by (simp add: fixed_step_def Let_def)
    with Cons.IH [of w] later Cons.prems show ?thesis by simp
  next
    case count
    have "wrap64 (fx_count w + 1) = fx_count w + 1"
      using count ok Cons.prems(5) by (simp add: wrap64_id fixed_config_ok_def int64_min_def)
    with count nz have "fixed_step c (Some w) now = (True, Some (w\<lparr> fx_count := fx_count w + 1 \<rparr>))"
      by (simp add: fixed_step_def Let_def)
    with count Cons.IH [of "w\<lparr> fx_count := fx_count w + 1 \<rparr>"] later Cons.prems show ?thesis by simp
  qed
qed

text \<open>The sliding window: the events on file are the admitted ones of the last window.\<close>

definition spaced :: "nat \<Rightarrow> duration \<Rightarrow> gotime list \<Rightarrow> bool" where
  "spaced n d xs \<longleftrightarrow> (\<forall>i. i + n < length xs \<longrightarrow> xs ! i + d \<le> xs ! (i + n))"

lemma spaced_snoc:
  assumes "spaced n d xs" and "n \<le> length xs \<Longrightarrow> 0 < n \<Longrightarrow> xs ! (length xs - n) + d \<le> x" and "0 < n"
  shows "spaced n d (xs @ [x])"
  unfolding spaced_def
proof (intro allI impI)
  fix i
  assume i: "i + n < length (xs @ [x])"
  show "(xs @ [x]) ! i + d \<le> (xs @ [x]) ! (i + n)"
  proof (cases "i + n = length xs")
    case True
    then have "length xs - n = i" by simp
    with assms(2,3) True show ?thesis by (simp add: nth_append)
  next
    case False
    with i assms(1) show ?thesis by (simp add: spaced_def nth_append)
  qed
qed

lemma sliding_run_spaced:
  assumes n: "n = nat (sw_Limit c)" "0 < sw_Limit c"
  shows "spaced n (sw_Window c) (old @ ev) \<Longrightarrow> \<forall>x \<in> set old. x + sw_Window c \<le> now0 \<Longrightarrow>
     sorted ts \<Longrightarrow> \<forall>t \<in> set ts. now0 \<le> t \<Longrightarrow>
     spaced n (sw_Window c) (old @ ev @ slot_admitted (sliding_step c) (Some ev) ts)"
proof (induction ts arbitrary: old ev now0)
  case Nil
  then show ?case by simp
next
  case (Cons now ts)
  let ?w = "sw_Window c"
  let ?gone = "\<lambda>t. \<not> time_After t (time_Add now (- ?w))"
  define dropped where "dropped = takeWhile ?gone ev"
  define ev1 where "ev1 = dropWhile ?gone ev"
  have ev: "ev = dropped @ ev1" by (simp add: dropped_def ev1_def)
  have old1: "\<forall>x \<in> set (old @ dropped). x + ?w \<le> now"
    using Cons.prems(2,4) by (fastforce simp: dropped_def go_simps dest: set_takeWhileD)
  have later: "sorted ts" "\<forall>t \<in> set ts. now \<le> t" using Cons.prems(3) by auto
  have sp: "spaced n ?w ((old @ dropped) @ ev1)" using Cons.prems(1) ev by simp
  show ?case
  proof (cases "int (length ev1) \<ge> sw_Limit c")
    case True
    then have "sliding_step c (Some ev) now = (False, Some ev1)"
      by (simp add: sliding_step_def Let_def flip: ev1_def)
    with Cons.IH [OF sp old1 later] ev show ?thesis by simp
  next
    case False
    then have step: "sliding_step c (Some ev) now = (True, Some (ev1 @ [now]))"
      by (simp add: sliding_step_def Let_def flip: ev1_def)
    have "spaced n ?w (((old @ dropped) @ ev1) @ [now])"
    proof (rule spaced_snoc [OF sp])
      show "0 < n" using n by simp
      assume "n \<le> length ((old @ dropped) @ ev1)"
      then have i: "length ((old @ dropped) @ ev1) - n < length (old @ dropped)"
        using False n by auto
      then have "((old @ dropped) @ ev1) ! (length ((old @ dropped) @ ev1) - n) \<in> set (old @ dropped)"
        by (simp only: nth_append_left [OF i] nth_mem)
      with old1 show "((old @ dropped) @ ev1) ! (length ((old @ dropped) @ ev1) - n) + ?w \<le> now" by blast
    qed
    then have "spaced n ?w ((old @ dropped) @ ev1 @ [now])" by simp
    from Cons.IH [OF this old1 later] step ev show ?thesis by simp
  qed
qed

text \<open>The leaky bucket.\<close>

definition leaky_config_ok :: "LeakyBucketConfig \<Rightarrow> bool" where
  "leaky_config_ok c \<longleftrightarrow> 0 < lb_Capacity c \<and> lb_Capacity c < int64_max \<and> 0 < lb_LeakEvery c"

lemma leak_bounds:
  assumes ok: "leaky_config_ok c" and b: "0 \<le> lk_level b" "lk_level b \<le> lb_Capacity c" "lk_seenAt b \<le> now"
  obtains p where "0 \<le> p" "lk_seenAt (leak c b now) = lk_seenAt b + p * lb_LeakEvery c"
    "lk_seenAt (leak c b now) \<le> now" "0 \<le> lk_level (leak c b now)"
    "lk_level (leak c b now) \<le> lb_Capacity c" "lk_level b - p \<le> lk_level (leak c b now)"
proof (cases "lb_LeakEvery c \<le> time_Sub now (lk_seenAt b)")
  case False
  with b that [of 0] show thesis by (simp add: leak_def Let_def)
next
  case True
  let ?e = "lb_LeakEvery c" and ?el = "time_Sub now (lk_seenAt b)"
  define p where "p = ?el div ?e"
  have pos: "0 < ?e" and cap: "lb_Capacity c < int64_max" "0 < lb_Capacity c"
    using ok by (simp_all add: leaky_config_ok_def)
  have el: "0 \<le> ?el" "?el \<le> int64_max" "?el \<le> now - lk_seenAt b"
    using True pos time_Sub_range time_Sub_le [OF b(3)] by auto
  note per = periods_wrap [OF pos el(1,2), folded p_def]
  have "p * 1 \<le> p * ?e" using per(3) pos by (intro mult_left_mono) auto
  with per(2) el(2) have "p \<le> int64_max" by simp
  with per(3) b cap have w: "wrap64 (lk_level b - p) = lk_level b - p"
    by (simp add: wrap64_id int64_min_def int64_max_def)
  have eq: "leak c b now = \<lparr> lk_level = (if lk_level b - p < 0 then 0 else lk_level b - p),
        lk_seenAt = lk_seenAt b + p * ?e \<rparr>"
    using True by (simp add: leak_def Let_def w per(1) time_Add_def flip: p_def)
  have "lk_seenAt b + p * ?e \<le> now" using per(2) el(3) by simp
  with that [of p] per(3) eq b cap show thesis by simp
qed

lemma leaky_run_bound:
  assumes ok: "leaky_config_ok c"
  shows "sorted ts \<Longrightarrow> 0 \<le> lk_level b \<Longrightarrow> lk_level b \<le> lb_Capacity c \<Longrightarrow> 0 < lk_seenAt b \<Longrightarrow>
     \<forall>t \<in> set ts. lk_seenAt b \<le> t \<and> t \<le> T \<Longrightarrow> lk_seenAt b \<le> T \<Longrightarrow>
     int (length (slot_admitted (leaky_step c) (Some b) ts)) \<le>
       lb_Capacity c - lk_level b + (T - lk_seenAt b) div lb_LeakEvery c"
proof (induction ts arbitrary: b)
  case Nil
  have "0 \<le> (T - lk_seenAt b) div lb_LeakEvery c"
    using ok Nil.prems(6) by (simp add: leaky_config_ok_def pos_imp_zdiv_nonneg_iff)
  with Nil.prems(3) show ?case by simp
next
  case (Cons now ts)
  let ?e = "lb_LeakEvery c"
  have pos: "0 < ?e" using ok by (simp add: leaky_config_ok_def)
  define b1 where "b1 = leak c b now"
  have "lk_seenAt b \<le> now" using Cons.prems(5) by simp
  then obtain p where p: "0 \<le> p" "lk_seenAt b1 = lk_seenAt b + p * ?e" "lk_seenAt b1 \<le> now"
      "0 \<le> lk_level b1" "lk_level b1 \<le> lb_Capacity c" "lk_level b - p \<le> lk_level b1"
    using leak_bounds [OF ok Cons.prems(2,3)] unfolding b1_def by metis
  have div: "(T - lk_seenAt b1) div ?e = (T - lk_seenAt b) div ?e - p"
    using div_minus_periods [OF pos, of "T - lk_seenAt b" p] p(2) by (simp add: algebra_simps)
  have "0 \<le> p * ?e" using p(1) pos by simp
  then have seen: "0 < lk_seenAt b1" using p(2) Cons.prems(4) by linarith
  have later: "sorted ts" "\<forall>t \<in> set ts. lk_seenAt b1 \<le> t \<and> t \<le> T" "lk_seenAt b1 \<le> T"
    using Cons.prems(1,5) p(3) by auto
  have nz: "\<not> time_IsZero (lk_seenAt b)" using Cons.prems(4) by (simp add: time_IsZero_def)
  show ?case
  proof (cases "lk_level b1 \<ge> lb_Capacity c")
    case True
    with nz have "leaky_step c (Some b) now = (False, Some b1)"
      by (simp add: leaky_step_def Let_def flip: b1_def)
    with Cons.IH [of b1] later p(4-6) div seen show ?thesis by simp
  next
    case False
    define b2 where "b2 = b1\<lparr> lk_level := lk_level b1 + 1 \<rparr>"
    have "wrap64 (lk_level b1 + 1) = lk_level b1 + 1"
      using False p(4) ok by (simp add: wrap64_id int64_min_def leaky_config_ok_def)
    with nz False have "leaky_step c (Some b) now = (True, Some b2)"
      by (simp add: leaky_step_def Let_def b2_def flip: b1_def)
    moreover have "lk_level b2 = lk_level b1 + 1" "lk_seenAt b2 = lk_seenAt b1" by (simp_all add: b2_def)
    ultimately show ?thesis
      using Cons.IH [of b2] later p(4-6) div seen False by simp
  qed
qed

section \<open>Properties\<close>

text \<open>
  C14 (token bucket).  With a clock that does not run backwards, a token bucket admits in any span
  from \<open>t0\<close> to \<open>T\<close> that contains all requests of a key at most its capacity plus one refill for
  every full refill period of the span, whatever the requests of other keys, and its counters
  never leave \<open>int64\<close>.
\<close>

theorem token_bucket_bound:
  assumes ok: "bucket_config_ok (lm_config (Limiter_New cfg))" and clock: "sorted (map fst reqs)"
    and span: "\<forall>t \<in> set (requests_of key reqs). t0 \<le> t \<and> t \<le> T" "t0 \<le> T"
  shows "int (length (admitted Limiter_Allow (Limiter_New cfg) reqs key)) \<le>
     bc_Capacity (lm_config (Limiter_New cfg)) + bc_RefillTokens (lm_config (Limiter_New cfg)) *
       ((T - t0) div bc_RefillEvery (lm_config (Limiter_New cfg)))"
proof -
  let ?c = "lm_config (Limiter_New cfg)"
  have pos: "0 < bc_RefillEvery ?c" "0 < bc_RefillTokens ?c" "0 < bc_Capacity ?c"
    using ok by (simp_all add: bucket_config_ok_def)
  have empty: "lm_buckets (Limiter_New cfg) key = None" by (simp add: Limiter_New_def Let_def)
  have sorted: "sorted (requests_of key reqs)" using clock by (rule requests_sorted)
  have room: "0 \<le> bc_RefillTokens ?c * ((T - t) div bc_RefillEvery ?c)" if "t \<le> T" for t
    using that pos by (simp add: pos_imp_zdiv_nonneg_iff)
  show ?thesis
  proof (cases "requests_of key reqs")
    case Nil
    with room [OF span(2)] pos show ?thesis by (simp add: tb.admitted_slot)
  next
    case (Cons now ts)
    let ?b = "\<lparr> bk_tokens = bc_Capacity ?c - 1, bk_seenAt = now \<rparr>"
    have le: "0 \<le> int64_max div bc_RefillEvery ?c * bc_RefillTokens ?c"
      using pos by (simp add: int64_max_def pos_imp_zdiv_nonneg_iff)
    have cap: "bc_Capacity ?c \<le> int64_max"
      using ok le by (simp add: bucket_config_ok_def)
    have "wrap64 (bc_Capacity ?c - 1) = bc_Capacity ?c - 1"
      using pos cap by (simp add: wrap64_id int64_min_def)
    then have step: "bucket_step ?c None now = (True, Some ?b)" by (simp add: bucket_step_def)
    have "int (length (slot_admitted (bucket_step ?c) (Some ?b) ts)) \<le>
        bc_Capacity ?c - 1 + bc_RefillTokens ?c * ((T - now) div bc_RefillEvery ?c)"
      using bucket_run_bound [OF ok, of ts ?b T] sorted span Cons pos by auto
    also have "\<dots> \<le> bc_Capacity ?c - 1 + bc_RefillTokens ?c * ((T - t0) div bc_RefillEvery ?c)"
      using span Cons pos by (auto intro!: mult_left_mono zdiv_mono1)
    finally show ?thesis by (simp add: tb.admitted_slot Cons empty step)
  qed
qed

theorem token_bucket_bound_witness:
  "int (length (admitted Limiter_Allow (Limiter_New \<lparr> bc_Capacity = 2, bc_RefillTokens = 2, bc_RefillEvery = 10 \<rparr>)
     [(1, ''a''), (2, ''a''), (3, ''b''), (4, ''a''), (12, ''a'')] ''a'')) \<le> 4"
  using token_bucket_bound [of "\<lparr> bc_Capacity = 2, bc_RefillTokens = 2, bc_RefillEvery = 10 \<rparr>"
      "[(1, ''a''), (2, ''a''), (3, ''b''), (4, ''a''), (12, ''a'')]" "''a''" 1 12]
  by (simp add: Limiter_New_def bucket_config_ok_def requests_of_def int64_max_def)

text \<open>
  C15 (sliding window).  With a clock that does not run backwards, no window of the configured
  length ever contains more than the configured number of admitted requests of a key: of any
  limit plus one consecutive admissions, the last is at least one window after the first.
\<close>

theorem sliding_window_spaced:
  assumes clock: "sorted (map fst reqs)"
  shows "spaced (nat (sw_Limit (sl_config (NewSlidingWindow cfg)))) (sw_Window (sl_config (NewSlidingWindow cfg)))
     (admitted SlidingWindowLimiter_Allow (NewSlidingWindow cfg) reqs key)"
proof -
  let ?c = "sl_config (NewSlidingWindow cfg)"
  have pos: "0 < sw_Limit ?c" by (simp add: NewSlidingWindow_def Let_def)
  have empty: "sl_events (NewSlidingWindow cfg) key = None" by (simp add: NewSlidingWindow_def Let_def)
  have sorted: "sorted (requests_of key reqs)" using clock by (rule requests_sorted)
  have none: "slot_admitted (sliding_step ?c) None ts = slot_admitted (sliding_step ?c) (Some []) ts" for ts
    by (cases ts) (simp_all add: sliding_step_def)
  obtain now0 where "\<forall>t \<in> set (requests_of key reqs). now0 \<le> t"
    by (cases "requests_of key reqs") (use sorted in auto)
  with sliding_run_spaced [of "nat (sw_Limit ?c)" ?c "[]" "[]" now0 "requests_of key reqs"] pos sorted
  show ?thesis
    by (simp add: sw.admitted_slot none empty spaced_def [of _ _ "[]"])
qed

theorem sliding_window_spaced_witness:
  "spaced 2 10 (admitted SlidingWindowLimiter_Allow (NewSlidingWindow \<lparr> sw_Limit = 2, sw_Window = 10 \<rparr>)
     [(1, ''a''), (2, ''a''), (3, ''b''), (4, ''a''), (12, ''a'')] ''a'')"
  using sliding_window_spaced [of "[(1, ''a''), (2, ''a''), (3, ''b''), (4, ''a''), (12, ''a'')]"
      "\<lparr> sw_Limit = 2, sw_Window = 10 \<rparr>" "''a''"]
  by (simp add: NewSlidingWindow_def)

text \<open>
  Fixed window.  With a clock that does not run backwards and does not show the zero time, a
  fixed window limiter admits at most the limit for every window begun in the span of the
  requests of a key.
\<close>

theorem fixed_window_bound:
  assumes ok: "fw_Limit cfg < int64_max" and clock: "sorted (map fst reqs)"
    and span: "\<forall>t \<in> set (requests_of key reqs). 0 < t \<and> t0 \<le> t \<and> t \<le> T" "t0 \<le> T"
  shows "int (length (admitted FixedWindowLimiter_Allow (NewFixedWindow cfg) reqs key)) \<le>
     fw_Limit (fl_config (NewFixedWindow cfg)) * ((T - t0) div fw_Window (fl_config (NewFixedWindow cfg)) + 1)"
proof -
  let ?c = "fl_config (NewFixedWindow cfg)"
  have c: "fixed_config_ok ?c"
    using ok by (simp add: fixed_config_ok_def NewFixedWindow_def Let_def minute_def second_def int64_max_def)
  then have pos: "0 < fw_Limit ?c" "0 < fw_Window ?c" by (simp_all add: fixed_config_ok_def)
  have empty: "fl_windows (NewFixedWindow cfg) key = None" by (simp add: NewFixedWindow_def Let_def)
  have sorted: "sorted (requests_of key reqs)" using clock by (rule requests_sorted)
  show ?thesis
  proof (cases "requests_of key reqs")
    case Nil
    with pos span(2) show ?thesis by (simp add: fw.admitted_slot pos_imp_zdiv_nonneg_iff)
  next
    case (Cons now ts)
    let ?w = "\<lparr> fx_start = now, fx_count = 1 \<rparr>"
    have step: "fixed_step ?c None now = (True, Some ?w)" by (simp add: fixed_step_def time_IsZero_def)
    have "1 + int (length (slot_admitted (fixed_step ?c) (Some ?w) ts)) \<le>
        fw_Limit ?c * ((T - now) div fw_Window ?c + 1)"
      using fixed_run_bound [OF c, of ts ?w T] sorted span Cons pos by auto
    also have "\<dots> \<le> fw_Limit ?c * ((T - t0) div fw_Window ?c + 1)"
      using span Cons pos by (auto intro!: mult_left_mono zdiv_mono1)
    finally show ?thesis by (simp add: fw.admitted_slot Cons empty step)
  qed
qed

theorem fixed_window_bound_witness:
  "int (length (admitted FixedWindowLimiter_Allow (NewFixedWindow \<lparr> fw_Limit = 2, fw_Window = 10 \<rparr>)
     [(1, ''a''), (2, ''a''), (3, ''b''), (4, ''a''), (12, ''a'')] ''a'')) \<le> 4"
  using fixed_window_bound [of "\<lparr> fw_Limit = 2, fw_Window = 10 \<rparr>"
      "[(1, ''a''), (2, ''a''), (3, ''b''), (4, ''a''), (12, ''a'')]" "''a''" 1 12]
  by (simp add: NewFixedWindow_def requests_of_def int64_max_def)

text \<open>
  Leaky bucket.  With a clock that does not run backwards and does not show the zero time, a
  leaky bucket admits in the span of the requests of a key at most its capacity plus one for
  every full leak period.
\<close>

theorem leaky_bucket_bound:
  assumes ok: "lb_Capacity cfg < int64_max" and clock: "sorted (map fst reqs)"
    and span: "\<forall>t \<in> set (requests_of key reqs). 0 < t \<and> t0 \<le> t \<and> t \<le> T" "t0 \<le> T"
  shows "int (length (admitted LeakyBucketLimiter_Allow (NewLeakyBucket cfg) reqs key)) \<le>
     lb_Capacity (ll_config (NewLeakyBucket cfg)) + (T - t0) div lb_LeakEvery (ll_config (NewLeakyBucket cfg))"
proof -
  let ?c = "ll_config (NewLeakyBucket cfg)"
  have c: "leaky_config_ok ?c"
    using ok by (simp add: leaky_config_ok_def NewLeakyBucket_def Let_def second_def int64_max_def)
  then have pos: "0 < lb_Capacity ?c" "0 < lb_LeakEvery ?c" by (simp_all add: leaky_config_ok_def)
  have empty: "ll_buckets (NewLeakyBucket cfg) key = None" by (simp add: NewLeakyBucket_def Let_def)
  have sorted: "sorted (requests_of key reqs)" using clock by (rule requests_sorted)
  show ?thesis
  proof (cases "requests_of key reqs")
    case Nil
    have "0 \<le> (T - t0) div lb_LeakEvery ?c" using pos span(2) by (simp add: pos_imp_zdiv_nonneg_iff)
    with Nil pos show ?thesis by (simp add: lb.admitted_slot)
  next
    case (Cons now ts)
    let ?b = "\<lparr> lk_level = 1, lk_seenAt = now \<rparr>"
    have step: "leaky_step ?c None now = (True, Some ?b)" by (simp add: leaky_step_def time_IsZero_def)
    have "int (length (slot_admitted (leaky_step ?c) (Some ?b) ts)) \<le>
        lb_Capacity ?c - 1 + (T - now) div lb_LeakEvery ?c"
      using leaky_run_bound [OF c, of ts ?b T] sorted span Cons pos by auto
    also have "\<dots> \<le> lb_Capacity ?c - 1 + (T - t0) div lb_LeakEvery ?c"
      using span Cons pos by (auto intro!: zdiv_mono1)
    finally show ?thesis by (simp add: lb.admitted_slot Cons empty step)
  qed
qed

theorem leaky_bucket_bound_witness:
  "int (length (admitted LeakyBucketLimiter_Allow (NewLeakyBucket \<lparr> lb_Capacity = 2, lb_LeakEvery = 10 \<rparr>)
     [(1, ''a''), (2, ''a''), (3, ''b''), (4, ''a''), (12, ''a'')] ''a'')) \<le> 3"
  using leaky_bucket_bound [of "\<lparr> lb_Capacity = 2, lb_LeakEvery = 10 \<rparr>"
      "[(1, ''a''), (2, ''a''), (3, ''b''), (4, ''a''), (12, ''a'')]" "''a''" 1 12]
  by (simp add: NewLeakyBucket_def requests_of_def int64_max_def)

text \<open>
  C16 (keys do not interfere).  For each of the four limiters, from any state, the answers to the
  requests of a key are the same whatever requests of other keys come in between.
\<close>

theorem limiter_keys_independent:
  assumes "requests_of key reqs = requests_of key reqs'"
  shows "admitted Limiter_Allow l1 reqs key = admitted Limiter_Allow l1 reqs' key \<and>
    admitted FixedWindowLimiter_Allow l2 reqs key = admitted FixedWindowLimiter_Allow l2 reqs' key \<and>
    admitted SlidingWindowLimiter_Allow l3 reqs key = admitted SlidingWindowLimiter_Allow l3 reqs' key \<and>
    admitted LeakyBucketLimiter_Allow l4 reqs key = admitted LeakyBucketLimiter_Allow l4 reqs' key"
  using tb.key_independence [OF assms] fw.key_independence [OF assms]
    sw.key_independence [OF assms] lb.key_independence [OF assms] by simp

theorem limiter_keys_independent_witness:
  "admitted Limiter_Allow (Limiter_New \<lparr> bc_Capacity = 1, bc_RefillTokens = 1, bc_RefillEvery = 10 \<rparr>)
     [(1, ''b''), (1, ''a''), (2, ''b'')] ''a'' =
   admitted Limiter_Allow (Limiter_New \<lparr> bc_Capacity = 1, bc_RefillTokens = 1, bc_RefillEvery = 10 \<rparr>)
     [(1, ''a'')] ''a''"
  using limiter_keys_independent [of "''a''" "[(1, ''b''), (1, ''a''), (2, ''b'')]" "[(1, ''a'')]"]
  by (simp add: requests_of_def)

end
