(* ===== verification/Fraud.thy ===== *)
theory Fraud
  imports Rail
begin

text \<open>
  The fraud engine, \<open>internal/fraud/engine.go\<close>: additive rules on the amount, the risk signal of
  the DICT entry and the account hash, and two thresholds.
\<close>

definition fraud_rules :: "CreateTransferRequest \<Rightarrow> DictEntry \<Rightarrow> (int \<times> string) list" where
  "fraud_rules req entry =
     (if req_AmountCents req \<ge> 1000000 then [(40, ''amount_high'')] else []) @
     (if req_AmountCents req \<ge> 500000 then [(15, ''amount_review'')] else []) @
     (if de_RiskSignal entry \<ge> 80 then [(35, ''dict_high_risk'')] else []) @
     (if req_AccountID req = de_AccountHash entry then [(25, ''self_transfer_hash_match'')] else [])"

definition RulesEngine_Score :: "CreateTransferRequest \<Rightarrow> DictEntry \<Rightarrow> FraudDecision result" where
  "RulesEngine_Score req entry =
     (let fired = fraud_rules req entry;
          score = foldl (\<lambda>s (p, r). wrap64 (s + p)) (de_RiskSignal entry) fired
      in Inr (if score \<ge> 90 then
                \<lparr> fd_Score = score, fd_Status = StatusBlocked, fd_Rules = map snd fired,
                  fd_Reason = ''blocked by fraud policy'' \<rparr>
              else if score \<ge> 65 then
                \<lparr> fd_Score = score, fd_Status = StatusReview, fd_Rules = map snd fired,
                  fd_Reason = ''manual review required'' \<rparr>
              else
                \<lparr> fd_Score = score, fd_Status = StatusAccepted, fd_Rules = map snd fired,
                  fd_Reason = ''risk within payment-rail policy'' \<rparr>))"

text \<open>The engine only answers with statuses the switch accepts as a decision.\<close>

lemma Score_status:
  "RulesEngine_Score req entry = Inr d \<Longrightarrow> fd_Status d \<in> {StatusAccepted, StatusReview, StatusBlocked}"
  by (auto simp: RulesEngine_Score_def Let_def split: if_splits)

lemma Score_total: "\<exists>d. RulesEngine_Score req entry = Inr d"
  by (simp add: RulesEngine_Score_def Let_def)

text \<open>Within the range of the resolver's signals nothing wraps and the score is a plain sum.\<close>

lemma Score_sum:
  assumes "0 \<le> de_RiskSignal entry" and "de_RiskSignal entry \<le> 1000"
    and "RulesEngine_Score req entry = Inr d"
  shows "fd_Score d = de_RiskSignal entry + (if req_AmountCents req \<ge> 1000000 then 40 else 0) +
     (if req_AmountCents req \<ge> 500000 then 15 else 0) + (if de_RiskSignal entry \<ge> 80 then 35 else 0) +
     (if req_AccountID req = de_AccountHash entry then 25 else 0)"
proof -
  let ?big = "req_AmountCents req \<ge> 1000000" and ?mid = "req_AmountCents req \<ge> 500000"
    and ?risk = "de_RiskSignal entry \<ge> 80" and ?self = "req_AccountID req = de_AccountHash entry"
  have w: "wrap64 (de_RiskSignal entry + k) = de_RiskSignal entry + k" if "0 \<le> k" "k \<le> 1000" for k
    using that assms(1,2) by (simp add: wrap64_id int64_min_def int64_max_def)
  have "fd_Score d = foldl (\<lambda>s (p, r). wrap64 (s + p)) (de_RiskSignal entry) (fraud_rules req entry)"
    using assms(3) by (auto simp: RulesEngine_Score_def Let_def)
  then show ?thesis
    unfolding fraud_rules_def
    by (cases ?big; cases ?mid; cases ?risk; cases ?self) (simp_all add: w add.assoc)
qed

end
