(* ===== verification/Dict.thy ===== *)
theory Dict
  imports Events
begin

text \<open>
  The static DICT resolver, \<open>internal/dict/resolver.go\<close>.

  A wait on a timer and on the context ends either way; \<open>dx_latency\<close> and \<open>dx_timeout\<close> say for a
  timer of the given duration whether the context ended first, and with which error.
  \<open>strings.ToLower\<close> maps ASCII letters itself; the lower case of a rune beyond ASCII is Unicode
  data, the parameter \<open>lower\<close> (from the UTF-8 bytes of a rune to those of its lower case).
\<close>

record dict_env =
  dx_latency :: "duration \<Rightarrow> go_error option"
  dx_timeout :: "duration \<Rightarrow> go_error option"
  dx_now :: gotime

record StaticResolver =
  sr_Latency :: duration
  sr_TimeoutSignal :: duration

definition ascii_lower :: "char \<Rightarrow> char" where
  "ascii_lower c = (if in_range 65 90 c then char_of (of_char c + (32::nat)) else c)"

function strings_ToLower :: "(string \<Rightarrow> string) \<Rightarrow> string \<Rightarrow> string" where
  "strings_ToLower lower [] = []"
| "strings_ToLower lower (c # s) =
     (if of_char c < (0x80::nat) then ascii_lower c # strings_ToLower lower s
      else if rune_size (c # s) = 0 then [CHR 0xEF, CHR 0xBF, CHR 0xBD] @ strings_ToLower lower s
      else lower (take (rune_size (c # s)) (c # s)) @ strings_ToLower lower (drop (rune_size (c # s)) (c # s)))"
  by pat_completeness auto
termination
  by (relation "measure (\<lambda>(l, s). length s)") auto

text \<open>\<open>fmt.Sprintf("%08d", n)\<close> for a number that is not negative.\<close>

definition pad8 :: "nat \<Rightarrow> string" where
  "pad8 n = replicate (8 - length (show_nat n)) (CHR ''0'') @ show_nat n"

definition resolved_entry :: "string \<Rightarrow> string \<Rightarrow> DictKeyType \<Rightarrow> string \<Rightarrow> gotime \<Rightarrow> DictEntry" where
  "resolved_entry tenantID key keyType normalized now =
     (let hash = sha256_Sum256 (bytes_of (tenantID @ '':'' @ normalized));
          risky = strings_Contains normalized ''mule'' \<or> strings_Contains normalized ''risk''
      in \<lparr> de_Key = key,
           de_KeyType = keyType,
           de_ReceiverID = ''dict_'' @ hex_EncodeToString (take 6 hash),
           de_Name = (if risky then ''Conta de Alto Risco'' else ''Recebedor PixRail''),
           de_BankISPB = pad8 (10000000 + unat (hash ! 1) * 1000 + unat (hash ! 2)),
           de_AccountHash = hex_EncodeToString (take 12 hash),
           de_RiskSignal = (if risky then 92 else int (unat (hash ! 0 mod 35))),
           de_ResolvedAt = now \<rparr>)"

definition StaticResolver_Resolve ::
    "(string \<Rightarrow> string) \<Rightarrow> StaticResolver \<Rightarrow> dict_env \<Rightarrow> string \<Rightarrow> string \<Rightarrow> DictKeyType \<Rightarrow> DictEntry result" where
  "StaticResolver_Resolve lower r x tenantID key keyType =
     (case if sr_Latency r > 0 then dx_latency x (sr_Latency r) else None of
        Some err \<Rightarrow> Inl err
      | None \<Rightarrow>
          (let normalized = strings_ToLower lower (strings_TrimSpace key)
           in if strings_Contains normalized ''missing'' then
                Inl (Suffixed (Sentinel ErrDependencyFailed) ''dict key not found'')
              else if strings_Contains normalized ''timeout'' then
                (let timeout = (if sr_TimeoutSignal r \<le> 0 then 20 * millisecond else sr_TimeoutSignal r)
                 in case dx_timeout x timeout of
                      Some err \<Rightarrow> Inl err
                    | None \<Rightarrow> Inl (Sentinel ContextDeadlineExceeded))
              else Inr (resolved_entry tenantID key keyType normalized (dx_now x))))"

section \<open>The entries it answers with\<close>

lemma resolved_risk_range:
  assumes "\<not> (strings_Contains n ''mule'' \<or> strings_Contains n ''risk'')"
  shows "0 \<le> de_RiskSignal (resolved_entry tn key kt n now) \<and> de_RiskSignal (resolved_entry tn key kt n now) < 35"
proof -
  have b: "unat (b mod 35) < 35" for b :: byte
    by (simp add: unat_mod)
  have "de_RiskSignal (resolved_entry tn key kt n now) =
      int (unat (sha256_Sum256 (bytes_of (tn @ '':'' @ n)) ! 0 mod 35))"
    using assms by (simp only: resolved_entry_def Let_def DictEntry.simps if_False)
  also have "\<dots> < int 35" using b by (simp only: of_nat_less_iff)
  finally show ?thesis
    using assms by (simp only: resolved_entry_def Let_def DictEntry.simps if_False) simp
qed

lemma length_show_nat_8:
  assumes "10000000 \<le> n" and "n < 100000000"
  shows "length (show_nat n) = 8"
proof -
  have step: "length (show_nat m) = Suc (length (show_nat (m div 10)))" if "10 \<le> m" for m
    using that by (subst show_nat.simps) simp
  have one: "length (show_nat m) = 1" if "m < 10" for m
    using that by (subst show_nat.simps) simp
  have "n div 10 div 10 div 10 div 10 div 10 div 10 div 10 < 10"
    using assms(2) by (simp add: div_mult2_eq [symmetric])
  then show ?thesis
    using assms by (simp add: step one div_mult2_eq [symmetric])
qed

lemma resolved_bank: "length (de_BankISPB (resolved_entry tn key kt n now)) = 8"
proof -
  have "unat (b :: byte) < 256" for b
    using unsigned_less [of b] by simp
  then have b: "unat (h ! 1) < 256" "unat (h ! 2) < 256" for h :: "byte list"
    by blast+
  have "10000000 + unat (h ! 1) * 1000 + unat (h ! 2) < 100000000" for h :: "byte list"
    using b(1) [of h] b(2) [of h] by simp
  then have "length (pad8 (10000000 + unat (h ! 1) * 1000 + unat (h ! 2))) = 8" for h :: "byte list"
    by (simp add: pad8_def length_show_nat_8)
  then show ?thesis by (simp add: resolved_entry_def Let_def)
qed

end
