(* ===== verification/Spi.thy ===== *)
theory Spi
  imports Rail
begin

text \<open>
  The simulated SPI network, \<open>internal/spi/simulator.go\<close>, and the part of \<open>time.Time.Format\<close> it
  uses: the layout \<open>20060102150405\<close>.
\<close>

section \<open>Calendar\<close>

text \<open>
  Year and day of the year of a day counted from 1 January of year 1, in the proleptic Gregorian
  calendar of package \<open>time\<close>: cycles of 400, 100, 4 and 1 years.
\<close>

definition is_leap :: "int \<Rightarrow> bool" where
  "is_leap y \<longleftrightarrow> y mod 4 = 0 \<and> (y mod 100 \<noteq> 0 \<or> y mod 400 = 0)"

definition year_day :: "int \<Rightarrow> int \<times> int" where
  "year_day d =
     (let n400 = d div 146097; r = d mod 146097;
          n100 = min 3 (r div 36524); r = r - n100 * 36524;
          n4 = r div 1461; r = r mod 1461;
          n1 = min 3 (r div 365)
      in (400 * n400 + 100 * n100 + 4 * n4 + n1 + 1, r - n1 * 365))"

fun month_day :: "int list \<Rightarrow> int \<Rightarrow> int \<Rightarrow> int \<times> int" where
  "month_day [] m d = (m, d + 1)"
| "month_day (n # ns) m d = (if d < n then (m, d + 1) else month_day ns (m + 1) (d - n))"

definition month_lengths :: "int \<Rightarrow> int list" where
  "month_lengths y = [31, if is_leap y then 29 else 28, 31, 30, 31, 30, 31, 31, 30, 31, 30]"

definition pad_int :: "nat \<Rightarrow> int \<Rightarrow> string" where
  "pad_int w n =
     (let digits = show_nat (nat \<bar>n\<bar>)
      in (if n < 0 then ''-'' else '''') @ replicate (w - length digits) (CHR ''0'') @ digits)"

definition format_timestamp :: "gotime \<Rightarrow> string" where
  "format_timestamp t =
     (let secs = t div 1000000000;
          (y, yd) = year_day (secs div 86400);
          (m, d) = month_day (month_lengths y) 1 yd;
          s = secs mod 86400
      in pad_int 4 y @ pad_int 2 m @ pad_int 2 d @
         pad_int 2 (s div 3600) @ pad_int 2 (s mod 3600 div 60) @ pad_int 2 (s mod 60))"

section \<open>Submit\<close>

definition Simulator_Submit :: "gotime \<Rightarrow> Transfer \<Rightarrow> SPIMessage result" where
  "Simulator_Submit now transfer =
     (let sum = sha256_Sum256 (bytes_of (t_ID transfer @ '':'' @ t_AccountID transfer @ '':'' @ t_ReceiverKey transfer));
          submittedAt = (if time_IsZero (t_CreatedAt transfer) then now else t_CreatedAt transfer)
      in Inr \<lparr> sm_MessageID = ''spi_'' @ hex_EncodeToString (take 8 sum),
               sm_EndToEndID = ''E'' @ format_timestamp submittedAt @ hex_EncodeToString (take 8 sum),
               sm_TransferID = t_ID transfer,
               sm_SubmittedAt = submittedAt \<rparr>)"

section \<open>Lemmas\<close>

lemma calendar_samples:
  "format_timestamp 0 = ''00010101000000''"
  "format_timestamp ((63844848000 - 1) * 1000000000 + 999999999) = ''20240229235959''"
  by code_simp+

text \<open>
  The message of a transfer is a function of what no method of the transfer changes, so a
  submission that is repeated after a crash or an expired claim names the same SPI message.
\<close>

lemma Submit_same_message:
  assumes "Transfer_identity t = Transfer_identity u" and "t_CreatedAt t \<noteq> 0"
  shows "Simulator_Submit now t = Simulator_Submit now' u"
  using assms by (simp add: Simulator_Submit_def Transfer_identity_def Let_def time_IsZero_def)

lemma Submit_message_valid:
  assumes "Simulator_Submit now t = Inr m"
  shows "strings_TrimSpace (sm_MessageID m) \<noteq> ''''" "strings_TrimSpace (sm_EndToEndID m) \<noteq> ''''"
    "sm_TransferID m = t_ID t"
proof -
  have "strings_TrimSpace (''spi_'' @ s) \<noteq> ''''" "strings_TrimSpace (''E'' @ s) \<noteq> ''''" for s
    by (rule strings_TrimSpace_not_blank [of "CHR ''s''"], simp, code_simp)
      (rule strings_TrimSpace_not_blank [of "CHR ''E''"], simp, code_simp)
  with assms show "strings_TrimSpace (sm_MessageID m) \<noteq> ''''" "strings_TrimSpace (sm_EndToEndID m) \<noteq> ''''"
    "sm_TransferID m = t_ID t"
    by (auto simp: Simulator_Submit_def Let_def)
qed

end
