(* ===== verification/App.thy ===== *)
theory App
  imports Switcher_Contract Ratelimit Fraud Dict Spi Config
begin

text \<open>
  The application as it is wired, \<open>internal/app/runtime.go\<close>: the store of the configured driver,
  and the switch with the static resolver, the rules engine, the SPI simulator and two token
  buckets.  The risk policy of the wired switch is stated here, the way of a payment through it in
  \<open>Payment_Flow\<close>.

  Opening a PostgreSQL pool is a parameter.  \<open>int32(n)\<close> of a 64-bit \<open>int\<close> keeps the low 32 bits.
\<close>

section \<open>BuildStore and NewService\<close>

definition wrap32 :: "int \<Rightarrow> int" where
  "wrap32 n = (n + 2 ^ 31) mod 2 ^ 32 - 2 ^ 31"

record PoolOptions =
  po_MinConns :: int
  po_MaxConns :: int
  po_MaxConnLifetime :: duration

datatype 'p built_store = MemoryBackend MemoryStore | PostgresBackend 'p | NilStore

definition BuildStore :: "(string \<Rightarrow> PoolOptions \<Rightarrow> 'p result) \<Rightarrow> Config \<Rightarrow> 'p built_store result" where
  "BuildStore postgres_New cfg =
     (if cfg_StoreDriver cfg = ''memory'' then Inr (MemoryBackend NewMemoryStore)
      else if cfg_StoreDriver cfg = ''postgres'' then
        (case postgres_New (cfg_DatabaseURL cfg)
                \<lparr> po_MinConns = wrap32 (cfg_PostgresMinConns cfg), po_MaxConns = wrap32 (cfg_PostgresMaxConns cfg),
                  po_MaxConnLifetime = cfg_PostgresMaxConnLifetime cfg \<rparr> of
           Inl err \<Rightarrow> Inl err
         | Inr store \<Rightarrow> Inr (PostgresBackend store))
      else Inr NilStore)"

text \<open>\<open>switcher.NewService\<close> stores its ports; \<open>now\<close> is the clock, an input of every use case.\<close>

definition switcher_NewService ::
    "('e, 's) Store \<Rightarrow> ('x \<Rightarrow> string \<Rightarrow> string \<Rightarrow> DictKeyType \<Rightarrow> DictEntry result) \<Rightarrow>
     ('x \<Rightarrow> CreateTransferRequest \<Rightarrow> DictEntry \<Rightarrow> FraudDecision result) \<Rightarrow>
     ('x \<Rightarrow> 'p \<Rightarrow> Transfer \<Rightarrow> SPIMessage result \<times> 'p) \<Rightarrow>
     ('x \<Rightarrow> 'l \<Rightarrow> string \<Rightarrow> bool \<times> 'l) option \<Rightarrow> ('x \<Rightarrow> 'l \<Rightarrow> string \<Rightarrow> bool \<times> 'l) option \<Rightarrow>
     ('e, 's, 'x, 'l, 'p) Service" where
  "switcher_NewService store dictResolver fraudEngine spiClient tenantLimit dictLimit =
     \<lparr> svc_store = store, svc_dict = dictResolver, svc_fraud = fraudEngine, svc_spi = spiClient,
       svc_tenantLimit = tenantLimit, svc_dictLimit = dictLimit \<rparr>"

text \<open>What the ports read: the clocks of the two buckets and of the simulator, and the timers of the resolver.\<close>

record app_env =
  ax_tenant_now :: gotime
  ax_dict_now :: gotime
  ax_dict :: dict_env
  ax_spi_now :: gotime

definition app_resolver :: "Config \<Rightarrow> StaticResolver" where
  "app_resolver cfg = \<lparr> sr_Latency = 0, sr_TimeoutSignal = cfg_DictTimeout cfg \<rparr>"

definition app_NewService ::
    "(string \<Rightarrow> string) \<Rightarrow> Config \<Rightarrow> ('e, 's) Store \<Rightarrow> ('e, 's, app_env, Limiter, unit) Service" where
  "app_NewService lower cfg store =
     switcher_NewService store
       (\<lambda>x. StaticResolver_Resolve lower (app_resolver cfg) (ax_dict x))
       (\<lambda>x. RulesEngine_Score)
       (\<lambda>x p transfer. (Simulator_Submit (ax_spi_now x) transfer, p))
       (Some (\<lambda>x l key. Limiter_Allow l (ax_tenant_now x) key))
       (Some (\<lambda>x l key. Limiter_Allow l (ax_dict_now x) key))"

text \<open>The state of the two limiters of a new service.\<close>

definition app_limiter :: "int \<Rightarrow> Limiter" where
  "app_limiter n = Limiter_New \<lparr> bc_Capacity = n, bc_RefillTokens = n, bc_RefillEvery = minute \<rparr>"

definition app_world :: "Config \<Rightarrow> 's \<Rightarrow> ('s, Limiter, unit) world" where
  "app_world cfg st =
     \<lparr> w_store = st, w_tenantLimit = app_limiter (cfg_TenantBucketSize cfg),
       w_dictLimit = app_limiter (cfg_DictBucketSize cfg), w_spi = () \<rparr>"

section \<open>Lemmas\<close>

lemma app_ports [simp]:
  "svc_store (app_NewService lower cfg S) = S"
  "svc_dict (app_NewService lower cfg S) = (\<lambda>x. StaticResolver_Resolve lower (app_resolver cfg) (ax_dict x))"
  "svc_fraud (app_NewService lower cfg S) = (\<lambda>x. RulesEngine_Score)"
  "svc_spi (app_NewService lower cfg S) = (\<lambda>x p t. (Simulator_Submit (ax_spi_now x) t, p))"
  "svc_tenantLimit (app_NewService lower cfg S) = Some (\<lambda>x l key. Limiter_Allow l (ax_tenant_now x) key)"
  "svc_dictLimit (app_NewService lower cfg S) = Some (\<lambda>x l key. Limiter_Allow l (ax_dict_now x) key)"
  by (simp_all add: app_NewService_def switcher_NewService_def)

definition normalized_key :: "(string \<Rightarrow> string) \<Rightarrow> string \<Rightarrow> string" where
  "normalized_key lower key = strings_ToLower lower (strings_TrimSpace key)"

definition risky_key :: "string \<Rightarrow> bool" where
  "risky_key n \<longleftrightarrow> strings_Contains n ''mule'' \<or> strings_Contains n ''risk''"

definition unresolvable_key :: "string \<Rightarrow> bool" where
  "unresolvable_key n \<longleftrightarrow> strings_Contains n ''missing'' \<or> strings_Contains n ''timeout''"

lemma Resolve_iff:
  "StaticResolver_Resolve lower (app_resolver cfg) x tn key kt = Inr de \<longleftrightarrow>
     \<not> unresolvable_key (normalized_key lower key) \<and>
     de = resolved_entry tn key kt (normalized_key lower key) (dx_now x)"
  by (auto simp: StaticResolver_Resolve_def app_resolver_def normalized_key_def unresolvable_key_def Let_def
      split: option.splits)

lemma resolved_risky: "risky_key n \<Longrightarrow> de_RiskSignal (resolved_entry tn key kt n now) = 92"
  by (simp only: resolved_entry_def Let_def DictEntry.simps risky_key_def if_True)

lemma resolved_ordinary:
  "\<not> risky_key n \<Longrightarrow>
     0 \<le> de_RiskSignal (resolved_entry tn key kt n now) \<and> de_RiskSignal (resolved_entry tn key kt n now) < 35"
  unfolding risky_key_def by (rule resolved_risk_range)

lemma Score_threshold:
  assumes "RulesEngine_Score req entry = Inr d"
  shows "fd_Status d = (if fd_Score d \<ge> 90 then StatusBlocked else if fd_Score d \<ge> 65 then StatusReview else StatusAccepted)"
  using assms by (auto simp: RulesEngine_Score_def Let_def split: if_splits)

text \<open>
  Risk policy.  The resolver and the engine together implement this policy.  A receiver key
  with a risk marker is always blocked.  Any other receiver is accepted below 5,000.00; from
  10,000.00 it is accepted when its risk signal is below ten and reviewed otherwise, and only a
  transfer to the sender's own account hash can be blocked.
\<close>

theorem risk_policy:
  assumes "StaticResolver_Resolve lower (app_resolver cfg) x tn key kt = Inr de"
    and "RulesEngine_Score req de = Inr d"
  defines "own \<equiv> req_AccountID req = de_AccountHash de"
  shows "if risky_key (normalized_key lower key) then fd_Status d = StatusBlocked \<and> ''dict_high_risk'' \<in> set (fd_Rules d)
         else 0 \<le> de_RiskSignal de \<and> de_RiskSignal de < 35 \<and>
           (req_AmountCents req < 500000 \<longrightarrow> fd_Status d = StatusAccepted) \<and>
           (1000000 \<le> req_AmountCents req \<and> \<not> own \<longrightarrow>
              fd_Status d = (if de_RiskSignal de < 10 then StatusAccepted else StatusReview)) \<and>
           (fd_Status d = StatusBlocked \<longleftrightarrow> 1000000 \<le> req_AmountCents req \<and> own \<and> 10 \<le> de_RiskSignal de)"
proof (cases "risky_key (normalized_key lower key)")
  case True
  with assms(1) have risk: "de_RiskSignal de = 92"
    by (auto simp: Resolve_iff resolved_risky)
  then have "90 \<le> fd_Score d"
    using Score_sum [OF _ _ assms(2)] by simp
  moreover have "''dict_high_risk'' \<in> set (fd_Rules d)"
    using assms(2) risk by (auto simp: RulesEngine_Score_def Let_def fraud_rules_def)
  ultimately show ?thesis using True Score_threshold [OF assms(2)] by simp
next
  case False
  with assms(1) have risk: "0 \<le> de_RiskSignal de" "de_RiskSignal de < 35"
    using resolved_ordinary by (auto simp: Resolve_iff)
  then have "fd_Score d = de_RiskSignal de + (if req_AmountCents req \<ge> 1000000 then 40 else 0) +
     (if req_AmountCents req \<ge> 500000 then 15 else 0) + (if own then 25 else 0)"
    using Score_sum [OF _ _ assms(2)] by (simp add: own_def)
  then show ?thesis
    using False risk Score_threshold [OF assms(2)]
    by (auto simp: StatusAccepted_def StatusReview_def StatusBlocked_def split: if_splits)
qed

section \<open>The limits of the configured sizes\<close>

text \<open>
  Store of a loaded configuration.  For every configuration that \<open>Load\<close> returns, \<open>BuildStore\<close>
  builds the memory store or opens PostgreSQL; it never returns the nil store.  The pool gets the
  configured sizes as long as they fit into 32 bits.
\<close>

theorem loaded_config_builds:
  assumes "Load quote duration_of show_duration env = Inr cfg"
    and "cfg_PostgresMinConns cfg < 2 ^ 31" and "cfg_PostgresMaxConns cfg < 2 ^ 31"
  shows "BuildStore postgres_New cfg =
    (if cfg_StoreDriver cfg = ''memory'' then Inr (MemoryBackend NewMemoryStore)
     else map_sum id PostgresBackend (postgres_New (cfg_DatabaseURL cfg)
       \<lparr> po_MinConns = cfg_PostgresMinConns cfg, po_MaxConns = cfg_PostgresMaxConns cfg,
         po_MaxConnLifetime = cfg_PostgresMaxConnLifetime cfg \<rparr>))"
proof -
  have id32: "wrap32 n = n" if "0 \<le> n" "n < 2 ^ 31" for n
    using that by (simp add: wrap32_def)
  have "config_ok cfg" using assms(1) by (rule loaded_config_ok)
  then have "cfg_StoreDriver cfg \<in> {''memory'', ''postgres''}" "0 \<le> cfg_PostgresMinConns cfg" "0 \<le> cfg_PostgresMaxConns cfg"
    by (auto simp: config_ok_def)
  then show ?thesis
    using assms(2,3) by (auto simp: BuildStore_def id32 split: sum.splits)
qed

text \<open>
  Without that bound the size is cut: a pool of \<open>4294967296\<close> connections passes every check of
  \<open>Load\<close> and is opened with the size zero, which the pool options take as not configured.
\<close>

definition huge_pool :: "string \<Rightarrow> string" where
  "huge_pool key =
     (if key = ''PIXRAIL_STORE_DRIVER'' then ''postgres'' else if key = ''PIXRAIL_DATABASE_URL'' then ''postgres://db''
      else if key = ''PIXRAIL_POSTGRES_MAX_CONNS'' then ''4294967296'' else '''')"

lemma huge_pool_texts:
  "strings_TrimSpace ''4294967296'' = ''4294967296''" "strings_TrimSpace ''postgres'' = ''postgres''"
  "strings_TrimSpace ''postgres://db'' = ''postgres://db''"
  by code_simp+

lemma huge_pool_is_cut:
  "\<exists>cfg. Load id (\<lambda>_. None) show_int huge_pool = Inr cfg \<and> cfg_PostgresMaxConns cfg = 4294967296 \<and>
     BuildStore (\<lambda>url opts. Inr (po_MaxConns opts)) cfg = Inr (PostgresBackend 0)"
proof -
  have "strconv_Atoi ''4294967296'' = Some 4294967296"
    by (simp add: strconv_Atoi_def read_nat_def digit_value_def is_digit_def int64_max_def int64_min_def)
  then show ?thesis
    by (simp add: Load_def bind_result_def getenvIntAtLeast_def getenvDurationAtLeast_def getenv_def huge_pool_def
      huge_pool_texts parseAPIKeys_def check_config_def defaultHTTPAddr_def defaultProviderCallbackSecret_def
      defaultTracingExporter_def BuildStore_def wrap32_def)
qed

text \<open>
  A bucket whose capacity and refill are near the greatest \<open>int\<close> overflows when it is refilled: the
  second request, a minute after the first, is refused although the bucket is almost full.
\<close>

lemma huge_bucket_refuses:
  "fst (Limiter_Allow (app_limiter int64_max) 1 ''k'') \<and>
   \<not> fst (Limiter_Allow (snd (Limiter_Allow (app_limiter int64_max) 1 ''k'')) (1 + minute) ''k'')"
  by code_simp

theorem loaded_config_builds_witness:
  "BuildStore (\<lambda>url opts. Inr (po_MaxConns opts)) demo_config = Inr (PostgresBackend 10)"
proof -
  have cfg: "Load id (\<lambda>_. None) show_int demo_production = Inr demo_config" using demo_config_loads by simp
  have fields: "cfg_PostgresMinConns demo_config = 0" "cfg_PostgresMaxConns demo_config = 10" "cfg_StoreDriver demo_config = ''postgres''"
    by code_simp+
  from loaded_config_builds [OF cfg, of "\<lambda>url opts. Inr (po_MaxConns opts)"] fields show ?thesis by simp
qed

end
