(* ===== verification/Payment_Flow.thy ===== *)
theory Payment_Flow
  imports App
begin

text \<open>
  Properties that span the switch, its store and its ports: idempotent creation and settlement
  with many concurrent callers, atomic writes, the SPI network behind exclusive claims, and the
  way of a payment through the wired application.
\<close>

section \<open>Many callers on one store\<close>

text \<open>
  The use cases run on \<open>interleaved memory_store\<close>: before each store call the other callers may
  have run any sequence of store calls of their own.
\<close>

definition callers_ok :: "(MemoryStore \<Rightarrow> MemoryStore) \<times> mem_env \<Rightarrow> bool" where
  "callers_ok e \<longleftrightarrow> (\<forall>s. mem_inv s \<longrightarrow> mem_rely s (fst e s))"

definition create_callers_ok :: "((MemoryStore \<Rightarrow> MemoryStore) \<times> mem_env, 'x) create_env \<Rightarrow> bool" where
  "create_callers_ok e \<longleftrightarrow> callers_ok (ce_find e) \<and> callers_ok (ce_insert e) \<and> callers_ok (ce_refind e)"

definition submit_callers_ok :: "((MemoryStore \<Rightarrow> MemoryStore) \<times> mem_env, 'x) submit_env \<Rightarrow> bool" where
  "submit_callers_ok e \<longleftrightarrow> callers_ok (se_claim e) \<and> callers_ok (se_record e) \<and> callers_ok (se_release e)"

lemma ims_env_ok: "ms.env_ok_interleaved = callers_ok"
  by (auto simp: ms.env_ok_interleaved_def callers_ok_def)

lemma ims_create_env_ok: "ims.create_env_ok e = create_callers_ok e"
  unfolding ims.create_env_ok_def unfolding ims_env_ok create_callers_ok_def by (rule refl)

lemma ims_submit_env_ok: "ims.submit_env_ok e = submit_callers_ok e"
  unfolding ims.submit_env_ok_def unfolding ims_env_ok submit_callers_ok_def by (rule refl)

lemma ms_env_oks [simp]: "ms.create_env_ok e" "ms.submit_env_ok e'"
  by (simp_all add: ms.create_env_ok_def ms.submit_env_ok_def)

lemma ms_after_others [simp]: "ms.after_others s P \<longleftrightarrow> P (mem_view s)"
  by (simp add: ms.after_others_def)

lemma mem_relyI: "mem_run s ls s' \<Longrightarrow> mem_rely s s'"
  by (auto simp: mem_rely_def)

text \<open>What the ports answered when a new transfer was created, whatever the store did.\<close>

lemma CreateTransfer_new:
  assumes "Service_CreateTransfer sv e w request = (Inr res, w')" and "\<not> res_IdempotentReplay res"
  defines "req \<equiv> normalize_request (ce_requested e) request"
  obtains de dc where
    "svc_dict sv (ce_ports e) (req_TenantID req) (req_ReceiverKey req) (req_ReceiverKeyType req) = Inr de"
    "svc_fraud sv (ce_ports e) req de = Inr dc" "CreateTransferRequest_Validate req = None"
    "res_Transfer res =
       decided_transfer (newID ''pxt'' (ce_id e)) (ce_now e) req (CreateTransferRequest_Fingerprint req) de dc"
proof -
  have replay: "replay_existing t h = Inr r \<Longrightarrow> res_IdempotentReplay r" for t h r
    by (auto simp: replay_existing_def split: if_splits)
  have adm: "admit sv x v req = (Inr (de, dc), v') \<Longrightarrow>
      svc_dict sv x (req_TenantID req) (req_ReceiverKey req) (req_ReceiverKeyType req) = Inr de \<and>
      svc_fraud sv x req de = Inr dc" for x v v' de dc
    by (auto simp: admit_def Let_def split: prod.splits if_splits sum.splits)
  have ins: "insert_decided sv e v req h de dc = (Inr res, v') \<Longrightarrow>
      res_Transfer res = decided_transfer (newID ''pxt'' (ce_id e)) (ce_now e) req h de dc" for v v' h de dc
    using assms(2) replay by (auto simp: insert_decided_def Let_def split: prod.splits option.splits if_splits sum.splits)
  show ?thesis
    using assms(1) that
    by (auto simp: Service_CreateTransfer_def Let_def simp flip: req_def
        split: option.splits prod.splits sum.splits dest!: replay adm ins simp: assms(2))
qed


section \<open>Exactly-once creation and settlement\<close>

text \<open>
  C17 (idempotent creation).  Two requests of a tenant with the same idempotency key, in whatever
  processes, with whatever ports and whatever the other callers do before, between and during the
  two calls: when both succeed they return the same transfer, the second one as a replay without
  events, and if the first one created the transfer then the second request has the fingerprint
  of the first.
\<close>

theorem create_is_idempotent:
  assumes store: "svc_store sv1 = interleaved memory_store" "svc_store sv2 = interleaved memory_store"
    and callers: "create_callers_ok e1" "create_callers_ok e2"
    and reach: "mem_run NewMemoryStore ls (w_store w1)"
    and tenant: "strings_TrimSpace (req_TenantID req2) = strings_TrimSpace (req_TenantID req1)"
      "CHR '':'' \<notin> set (strings_TrimSpace (req_TenantID req1))"
    and key: "strings_TrimSpace (req_IdempotencyKey req2) = strings_TrimSpace (req_IdempotencyKey req1)"
    and first: "Service_CreateTransfer sv1 e1 w1 req1 = (Inr res1, w1')"
    and between: "mem_run (w_store w1') ls' (w_store w2)"
    and second: "Service_CreateTransfer sv2 e2 w2 req2 = (Inr res2, w2')"
  shows "Transfer_identity (res_Transfer res2) = Transfer_identity (res_Transfer res1) \<and>
         res_IdempotentReplay res2 \<and> res_Events res2 = [] \<and>
         (\<not> res_IdempotentReplay res1 \<longrightarrow>
            CreateTransferRequest_Fingerprint (normalize_request (ce_requested e2) req2) =
            CreateTransferRequest_Fingerprint (normalize_request (ce_requested e1) req1))"
proof -
  let ?h1 = "CreateTransferRequest_Fingerprint (normalize_request (ce_requested e1) req1)"
  let ?h2 = "CreateTransferRequest_Fingerprint (normalize_request (ce_requested e2) req2)"
  have inv1: "mem_inv (w_store w1)" using reach by (rule mem_reachable)
  have ok: "ims.create_env_ok e1" "ims.create_env_ok e2"
    using callers by (simp_all only: ims_create_env_ok)
  have tenant2: "CHR '':'' \<notin> set (strings_TrimSpace (req_TenantID req2))"
    using tenant by simp
  note out1 = ims.CreateTransfer_outcome [OF store(1) ok(1) inv1 tenant(2) first]
  have inv2: "mem_inv (w_store w2)"
    using out1 inv1 between ims.rely_inv mem_relyI by blast
  note out2 = ims.CreateTransfer_outcome [OF store(2) ok(2) inv2 tenant2 second]
  have twice: "Transfer_identity (res_Transfer res2) = Transfer_identity (res_Transfer res1)" "res_IdempotentReplay res2"
    using ims.create_twice [OF store ok inv1 tenant key first mem_relyI [OF between] second] by blast+
  have replay2: "res_Events res2 = []" "t_RequestHash (res_Transfer res2) \<in> {'''', ?h2}"
    using out2 twice(2) by (auto simp: ims.replayed_def)
  have "?h2 = ?h1" if new: "\<not> res_IdempotentReplay res1"
  proof -
    have "t_RequestHash (res_Transfer res1) = ?h1"
      using ims.created_hash [OF store(1) ok(1) inv1 tenant(2) first] new by simp
    then have "t_RequestHash (res_Transfer res2) = ?h1"
      using Transfer_identity_fields [OF twice(1)] by simp
    moreover have "?h1 \<noteq> ''''"
      by (simp add: CreateTransferRequest_Fingerprint_def hashParts_nonempty)
    ultimately show ?thesis using replay2(2) by simp
  qed
  with twice replay2 show ?thesis by blast
qed

lemma normalize_callback_fields [simp]:
  "cb_TenantID (normalize_callback now rnd cb) = cb_TenantID cb"
  "cb_TransferID (normalize_callback now rnd cb) = cb_TransferID cb"
  "cb_SPIMessageID (normalize_callback now rnd cb) = cb_SPIMessageID cb"
  "cb_CallbackHash (normalize_callback now rnd cb) = cb_CallbackHash cb"
  by (simp_all add: normalize_callback_def Let_def)

definition callback_hash_of :: "SettlementCallback \<Rightarrow> string" where
  "callback_hash_of cb = (if cb_CallbackHash cb = '''' then SettlementCallback_Fingerprint cb else cb_CallbackHash cb)"

text \<open>
  C18 (exactly-once settlement).  Two successful settlement callbacks for the same tenant and SPI
  message, in whatever processes and whatever happens before, between and during them: the second
  one is a replay without events, and it carries the callback hash of the first.
\<close>

theorem settle_is_idempotent:
  assumes store: "svc_store sv1 = interleaved memory_store" "svc_store sv2 = interleaved memory_store"
    and callers: "callers_ok (te_get e1)" "callers_ok (te_update e1)" "callers_ok (te_get e2)" "callers_ok (te_update e2)"
    and reach: "mem_run NewMemoryStore ls (w_store w1)"
    and same: "cb_TenantID cb2 = cb_TenantID cb1" "cb_SPIMessageID cb2 = cb_SPIMessageID cb1"
    and first: "Service_RecordSettlement sv1 e1 w1 cb1 = (Inr res1, w1')"
    and between: "mem_run (w_store w1') ls' (w_store w2)"
    and second: "Service_RecordSettlement sv2 e2 w2 cb2 = (Inr res2, w2')"
  shows "res_IdempotentReplay res2 \<and> res_Events res2 = [] \<and> callback_hash_of cb2 = callback_hash_of cb1"
proof -
  have inv1: "mem_inv (w_store w1)" using reach by (rule mem_reachable)
  have ok: "ms.env_ok_interleaved (te_get e1)" "ms.env_ok_interleaved (te_update e1)"
      "ms.env_ok_interleaved (te_get e2)" "ms.env_ok_interleaved (te_update e2)"
    using callers by (simp_all only: ims_env_ok)
  note out1 = ims.RecordSettlement_outcome [OF store(1) ok(1,2) inv1 first]
  have inv1': "mem_inv (w_store w1')" using out1 inv1 ims.rely_inv by blast
  have inv2: "mem_inv (w_store w2)" using inv1' between ims.rely_inv mem_relyI by blast
  note out2 = ims.RecordSettlement_outcome [OF store(2) ok(3,4) inv2 second]
  have filed1: "sv_callbacks (mem_view (w_store w1')) (cb_TenantID cb1) (cb_SPIMessageID cb1) = Some (callback_hash_of cb1)"
    using out1 by (simp add: callback_hash_of_def)
  have keeps: "sv_callbacks (mem_view s') tn m = Some h"
    if "mem_rely s s'" "mem_inv s" "sv_callbacks (mem_view s) tn m = Some h" for s s' tn m h
    using ims.rely_view [OF that(1,2)] that(3) unfolding view_evolves_def by blast
  have filed2: "sv_callbacks (mem_view (w_store w2)) (cb_TenantID cb1) (cb_SPIMessageID cb1) = Some (callback_hash_of cb1)"
    using keeps [OF mem_relyI [OF between] inv1' filed1] .
  have "sv_callbacks (mem_view s) (cb_TenantID cb2) (cb_SPIMessageID cb2) \<noteq> None" if "mem_rely (w_store w2) s" for s
    using keeps [OF that inv2 filed2] same by simp
  note known = this
  have "res_IdempotentReplay res2"
  proof (rule ccontr)
    assume "\<not> res_IdempotentReplay res2"
    with out2 obtain s0 where "mem_rely (w_store w2) s0"
      "sv_callbacks (mem_view s0) (cb_TenantID cb2) (cb_SPIMessageID cb2) = None"
      by (auto simp: ims.after_others_def settle_write_def simp del: mem_view_simps)
    with known show False by blast
  qed
  moreover have "callback_hash_of cb2 = callback_hash_of cb1"
    using out2 keeps [OF _ inv2 filed2, of "w_store w2'"] same by (simp add: callback_hash_of_def)
  ultimately show ?thesis using out2 by simp
qed

section \<open>What a creation writes\<close>

definition decision_event_types :: "TransferStatus \<Rightarrow> string list" where
  "decision_event_types status =
     [''pix_transfer_requested'', ''dict_key_resolved'', ''fraud_score_calculated''] @
     (if status = StatusAccepted then [''pix_transfer_accepted'', ''spi_submission_requested'']
      else if status = StatusReview then [''pix_transfer_review_requested''] else [''pix_transfer_blocked''])"

lemma decision_types:
  assumes "fd_Status dc \<in> {StatusAccepted, StatusReview, StatusBlocked}"
  shows "map fst (decision_events t h de dc) = decision_event_types (fd_Status dc)"
  using assms by (auto simp: decision_events_def decision_event_types_def)

text \<open>
  C19 (atomic creation).  A call of \<open>CreateTransfer\<close> on the memory store either fails and leaves the
  store as it was, or replays the transfer on file and leaves the store as it was, or adds exactly
  one transfer with the fields of the normalised request, together with its audit record and the
  events of its decision: requested, resolved and scored, and then accepted and submission
  requested, review requested, or blocked.  No failure of an encoder drops one of these events.
\<close>

theorem create_is_atomic:
  assumes store: "svc_store sv = memory_store" and reach: "mem_run NewMemoryStore ls (w_store w)"
    and tenant: "CHR '':'' \<notin> set (strings_TrimSpace (req_TenantID request))"
    and call: "Service_CreateTransfer sv e w request = (r, w')"
  defines "req \<equiv> normalize_request (ce_requested e) request"
  shows "case r of
      Inl err \<Rightarrow> w_store w' = w_store w
    | Inr res \<Rightarrow>
        if res_IdempotentReplay res then w_store w' = w_store w \<and> res_Events res = [] \<and>
          ms_transfers (w_store w) (t_ID (res_Transfer res)) = Some (res_Transfer res)
        else (let t = res_Transfer res in
          CreateTransferRequest_Validate req = None \<and>
          t_ID t = newID ''pxt'' (ce_id e) \<and> t_TenantID t = req_TenantID req \<and> t_AccountID t = req_AccountID req \<and>
          t_IdempotencyKey t = req_IdempotencyKey req \<and> t_AmountCents t = req_AmountCents req \<and>
          t_ReceiverKey t = req_ReceiverKey req \<and> t_RequestHash t = CreateTransferRequest_Fingerprint req \<and>
          Transfer_new t \<and> ms_transfers (w_store w) (t_ID t) = None \<and>
          ms_transfers (w_store w') = (ms_transfers (w_store w))(t_ID t \<mapsto> t) \<and>
          map ob_Event (ms_events (w_store w')) = map ob_Event (ms_events (w_store w)) @ res_Events res \<and>
          ms_audit (w_store w') = ms_audit (w_store w) @ decision_audit t (ce_now e) \<and>
          map ev_EventType (res_Events res) = decision_event_types (t_Status t) \<and>
          (\<forall>ev \<in> set (res_Events res). ev_TenantID ev = t_TenantID t \<and> ev_TransferID ev = t_ID t))"
proof -
  note out = ms.CreateTransfer_outcome [OF store ms_env_oks(1) mem_reachable [OF reach] tenant call, folded req_def]
  show ?thesis
  proof (cases r)
    case (Inl err)
    with out show ?thesis by simp
  next
    case r: (Inr res)
    show ?thesis
    proof (cases "res_IdempotentReplay res")
      case True
      with out r show ?thesis by (simp add: ms.replayed_def view_idempotent_def)
    next
      case False
      have "CreateTransferRequest_Validate req = None \<and>
        (\<exists>de dc. fd_Status dc \<in> {StatusAccepted, StatusReview, StatusBlocked} \<and>
           res_Transfer res =
             decided_transfer (newID ''pxt'' (ce_id e)) (ce_now e) req (CreateTransferRequest_Fingerprint req) de dc \<and>
           res_Events res = add_events (ce_events e) 0 (res_Transfer res)
             (decision_events (res_Transfer res) (CreateTransferRequest_Fingerprint req) de dc) \<and>
           insert_write (mem_view (w_store w)) (res_Transfer res) (res_Events res)
             (decision_audit (res_Transfer res) (ce_now e)) (mem_view (w_store w')))"
        using out [THEN conjunct2, THEN conjunct2, THEN conjunct2, rule_format, OF r]
        by (simp only: False if_False ms_after_others)
      then obtain de dc where
        dc: "fd_Status dc \<in> {StatusAccepted, StatusReview, StatusBlocked}"
        and t: "res_Transfer res =
          decided_transfer (newID ''pxt'' (ce_id e)) (ce_now e) req (CreateTransferRequest_Fingerprint req) de dc"
        and evs: "res_Events res = add_events (ce_events e) 0 (res_Transfer res)
          (decision_events (res_Transfer res) (CreateTransferRequest_Fingerprint req) de dc)"
        and wr: "insert_write (mem_view (w_store w)) (res_Transfer res) (res_Events res)
          (decision_audit (res_Transfer res) (ce_now e)) (mem_view (w_store w'))"
        and valid: "CreateTransferRequest_Validate req = None"
        by blast
      have "map ev_EventType (res_Events res) = decision_event_types (t_Status (res_Transfer res))"
        "\<forall>ev \<in> set (res_Events res). ev_TenantID ev = t_TenantID (res_Transfer res) \<and> ev_TransferID ev = t_ID (res_Transfer res)"
        using add_events_encodable [OF switch_events_encodable(1)] dc
        unfolding evs t by (simp_all add: decision_types)
      moreover have "Transfer_new (res_Transfer res)"
        unfolding t by (rule decided_new [OF dc])
      moreover have "t_AccountID (res_Transfer res) = req_AccountID req" "t_AmountCents (res_Transfer res) = req_AmountCents req"
        "t_ReceiverKey (res_Transfer res) = req_ReceiverKey req"
        unfolding t by (simp_all add: decided_transfer_def)
      ultimately show ?thesis
        using r False t wr valid by (simp add: insert_write_def view_write_def Let_def)
    qed
  qed
qed

section \<open>The SPI network\<close>

lemma memory_claim_taken:
  assumes "MemoryStore_ClaimSPISubmission env s tn i tok until = (Inr (cur, False), s1)" and "mem_inv s"
  obtains t where "ms_transfers s i = Some t" "t_TenantID t = tn" "t_Status t = StatusAccepted"
    "\<forall>u. t_SPIClaimedUntil t = Some u \<longrightarrow> \<not> time_After u (me_now env)"
    "t_SPIClaimToken cur = tok" "t_SPIClaimedUntil cur = Some until" "Transfer_identity cur = Transfer_identity t"
    "s1 = s\<lparr> ms_transfers := (ms_transfers s)(i \<mapsto> cur) \<rparr>"
proof -
  from assms(1) obtain t where t: "own_transfer s tn i = Inr t" "Transfer_ClaimSPISubmission t tok until (me_now env) = Inr cur"
    "s1 = put_transfer s cur"
    by (auto simp: MemoryStore_ClaimSPISubmission_def split: option.splits sum.splits if_splits)
  then have own: "ms_transfers s i = Some t" "t_TenantID t = tn"
    by (auto simp: own_transfer_def split: option.splits if_splits)
  have id: "t_ID t = i" using assms(2) own(1) by (simp add: mem_inv_def transfers_inv_def)
  have "t_ID cur = i" using t(2) id by (auto simp: Transfer_ClaimSPISubmission_def split: if_splits)
  with t own show ?thesis
    by (intro that [of t])
      (auto simp: Transfer_ClaimSPISubmission_def Transfer_identity_def put_transfer_def split: if_splits option.splits)
qed

text \<open>
  C20 (network only under a claim).  Whatever the other callers do, \<open>SubmitToSPI\<close> calls the SPI
  network at most once, and only with a transfer it has just claimed: its call of the store found
  an accepted transfer of the tenant that nobody held at that moment and stored it with the token
  and the expiry of this submission.  Otherwise the network's state is untouched.  A transfer that
  is returned is approved, and a submission it recorded itself wrote exactly the two events.
\<close>

theorem network_only_under_claim:
  assumes store: "svc_store sv = interleaved memory_store" and callers: "submit_callers_ok e"
    and reach: "mem_run NewMemoryStore ls (w_store w)"
    and call: "Service_SubmitToSPI sv e w tenant transfer correlation = (r, w')"
  defines "i \<equiv> strings_TrimSpace transfer" and "token \<equiv> newID ''spiclaim'' (se_token e)"
    and "until \<equiv> time_Add (se_now e) spiClaimTTL" and "s0 \<equiv> fst (se_claim e) (w_store w)"
  shows "(w_spi w' = w_spi w \<or>
          (\<exists>t cur. ms_transfers s0 i = Some t \<and> t_TenantID t = strings_TrimSpace tenant \<and> t_Status t = StatusAccepted \<and>
             (\<forall>u. t_SPIClaimedUntil t = Some u \<longrightarrow> \<not> time_After u (me_now (snd (se_claim e)))) \<and>
             t_SPIClaimToken cur = token \<and> t_SPIClaimedUntil cur = Some until \<and> Transfer_identity cur = Transfer_identity t \<and>
             MemoryStore_ClaimSPISubmission (snd (se_claim e)) s0 (t_TenantID t) i token until =
               (Inr (cur, False), s0\<lparr> ms_transfers := (ms_transfers s0)(i \<mapsto> cur) \<rparr>) \<and>
             w_spi w' = snd (svc_spi sv (se_ports e) (w_spi w) cur))) \<and>
         (\<forall>res. r = Inr res \<longrightarrow> t_Status (res_Transfer res) = StatusApproved \<and>
            map ev_EventType (res_Events res) =
              (if res_IdempotentReplay res then [] else [''spi_message_created'', ''pix_transfer_approved'']))"
  (is "(_ \<or> ?taken) \<and> ?approved")
proof -
  have ok: "ims.submit_env_ok e" using callers by (simp only: ims_submit_env_ok)
  note inv = mem_reachable [OF reach]
  note out = ims.SubmitToSPI_outcome [OF store ok inv call, THEN conjunct2]
  have approved: ?approved
    using out
  proof (elim disjE exE conjE, goal_cases)
    case 1
    then show ?case by simp
  next
    case (2 cur s1)
    show ?case
    proof (intro allI impI, goal_cases)
      case (1 res)
      from 2(3) [rule_format, OF 1] show ?case by (elim exE conjE) (simp split: if_splits)
    qed
  qed
  have inv0: "mem_inv s0"
    using ok inv ims.submit_env_ok_def ms.interleaved_env(2) unfolding s0_def by blast
  obtain rc s1 where cl: "MemoryStore_ClaimSPISubmission (snd (se_claim e)) s0 (strings_TrimSpace tenant) i token until = (rc, s1)"
    by (meson surj_pair)
  then have cl': "store_ClaimSPISubmission (svc_store sv) (se_claim e) (w_store w) (strings_TrimSpace tenant) i token until = (rc, s1)"
    by (simp add: store interleaved_def memory_store_def s0_def)
  note call' = call [unfolded Service_SubmitToSPI_def Let_def, folded i_def token_def until_def, unfolded cl' prod.case]
  show ?thesis
  proof (cases "\<exists>cur. rc = Inr (cur, False) \<and> strings_TrimSpace tenant \<noteq> '''' \<and> i \<noteq> ''''")
    case False
    with call' have "w_spi w' = w_spi w" by (auto split: sum.splits if_splits)
    with approved show ?thesis by blast
  next
    case True
    then obtain cur where cur: "rc = Inr (cur, False)" "strings_TrimSpace tenant \<noteq> ''''" "i \<noteq> ''''" by blast
    with call' obtain co where co: "submit_claimed sv e (w\<lparr>w_store := s1\<rparr>) (strings_TrimSpace tenant) i token co cur = (r, w')"
      by auto
    have "mem_inv s1"
      using ims.claim [OF _ inv, THEN conjunct1] cl' ok inv ims.rely_inv unfolding store ims.submit_env_ok_def by blast
    with ims.submit_claimed_outcome [OF store ok _ co] have spi: "w_spi w' = snd (svc_spi sv (se_ports e) (w_spi w) cur)" by simp
    have ?taken
      using memory_claim_taken [OF cl [unfolded cur(1)] inv0] cl [unfolded cur(1)] spi by metis
    with approved show ?thesis by blast
  qed
qed

text \<open>
  No submission under another claim.  When the store call of a submission finds a live claim
  on the transfer, the submission is refused as a conflict: the network is not called and the
  store is as the other callers left it.
\<close>

theorem submit_refused_while_claimed:
  assumes store: "svc_store sv = interleaved memory_store"
    and ids: "strings_TrimSpace tenant \<noteq> ''''" "strings_TrimSpace transfer \<noteq> ''''"
    and found: "ms_transfers (fst (se_claim e) (w_store w)) (strings_TrimSpace transfer) = Some t"
      "t_TenantID t = strings_TrimSpace tenant"
    and live: "t_Status t = StatusAccepted" "t_SPIClaimedUntil t = Some u" "time_After u (me_now (snd (se_claim e)))"
    and ctx: "me_ctx (snd (se_claim e)) = None"
    and expiry: "time_After (time_Add (se_now e) spiClaimTTL) (me_now (snd (se_claim e)))"
  shows "\<exists>err. errors_Is err ErrConflict \<and>
           Service_SubmitToSPI sv e w tenant transfer correlation =
             (Inl err, w\<lparr> w_store := fst (se_claim e) (w_store w) \<rparr>)"
proof -
  have tok: "strings_TrimSpace (newID ''spiclaim'' (se_token e)) \<noteq> ''''"
    by (rule strings_TrimSpace_not_blank [of "CHR ''s''"]) (simp add: newID_prefix_char, code_simp)
  have "t_Status t \<noteq> StatusApproved" using live(1) by (simp add: StatusAccepted_def StatusApproved_def)
  with assms tok show ?thesis
    by (simp add: Service_SubmitToSPI_def Let_def interleaved_def memory_store_def MemoryStore_ClaimSPISubmission_def
        MemoryStore_Health_def own_transfer_def Transfer_ClaimSPISubmission_def)
qed

text \<open>
  Batch of submissions.  A batch that ends without error has submitted, replayed or skipped
  every transfer it scanned; a batch that stops early reports fewer.  It never scans more than the
  limit, which is 100 when none is given.
\<close>

theorem batch_counts:
  assumes store: "svc_store sv = interleaved memory_store"
    and call: "Service_SubmitPendingSPI sv e es w limit = ((res, err), w')"
  shows "0 \<le> br_Submitted res \<and> 0 \<le> br_Replayed res \<and> 0 \<le> br_Skipped res \<and>
         br_Scanned res \<le> (if limit \<le> 0 then 100 else limit) \<and>
         (err = None \<longrightarrow> br_Submitted res + br_Replayed res + br_Skipped res = br_Scanned res) \<and>
         (err \<noteq> None \<longrightarrow> br_Submitted res + br_Replayed res + br_Skipped res \<le> br_Scanned res)"
proof -
  have len: "int (length ts) \<le> (if limit \<le> 0 then 100 else limit)"
    if "MemoryStore_PendingSPISubmissions me s limit = Inr ts" for me s ts
    using that by (auto simp: MemoryStore_PendingSPISubmissions_def batch_limit_def Let_def min_def split: option.splits if_splits)
  show ?thesis
  proof (cases "MemoryStore_PendingSPISubmissions (snd e) (fst e (w_store w)) limit")
    case (Inl x)
    with assms show ?thesis
      by (auto simp: Service_SubmitPendingSPI_def interleaved_def memory_store_def Let_def)
  next
    case (Inr ts)
    with assms have "submit_loop sv es 0 (w\<lparr> w_store := fst e (w_store w) \<rparr>)
        \<lparr> br_Scanned = int (length ts), br_Submitted = 0, br_Replayed = 0, br_Skipped = 0 \<rparr> ts = ((res, err), w')"
      by (simp add: Service_SubmitPendingSPI_def interleaved_def memory_store_def Let_def)
    from submit_loop_counts [OF this] len [OF Inr] show ?thesis
      by (cases err) (simp_all add: Let_def)
  qed
qed

section \<open>Reviews\<close>

lemma review_decision_fields:
  assumes "Transfer_RecordReviewDecision t st reason now = Inr u"
  shows "t_Status u = st" "Transfer_identity u = Transfer_identity t" "t_ID u = t_ID t"
proof -
  from assms have u: "u = t\<lparr> t_Status := st, t_DecisionReason := (if reason \<noteq> '''' then reason else t_DecisionReason t),
      t_UpdatedAt := now \<rparr>"
    by (simp add: Transfer_RecordReviewDecision_def split: if_splits)
  show "t_Status u = st" "Transfer_identity u = Transfer_identity t" "t_ID u = t_ID t"
    unfolding u by (simp_all add: Transfer_identity_def)
qed

text \<open>
  C21 (reviews).  A review decision that fails leaves the store as it was; one that succeeds found
  the tenant's transfer waiting for review and an approval or a block, moved it to accepted or
  blocked without touching its identity, and wrote the events of that decision.
\<close>

theorem review_is_atomic:
  assumes store: "svc_store sv = memory_store" and reach: "mem_run NewMemoryStore ls (w_store w)"
    and call: "Service_RecordReview sv e w request = (r, w')"
  defines "i \<equiv> strings_TrimSpace (rv_TransferID request)"
  shows "case r of
      Inl err \<Rightarrow> w_store w' = w_store w
    | Inr res \<Rightarrow> \<exists>t. ms_transfers (w_store w) i = Some t \<and> t_TenantID t = strings_TrimSpace (rv_TenantID request) \<and>
        t_Status t = StatusReview \<and> Transfer_identity (res_Transfer res) = Transfer_identity t \<and>
        ms_transfers (w_store w') = (ms_transfers (w_store w))(i \<mapsto> res_Transfer res) \<and>
        map ob_Event (ms_events (w_store w')) = map ob_Event (ms_events (w_store w)) @ res_Events res \<and>
        (rv_Decision request = ReviewApprove \<and> t_Status (res_Transfer res) = StatusAccepted \<and>
           map ev_EventType (res_Events res) = [''pix_transfer_review_approved'', ''spi_submission_requested''] \<or>
         rv_Decision request = ReviewBlock \<and> t_Status (res_Transfer res) = StatusBlocked \<and>
           map ev_EventType (res_Events res) = [''pix_transfer_review_blocked'', ''pix_transfer_blocked''])"
proof -
  note out = ms.RecordReview_outcome [OF store TrueI TrueI mem_reachable [OF reach] call, folded i_def]
  show ?thesis
  proof (cases r)
    case (Inl err)
    with out show ?thesis by simp
  next
    case (Inr res)
    with out have "review_write (mem_view (w_store w)) (strings_TrimSpace (rv_TenantID request)) i
        (rv_Decision request) res (mem_view (w_store w'))"
      by simp
    then obtain t st reason au where own: "view_owns (mem_view (w_store w)) (strings_TrimSpace (rv_TenantID request)) i t"
      "t_Status t = StatusReview"
      and dec: "st = StatusAccepted \<and> rv_Decision request = ReviewApprove \<and>
           map ev_EventType (res_Events res) = [''pix_transfer_review_approved'', ''spi_submission_requested''] \<or>
         st = StatusBlocked \<and> rv_Decision request = ReviewBlock \<and>
           map ev_EventType (res_Events res) = [''pix_transfer_review_blocked'', ''pix_transfer_blocked'']"
      and rec: "Transfer_RecordReviewDecision t st reason (au_CreatedAt au) = Inr (res_Transfer res)"
      and wr: "view_write (mem_view (w_store w)) (res_Transfer res) (res_Events res) [au] (mem_view (w_store w'))"
      unfolding review_write_def by (elim exE conjE) (rule that)
    note rev = review_decision_fields [OF rec]
    from dec have "rv_Decision request = ReviewApprove \<and> t_Status (res_Transfer res) = StatusAccepted \<and>
           map ev_EventType (res_Events res) = [''pix_transfer_review_approved'', ''spi_submission_requested''] \<or>
         rv_Decision request = ReviewBlock \<and> t_Status (res_Transfer res) = StatusBlocked \<and>
           map ev_EventType (res_Events res) = [''pix_transfer_review_blocked'', ''pix_transfer_blocked'']"
      by (elim disjE conjE) (simp_all add: rev(1))
    with own wr rev(2,3) show ?thesis
      unfolding Inr sum.case
      by (intro exI [of _ t]) (simp add: view_owns_def view_write_def)
  qed
qed

section \<open>Blocked transfers\<close>

lemma risk_blocked:
  assumes "StaticResolver_Resolve lower (app_resolver cfg) x tn key kt = Inr de"
    and "RulesEngine_Score req de = Inr d" and "risky_key (normalized_key lower key)"
  shows "fd_Status d = StatusBlocked"
proof -
  from assms(1,3) have "de_RiskSignal de = 92" by (auto simp: Resolve_iff resolved_risky)
  then have "90 \<le> fd_Score d" using Score_sum [OF _ _ assms(2)] by simp
  with Score_threshold [OF assms(2)] show ?thesis by simp
qed

lemma submit_not_pending:
  assumes store: "svc_store sv = interleaved memory_store"
    and found: "ms_transfers (fst (se_claim e) (w_store w)) (strings_TrimSpace transfer) = Some t"
    and status: "t_Status t \<notin> {StatusAccepted, StatusApproved}"
    and call: "Service_SubmitToSPI sv e w tenant transfer correlation = (r, w')"
  shows "(\<exists>err. r = Inl err) \<and> w_spi w' = w_spi w"
proof -
  let ?s = "fst (se_claim e) (w_store w)" and ?me = "snd (se_claim e)" and ?i = "strings_TrimSpace transfer"
  have refuse: "\<exists>err. MemoryStore_ClaimSPISubmission ?me ?s tn ?i tok until = (Inl err, ?s)" for tn tok until
  proof -
    obtain err where "Transfer_ClaimSPISubmission t tok until (me_now ?me) = Inl err"
      using status by (cases "strings_TrimSpace tok = '''' \<or> \<not> time_After until (me_now ?me)")
        (auto simp: Transfer_ClaimSPISubmission_def)
    then show ?thesis
      using found status
      by (cases "MemoryStore_Health ?me ?s"; cases "t_TenantID t = tn")
        (simp_all add: MemoryStore_ClaimSPISubmission_def own_transfer_def)
  qed
  obtain err where "MemoryStore_ClaimSPISubmission ?me ?s (strings_TrimSpace tenant) ?i
      (newID ''spiclaim'' (se_token e)) (time_Add (se_now e) spiClaimTTL) = (Inl err, ?s)"
    using refuse by blast
  then show ?thesis
    using call store
    by (cases "strings_TrimSpace tenant = '''' \<or> ?i = ''''")
      (auto simp: Service_SubmitToSPI_def Let_def interleaved_def memory_store_def)
qed

lemma blocked_stays:
  assumes "mem_rely s s'" and "mem_inv s" and "ms_transfers s i = Some t" and "t_Status t = StatusBlocked"
  shows "ms_transfers s' i = Some t"
proof -
  from assms(1) obtain ls where "mem_run s ls s'" unfolding mem_rely_def ..
  then obtain t' where t': "ms_transfers s' i = Some t'" "Transfer_step\<^sup>*\<^sup>* t t'"
    using mem_run_lookup assms(2,3) by blast
  have inv: "Transfer_inv t" using assms(2,3) by (auto simp: mem_inv_def transfers_inv_def)
  from t'(2) have "t' = t"
  proof (induction rule: rtranclp_induct)
    case (step y z)
    then show ?case
      using Transfer_step_terminal [of t z] inv assms(4) by (simp add: TransferStatus_Terminal_def)
  qed simp
  with t' show ?thesis by simp
qed

text \<open>
  C22 (risky receivers never reach the network).  On the wired application, whatever the other
  callers do: a transfer that is created for a receiver key with a risk marker is blocked, and no
  later submission of it, by any worker with any SPI client, succeeds or calls the network.
\<close>

theorem risky_never_submitted:
  assumes callers: "create_callers_ok e" "callers_ok (se_claim e2)"
    and reach: "mem_run NewMemoryStore ls (w_store w)"
    and tenant: "CHR '':'' \<notin> set (strings_TrimSpace (req_TenantID request))"
    and risky: "risky_key (normalized_key lower (req_ReceiverKey request))"
    and create: "Service_CreateTransfer (app_NewService lower cfg (interleaved memory_store)) e w request = (Inr res, w')"
      "\<not> res_IdempotentReplay res"
    and between: "mem_run (w_store w') ls' (w_store w2)"
    and store: "svc_store sv2 = interleaved memory_store"
    and submit: "Service_SubmitToSPI sv2 e2 w2 tn2 transfer2 co2 = (r2, w2')" "strings_TrimSpace transfer2 = t_ID (res_Transfer res)"
  shows "t_Status (res_Transfer res) = StatusBlocked \<and> (\<exists>err. r2 = Inl err) \<and> w_spi w2' = w_spi w2"
proof -
  let ?app = "app_NewService lower cfg (interleaved memory_store)"
  have inv: "mem_inv (w_store w)" using reach by (rule mem_reachable)
  have ok: "ims.create_env_ok e" using callers(1) by (simp only: ims_create_env_ok)
  have app_store: "svc_store ?app = interleaved memory_store" by simp
  note out = ims.CreateTransfer_outcome [OF app_store ok inv tenant create(1)]
  obtain de dc where
    "StaticResolver_Resolve lower (app_resolver cfg) (ax_dict (ce_ports e)) (strings_TrimSpace (req_TenantID request))
        (strings_TrimSpace (req_ReceiverKey request))
        (req_ReceiverKeyType (normalize_request (ce_requested e) request)) = Inr de"
    "RulesEngine_Score (normalize_request (ce_requested e) request) de = Inr dc"
    "t_Status (res_Transfer res) = fd_Status dc"
    using create by (rule CreateTransfer_new) (simp add: that)
  then have blocked: "t_Status (res_Transfer res) = StatusBlocked"
    using risk_blocked [of lower cfg] risky by (simp add: normalized_key_def)
  have inv': "mem_inv (w_store w')" using out inv ims.rely_inv by blast
  have filed: "ms_transfers (w_store w') (t_ID (res_Transfer res)) = Some (res_Transfer res)"
    using ims.created_idempotent [OF app_store ok inv tenant create(1)] by (simp add: view_idempotent_def)
  have inv2: "mem_inv (w_store w2)" using mem_run_inv [OF between inv'] .
  have "mem_rely (w_store w') (fst (se_claim e2) (w_store w2))"
    using mem_relyI [OF between] callers(2) inv2 ims.rely_trans unfolding callers_ok_def by blast
  from blocked_stays [OF this inv' filed blocked]
  have "ms_transfers (fst (se_claim e2) (w_store w2)) (strings_TrimSpace transfer2) = Some (res_Transfer res)"
    using submit(2) by simp
  from submit_not_pending [OF store this _ submit(1)] blocked show ?thesis
    by (simp add: StatusBlocked_def StatusAccepted_def StatusApproved_def)
qed

section \<open>A payment from request to settlement\<close>

lemma visible_hex: "visible [hex_digit d]" if "d < 16"
proof -
  have "\<forall>d \<in> set [0..<16]. visible [hex_digit d]" by code_simp
  with that show ?thesis by simp
qed

lemma visible_digit: "visible [digit_char d]" if "d < 10"
proof -
  have "\<forall>d \<in> set [0..<10]. visible [digit_char d]" by code_simp
  with that show ?thesis by simp
qed

lemma visible_iff: "visible s \<longleftrightarrow> (\<forall>c \<in> set s. visible [c])"
  by (auto simp: visible_def)

lemma visible_Nil: "visible ''''"
  by (simp add: visible_def)

lemma visible_signs: "visible (CHR ''-'' # s) = visible s" "visible (CHR ''_'' # s) = visible s"
  by (auto simp: visible_def space_encodings_def)

lemma visible_show_nat: "visible (show_nat n)"
  using show_nat_digits visible_digit by (metis visible_iff)

lemma newID_visible:
  assumes "visible p"
  shows "visible (newID p r)"
proof -
  have byte: "visible (hex_byte b)" for b
    using unsigned_less [of b, where 'a = nat] visible_hex [of "unat b div 16"] visible_hex [of "unat b mod 16"]
    by (simp add: hex_byte_def visible_iff [of "[hex_digit (unat b div 16), hex_digit (unat b mod 16)]"])
  have hex: "visible (hex_EncodeToString bs)" for bs
    using byte by (induction bs) (simp_all add: hex_EncodeToString_def visible_Nil)
  have num: "visible (show_int n)" for n
    using visible_show_nat by (simp add: show_int_def visible_signs)
  show ?thesis
    using assms hex num by (cases r) (simp_all add: visible_signs)
qed

lemma risk_accepted:
  assumes "StaticResolver_Resolve lower (app_resolver cfg) x tn key kt = Inr de"
    and "RulesEngine_Score req de = Inr d" and "\<not> risky_key (normalized_key lower key)" "req_AmountCents req < 500000"
  shows "fd_Status d = StatusAccepted"
proof -
  from assms(1,3) have "0 \<le> de_RiskSignal de" "de_RiskSignal de < 35"
    using resolved_ordinary by (auto simp: Resolve_iff)
  then have "fd_Score d < 65"
    using Score_sum [OF _ _ assms(2)] assms(4) by simp
  with Score_threshold [OF assms(2)] show ?thesis by simp
qed

text \<open>What is needed for the application to decide on a request, and for it to accept a small payment to an ordinary key.\<close>

definition admissible ::
    "(string \<Rightarrow> string) \<Rightarrow> (mem_env, app_env) create_env \<Rightarrow> (MemoryStore, Limiter, unit) world \<Rightarrow> CreateTransferRequest \<Rightarrow> bool" where
  "admissible lower e w request \<longleftrightarrow>
     (let req = normalize_request (ce_requested e) request
      in CreateTransferRequest_Validate req = None \<and>
         \<not> unresolvable_key (normalized_key lower (req_ReceiverKey req)) \<and>
         ms_idempotency (w_store w) (idem_key (req_TenantID req) (req_IdempotencyKey req)) = None \<and>
         ms_transfers (w_store w) (newID ''pxt'' (ce_id e)) = None \<and> me_ctx (ce_find e) = None \<and>
         fst (Limiter_Allow (w_tenantLimit w) (ax_tenant_now (ce_ports e)) (req_TenantID req @ '':'' @ req_AccountID req)) \<and>
         fst (Limiter_Allow (w_dictLimit w) (ax_dict_now (ce_ports e)) (req_TenantID req @ '':'' @ req_ReceiverKey req)))"

definition payable ::
    "(string \<Rightarrow> string) \<Rightarrow> (mem_env, app_env) create_env \<Rightarrow> (MemoryStore, Limiter, unit) world \<Rightarrow> CreateTransferRequest \<Rightarrow> bool" where
  "payable lower e w request \<longleftrightarrow> admissible lower e w request \<and> req_AmountCents request < 500000 \<and>
     \<not> risky_key (normalized_key lower (strings_TrimSpace (req_ReceiverKey request)))"

lemma app_admit:
  assumes "admissible lower e w request"
  defines "req \<equiv> normalize_request (ce_requested e) request"
  obtains de dc w1 where "admit (app_NewService lower cfg memory_store) (ce_ports e) w req = (Inr (de, dc), w1)"
    "StaticResolver_Resolve lower (app_resolver cfg) (ax_dict (ce_ports e)) (req_TenantID req)
       (req_ReceiverKey req) (req_ReceiverKeyType req) = Inr de" "RulesEngine_Score req de = Inr dc"
    "w_store w1 = w_store w"
proof -
  let ?app = "app_NewService lower cfg memory_store"
  define de where "de = resolved_entry (req_TenantID req) (req_ReceiverKey req) (req_ReceiverKeyType req)
      (normalized_key lower (req_ReceiverKey req)) (dx_now (ax_dict (ce_ports e)))"
  have res: "StaticResolver_Resolve lower (app_resolver cfg) (ax_dict (ce_ports e)) (req_TenantID req)
      (req_ReceiverKey req) (req_ReceiverKeyType req) = Inr de"
    using assms by (simp add: Resolve_iff admissible_def Let_def de_def)
  obtain dc where score: "RulesEngine_Score req de = Inr dc" using Score_total by blast
  obtain l1 where l1: "Limiter_Allow (w_tenantLimit w) (ax_tenant_now (ce_ports e)) (req_TenantID req @ '':'' @ req_AccountID req) = (True, l1)"
    using assms by (cases "Limiter_Allow (w_tenantLimit w) (ax_tenant_now (ce_ports e)) (req_TenantID req @ '':'' @ req_AccountID req)")
      (auto simp: admissible_def Let_def)
  obtain l2 where l2: "Limiter_Allow (w_dictLimit w) (ax_dict_now (ce_ports e)) (req_TenantID req @ '':'' @ req_ReceiverKey req) = (True, l2)"
    using assms by (cases "Limiter_Allow (w_dictLimit w) (ax_dict_now (ce_ports e)) (req_TenantID req @ '':'' @ req_ReceiverKey req)")
      (auto simp: admissible_def Let_def)
  have "admit ?app (ce_ports e) w req = (Inr (de, dc), w\<lparr> w_tenantLimit := l1, w_dictLimit := l2 \<rparr>)"
    using l1 l2 res score Score_status [OF score] by (simp add: admit_def allow_def Let_def)
  then show ?thesis using res score by (rule that) simp
qed

lemma app_creates:
  assumes adm: "admissible lower e w request"
  defines "req \<equiv> normalize_request (ce_requested e) request"
  obtains res w1 t de dc where "Service_CreateTransfer (app_NewService lower cfg memory_store) e w request = (Inr res, w1)"
    "res_Transfer res = t" "\<not> res_IdempotentReplay res"
    "StaticResolver_Resolve lower (app_resolver cfg) (ax_dict (ce_ports e)) (req_TenantID req)
       (req_ReceiverKey req) (req_ReceiverKeyType req) = Inr de" "RulesEngine_Score req de = Inr dc" "t_Status t = fd_Status dc"
    "Transfer_new t" "t_ID t = newID ''pxt'' (ce_id e)"
    "t_TenantID t = strings_TrimSpace (req_TenantID request)"
    "ms_transfers (w_store w1) = (ms_transfers (w_store w))(t_ID t \<mapsto> t)"
    "ms_callbacks (w_store w1) = ms_callbacks (w_store w)"
    "map ob_Event (ms_events (w_store w1)) = map ob_Event (ms_events (w_store w)) @ res_Events res"
    "map ev_EventType (res_Events res) = decision_event_types (t_Status t)"
proof -
  let ?app = "app_NewService lower cfg memory_store" and ?h = "CreateTransferRequest_Fingerprint req"
  obtain de dc w0 where admit: "admit ?app (ce_ports e) w req = (Inr (de, dc), w0)"
    and ports: "StaticResolver_Resolve lower (app_resolver cfg) (ax_dict (ce_ports e)) (req_TenantID req)
       (req_ReceiverKey req) (req_ReceiverKeyType req) = Inr de" "RulesEngine_Score req de = Inr dc"
    and w0: "w_store w0 = w_store w"
    unfolding req_def by (rule app_admit [OF adm])
  note dc = Score_status [OF ports(2)]
  define t where "t = decided_transfer (newID ''pxt'' (ce_id e)) (ce_now e) req ?h de dc"
  define evs where "evs = add_events (ce_events e) 0 t (decision_events t ?h de dc)"
  have valid: "CreateTransferRequest_Validate req = None"
    and find: "MemoryStore_FindByIdempotency (ce_find e) (w_store w) (req_TenantID req) (req_IdempotencyKey req) = Inr None"
    and free: "ms_idempotency (w_store w) (idem_key (req_TenantID req) (req_IdempotencyKey req)) = None"
      "ms_transfers (w_store w) (newID ''pxt'' (ce_id e)) = None"
    using adm by (simp_all add: admissible_def Let_def req_def MemoryStore_FindByIdempotency_def MemoryStore_Health_def)
  define s1 where "s1 = snd (MemoryStore_InsertTransfer (ce_insert e) (w_store w) t evs (decision_audit t (ce_now e)))"
  have ins: "MemoryStore_InsertTransfer (ce_insert e) (w_store w) t evs (decision_audit t (ce_now e)) = (None, s1)"
    using free unfolding s1_def by (simp add: MemoryStore_InsertTransfer_def Let_def t_def)
  have s1: "ms_transfers s1 = (ms_transfers (w_store w))(t_ID t \<mapsto> t)" "ms_callbacks s1 = ms_callbacks (w_store w)"
      "map ob_Event (ms_events s1) = map ob_Event (ms_events (w_store w)) @ evs"
    using free unfolding s1_def by (simp_all add: MemoryStore_InsertTransfer_def Let_def t_def put_transfer_def append_audit_def)
  have call: "Service_CreateTransfer ?app e w request =
      (Inr \<lparr> res_Transfer = t, res_IdempotentReplay = False, res_Events = evs \<rparr>, w0\<lparr> w_store := s1 \<rparr>)"
    using valid find admit ins w0
    by (simp add: Service_CreateTransfer_def insert_decided_def memory_store_def Let_def flip: req_def t_def evs_def)
  have t: "t_Status t = fd_Status dc" "t_ID t = newID ''pxt'' (ce_id e)" "t_TenantID t = strings_TrimSpace (req_TenantID request)"
    by (simp_all add: t_def req_def)
  have types: "map ev_EventType evs = decision_event_types (t_Status t)"
    using add_events_encodable [OF switch_events_encodable(1)] decision_types [OF dc] t(1)
    unfolding evs_def by simp
  have new: "Transfer_new t" unfolding t_def by (rule decided_new [OF dc])
  show ?thesis
    by (rule that [OF call refl _ ports]) (simp_all add: t s1 types new)
qed

lemma app_submits:
  assumes t: "ms_transfers (w_store w) i = Some t" "t_ID t = i" "t_TenantID t = tn" "Transfer_new t" "t_Status t = StatusAccepted"
    and ids: "visible i" "i \<noteq> ''''" "strings_TrimSpace tn = tn" "tn \<noteq> ''''"
    and ctx: "me_ctx (se_claim e) = None" "me_ctx (se_record e) = None"
      "time_After (time_Add (se_now e) spiClaimTTL) (me_now (se_claim e))"
  obtains res w1 m u where "Service_SubmitToSPI (app_NewService lower cfg memory_store) e w tn i co = (Inr res, w1)"
    "Simulator_Submit (ax_spi_now (se_ports e)) t = Inr m" "res_Transfer res = u" "\<not> res_IdempotentReplay res"
    "t_Status u = StatusApproved" "t_SPIMessageID u = sm_MessageID m" "t_ID u = i" "t_TenantID u = tn"
    "ms_transfers (w_store w1) i = Some u" "ms_callbacks (w_store w1) = ms_callbacks (w_store w)"
    "map ob_Event (ms_events (w_store w1)) = map ob_Event (ms_events (w_store w)) @ res_Events res"
    "map ev_EventType (res_Events res) = [''spi_message_created'', ''pix_transfer_approved'']"
proof -
  let ?tok = "newID ''spiclaim'' (se_token e)" and ?until = "time_Add (se_now e) spiClaimTTL"
  define cur where "cur = t\<lparr> t_SPIClaimToken := ?tok, t_SPIClaimedUntil := Some ?until,
      t_SPISubmissionAttempts := wrap64 (t_SPISubmissionAttempts t + 1), t_SPILastError := '''',
      t_UpdatedAt := me_now (se_claim e) \<rparr>"
  define s1 where "s1 = put_transfer (w_store w) cur"
  have tok: "strings_TrimSpace ?tok \<noteq> ''''" "?tok \<noteq> ''''"
    by (rule strings_TrimSpace_not_blank [of "CHR ''s''"], simp add: newID_prefix_char, code_simp) simp
  have "Transfer_ClaimSPISubmission t ?tok ?until (me_now (se_claim e)) = Inr cur"
    using t ctx tok by (simp add: Transfer_ClaimSPISubmission_def cur_def Transfer_new_def)
  then have claim: "MemoryStore_ClaimSPISubmission (se_claim e) (w_store w) tn i ?tok ?until = (Inr (cur, False), s1)"
    using t ctx by (simp add: MemoryStore_ClaimSPISubmission_def MemoryStore_Health_def own_transfer_def s1_def)
  obtain m where m: "Simulator_Submit (ax_spi_now (se_ports e)) cur = Inr m"
    by (simp add: Simulator_Submit_def Let_def)
  have "t_ID cur = t_ID t" "t_AccountID cur = t_AccountID t" "t_ReceiverKey cur = t_ReceiverKey t" "t_CreatedAt cur = t_CreatedAt t"
    by (simp_all add: cur_def)
  with m have m': "Simulator_Submit (ax_spi_now (se_ports e)) t = Inr m"
    by (simp only: Simulator_Submit_def)
  note valid = Submit_message_valid [OF m]
  define co' where "co' = (if strings_TrimSpace co = '''' then t_CorrelationID cur else strings_TrimSpace co)"
  obtain evs where evs: "add_all_events (se_events e) 0 cur co' (submission_events cur m) = Inr evs"
      "map ev_EventType evs = [''spi_message_created'', ''pix_transfer_approved'']"
    using add_all_events_encodable [OF switch_events_encodable(2), of "se_events e" 0 cur co' cur m]
    by (auto simp: submission_events_def)
  define u where "u = cur\<lparr> t_Status := StatusApproved, t_SPIMessageID := sm_MessageID m, t_EndToEndID := sm_EndToEndID m,
      t_SPIClaimToken := '''', t_SPIClaimedUntil := None, t_SPILastError := '''', t_UpdatedAt := sm_SubmittedAt m \<rparr>"
  define s2 where "s2 = append_audit (appendEventsLocked (put_transfer s1 u) evs) [submission_audit cur co' m]"
  have "Transfer_RecordSPISubmission cur ?tok m = Inr u"
    using t(5) tok(2) valid by (simp add: Transfer_RecordSPISubmission_def u_def cur_def)
  then have rec: "MemoryStore_RecordSPISubmission (se_record e) s1 tn i ?tok m evs (submission_audit cur co' m) = (Inr (u, False), s2)"
    using t ctx by (simp add: MemoryStore_RecordSPISubmission_def MemoryStore_Health_def own_transfer_def s1_def s2_def
        put_transfer_def cur_def StatusAccepted_def StatusApproved_def)
  have call: "Service_SubmitToSPI (app_NewService lower cfg memory_store) e w tn i co =
      (Inr \<lparr> res_Transfer = u, res_IdempotentReplay = False, res_Events = evs \<rparr>, w\<lparr> w_store := s2, w_spi := () \<rparr>)"
    using ids claim m evs rec trim_visible [of i]
    by (simp add: Service_SubmitToSPI_def submit_claimed_def memory_store_def Let_def flip: co'_def)
  have u: "t_Status u = StatusApproved" "t_SPIMessageID u = sm_MessageID m" "t_ID u = i" "t_TenantID u = tn"
    using t by (simp_all add: u_def cur_def)
  have s2: "ms_transfers s2 i = Some u" "ms_callbacks s2 = ms_callbacks (w_store w)"
      "map ob_Event (ms_events s2) = map ob_Event (ms_events (w_store w)) @ evs"
    using u(3) by (simp_all add: s2_def s1_def put_transfer_def append_audit_def)
  show ?thesis
    by (rule that [OF call m' refl]) (simp_all add: u s2 evs)
qed

lemma app_settles:
  assumes u: "ms_transfers (w_store w) i = Some u" "t_ID u = i" "t_TenantID u = tn" "t_Status u = StatusApproved"
    "t_SPIMessageID u = m" "m \<noteq> ''''" "i \<noteq> ''''" "tn \<noteq> ''''"
    and free: "ms_callbacks (w_store w) (tn @ '':'' @ m) = None"
    and cb: "cb_TenantID cb = tn" "cb_TransferID cb = i" "cb_SPIMessageID cb = m" "cb_Status cb = SettlementAccepted"
  obtains res w1 v where "Service_RecordSettlement (app_NewService lower cfg memory_store) e w cb = (Inr res, w1)"
    "res_Transfer res = v" "t_Status v = StatusSettled" "t_SettlementCode v = cb_Code cb"
    "t_SPIMessageID v = m" "t_TenantID v = tn"
    "ms_transfers (w_store w1) i = Some v"
    "map ob_Event (ms_events (w_store w1)) = map ob_Event (ms_events (w_store w)) @ res_Events res"
    "map ev_EventType (res_Events res) = [''pix_transfer_settled'']"
proof -
  define cb1 where "cb1 = normalize_callback (te_now e) (te_corr e) cb"
  define cb2 where "cb2 = (if cb_CallbackHash cb1 = '''' then cb1\<lparr> cb_CallbackHash := SettlementCallback_Fingerprint cb1 \<rparr> else cb1)"
  have cb2: "cb_TenantID cb2 = tn" "cb_TransferID cb2 = i" "cb_SPIMessageID cb2 = m" "cb_Status cb2 = SettlementAccepted"
      "cb_Code cb2 = cb_Code cb"
    using cb by (simp_all add: cb2_def cb1_def normalize_callback_def Let_def)
  have cb1: "cb_TenantID cb1 = tn" "cb_TransferID cb1 = i" "cb_SPIMessageID cb1 = m"
    using cb by (simp_all add: cb1_def)
  define v where "v = u\<lparr> t_Status := StatusSettled, t_SettlementCode := cb_Code cb2, t_UpdatedAt := cb_ReceivedAt cb2 \<rparr>"
  obtain ev where ev: "events_New (newID ''evt'' (te_id e)) ''pix_transfer_settled'' (t_TenantID u) (t_AccountID u) (t_ID u)
      (cb_CorrelationID cb2) (cb_ReceivedAt cb2)
      [(''spi_message_id'', JString m), (''status'', JString SettlementAccepted), (''code'', JString (cb_Code cb2))] = Inr ev"
      "ev_EventType ev = ''pix_transfer_settled''"
    by (rule events_New_Inr) auto
  have rec: "Transfer_RecordSettlement u cb2 = Inr v"
    using u cb2 by (simp add: Transfer_RecordSettlement_def v_def TransferStatus_Terminal_def StatusApproved_def
        StatusBlocked_def StatusSettled_def StatusRejected_def)
  obtain s1 where upd: "MemoryStore_UpdateSettlement (te_update e) (w_store w) tn i cb2 [ev] (settlement_audit u cb2) = (Inr (v, False), s1)"
      "ms_transfers s1 = (ms_transfers (w_store w))(i \<mapsto> v)"
      "map ob_Event (ms_events s1) = map ob_Event (ms_events (w_store w)) @ [ev]"
    using u free rec cb2 by (simp add: MemoryStore_UpdateSettlement_def own_transfer_def Let_def put_transfer_def append_audit_def v_def)
  have call: "Service_RecordSettlement (app_NewService lower cfg memory_store) e w cb =
      (Inr \<lparr> res_Transfer = v, res_IdempotentReplay = False, res_Events = [ev] \<rparr>, w\<lparr> w_store := s1 \<rparr>)"
    using u cb1 cb2 ev upd
    by (simp add: Service_RecordSettlement_def settle_current_def settlement_event_type_def memory_store_def
        MemoryStore_GetTransfer_def own_transfer_def Let_def flip: cb1_def cb2_def)
  have v: "t_Status v = StatusSettled" "t_SettlementCode v = cb_Code cb" "t_SPIMessageID v = m" "t_TenantID v = tn"
    by (simp_all add: v_def cb2 u)
  show ?thesis
    by (rule that [OF call refl]) (simp_all add: v upd ev)
qed


text \<open>The message id that the simulator gives to a transfer, a hash of its id, account and receiver key.\<close>

definition simulated_message_id :: "string \<Rightarrow> string \<Rightarrow> string \<Rightarrow> string" where
  "simulated_message_id transferID accountID receiverKey =
     ''spi_'' @ hex_EncodeToString (take 8 (sha256_Sum256 (bytes_of (transferID @ '':'' @ accountID @ '':'' @ receiverKey))))"

lemma created_message:
  assumes "Service_CreateTransfer sv e w request = (Inr res, w')" and "\<not> res_IdempotentReplay res"
    and "Simulator_Submit now (res_Transfer res) = Inr m"
  shows "sm_MessageID m = simulated_message_id (newID ''pxt'' (ce_id e)) (strings_TrimSpace (req_AccountID request))
    (strings_TrimSpace (req_ReceiverKey request))"
  using assms(3) by (cases rule: CreateTransfer_new [OF assms(1,2)])
    (auto simp: Simulator_Submit_def Let_def simulated_message_id_def decided_transfer_def normalize_request_def)

text \<open>
  C23 (a payment goes through).  On the wired application with the memory store, a valid request
  under 5,000.00 to an ordinary receiver key, with a fresh idempotency key and within the rate
  limits, is accepted; the submission of the transfer to the simulator then approves it, and the
  provider's callback for the SPI message settles it, with exactly the eight events of this course
  in the outbox.  The store may hold any transfers and callbacks of this and other tenants; what
  is needed of it is that no settlement is on file for the very message id that the simulator
  derives for the new transfer.
\<close>

theorem payment_goes_through:
  assumes app: "app = app_NewService lower cfg memory_store"
    and pay: "payable lower e1 w request"
    and ctx: "me_ctx (se_claim e2) = None" "me_ctx (se_record e2) = None"
      "time_After (time_Add (se_now e2) spiClaimTTL) (me_now (se_claim e2))"
    and free: "ms_callbacks (w_store w) (strings_TrimSpace (req_TenantID request) @ '':'' @
        simulated_message_id (newID ''pxt'' (ce_id e1)) (strings_TrimSpace (req_AccountID request))
          (strings_TrimSpace (req_ReceiverKey request))) = None"
    and cb: "cb_TenantID cb = strings_TrimSpace (req_TenantID request)" "cb_TransferID cb = newID ''pxt'' (ce_id e1)"
      "cb_Status cb = SettlementAccepted"
  shows "\<exists>r1 w1 r2 w2 r3 w3. Service_CreateTransfer app e1 w request = (Inr r1, w1) \<and> t_Status (res_Transfer r1) = StatusAccepted \<and>
     Service_SubmitToSPI app e2 w1 (t_TenantID (res_Transfer r1)) (t_ID (res_Transfer r1)) co = (Inr r2, w2) \<and>
     t_Status (res_Transfer r2) = StatusApproved \<and>
     Service_RecordSettlement app e3 w2 (cb\<lparr> cb_SPIMessageID := t_SPIMessageID (res_Transfer r2) \<rparr>) = (Inr r3, w3) \<and>
     t_Status (res_Transfer r3) = StatusSettled \<and>
     map (ev_EventType \<circ> ob_Event) (ms_events (w_store w3)) = map (ev_EventType \<circ> ob_Event) (ms_events (w_store w)) @
       [''pix_transfer_requested'', ''dict_key_resolved'', ''fraud_score_calculated'', ''pix_transfer_accepted'',
        ''spi_submission_requested'', ''spi_message_created'', ''pix_transfer_approved'', ''pix_transfer_settled'']"
proof -
  let ?tn = "strings_TrimSpace (req_TenantID request)" and ?i = "newID ''pxt'' (ce_id e1)"
  have i: "visible ?i" "?i \<noteq> ''''"
    by (rule newID_visible, code_simp) simp
  have tn: "?tn \<noteq> ''''"
    using pay Validate_None_iff [of "normalize_request (ce_requested e1) request"]
    by (simp add: payable_def admissible_def Let_def)
  have adm: "admissible lower e1 w request" using pay by (simp add: payable_def)
  obtain r1 w1 t de dc where c: "Service_CreateTransfer app e1 w request = (Inr r1, w1)" "res_Transfer r1 = t"
      and new: "\<not> res_IdempotentReplay r1"
    and ports: "StaticResolver_Resolve lower (app_resolver cfg) (ax_dict (ce_ports e1)) ?tn
       (strings_TrimSpace (req_ReceiverKey request)) (req_ReceiverKeyType (normalize_request (ce_requested e1) request)) = Inr de"
      "RulesEngine_Score (normalize_request (ce_requested e1) request) de = Inr dc" "t_Status t = fd_Status dc"
    and t: "Transfer_new t" "t_ID t = ?i" "t_TenantID t = ?tn"
      "ms_transfers (w_store w1) = (ms_transfers (w_store w))(t_ID t \<mapsto> t)" "ms_callbacks (w_store w1) = ms_callbacks (w_store w)"
      "map ob_Event (ms_events (w_store w1)) = map ob_Event (ms_events (w_store w)) @ res_Events r1"
      "map ev_EventType (res_Events r1) = decision_event_types (t_Status t)"
    unfolding app by (rule app_creates [OF adm]) (simp add: that)
  have acc: "t_Status t = StatusAccepted"
    using risk_accepted [OF ports(1,2)] pay ports(3) by (simp add: payable_def)
  have t1: "ms_transfers (w_store w1) ?i = Some t" using t(2,4) by simp
  have trim: "strings_TrimSpace ?tn = ?tn" by simp
  obtain r2 w2 m u where s: "Service_SubmitToSPI app e2 w1 ?tn ?i co = (Inr r2, w2)"
    "Simulator_Submit (ax_spi_now (se_ports e2)) t = Inr m" "res_Transfer r2 = u"
    "t_Status u = StatusApproved" "t_SPIMessageID u = sm_MessageID m" "t_ID u = ?i" "t_TenantID u = ?tn"
    "ms_transfers (w_store w2) ?i = Some u" "ms_callbacks (w_store w2) = ms_callbacks (w_store w1)"
    "map ob_Event (ms_events (w_store w2)) = map ob_Event (ms_events (w_store w1)) @ res_Events r2"
    "map ev_EventType (res_Events r2) = [''spi_message_created'', ''pix_transfer_approved'']"
    unfolding app by (rule app_submits [OF t1 t(2,3,1) acc i trim tn ctx])
  have m: "t_SPIMessageID u \<noteq> ''''" using Submit_message_valid(1) [OF s(2)] s(5) by auto
  have free2: "ms_callbacks (w_store w2) (?tn @ '':'' @ t_SPIMessageID u) = None"
    using free s(5,9) t(5) created_message [OF c(1) new, unfolded c(2), OF s(2)] by simp
  obtain r3 w3 v where f: "Service_RecordSettlement app e3 w2 (cb\<lparr> cb_SPIMessageID := t_SPIMessageID u \<rparr>) = (Inr r3, w3)"
    "res_Transfer r3 = v" "t_Status v = StatusSettled"
    "map ob_Event (ms_events (w_store w3)) = map ob_Event (ms_events (w_store w2)) @ res_Events r3"
    "map ev_EventType (res_Events r3) = [''pix_transfer_settled'']"
    unfolding app
    by (rule app_settles [OF s(8,6,7,4) refl m i(2) tn free2, of "cb\<lparr> cb_SPIMessageID := t_SPIMessageID u \<rparr>"])
      (simp_all add: cb)
  have "map (ev_EventType \<circ> ob_Event) (ms_events (w_store w3)) =
      map (ev_EventType \<circ> ob_Event) (ms_events (w_store w)) @ decision_event_types StatusAccepted @
      [''spi_message_created'', ''pix_transfer_approved''] @ [''pix_transfer_settled'']"
    using t(6,7) acc s(10,11) f(4,5) by (simp flip: map_map)
  with c t acc s f show ?thesis
    by (intro exI [of _ r1] exI [of _ w1] exI [of _ r2] exI [of _ w2] exI [of _ r3] exI [of _ w3])
      (simp add: decision_event_types_def)
qed

section \<open>Sample runs\<close>

text \<open>A caller that is alone on the store: nothing happens between its store calls.\<close>

definition alone_create :: "('e, 'x) create_env \<Rightarrow> (('s \<Rightarrow> 's) \<times> 'e, 'x) create_env" where
  "alone_create e = \<lparr> ce_requested = ce_requested e, ce_find = (id, ce_find e), ce_ports = ce_ports e, ce_now = ce_now e,
     ce_id = ce_id e, ce_events = ce_events e, ce_insert = (id, ce_insert e), ce_refind = (id, ce_refind e) \<rparr>"

definition alone_submit :: "('e, 'x) submit_env \<Rightarrow> (('s \<Rightarrow> 's) \<times> 'e, 'x) submit_env" where
  "alone_submit e = \<lparr> se_token = se_token e, se_now = se_now e, se_claim = (id, se_claim e), se_ports = se_ports e,
     se_events = se_events e, se_record = (id, se_record e), se_release = (id, se_release e),
     se_release_now = se_release_now e \<rparr>"

definition alone_settle :: "'e settle_env \<Rightarrow> (('s \<Rightarrow> 's) \<times> 'e) settle_env" where
  "alone_settle e = \<lparr> te_now = te_now e, te_corr = te_corr e, te_get = (id, te_get e), te_id = te_id e,
     te_update = (id, te_update e) \<rparr>"

lemma create_alone:
  "Service_CreateTransfer (app_NewService l c (interleaved S)) (alone_create e) w r =
   Service_CreateTransfer (app_NewService l c S) e w r"
  unfolding Service_CreateTransfer_def insert_decided_def admit_def app_ports interleaved_def alone_create_def
    create_env.select_convs Store.select_convs fst_conv snd_conv id_apply by (rule refl)

lemma submit_alone:
  "Service_SubmitToSPI (app_NewService l c (interleaved S)) (alone_submit e) w tn i co =
   Service_SubmitToSPI (app_NewService l c S) e w tn i co"
  unfolding Service_SubmitToSPI_def submit_claimed_def release_claim_def app_ports interleaved_def alone_submit_def
    submit_env.select_convs Store.select_convs fst_conv snd_conv id_apply by (rule refl)

lemma settle_alone:
  "Service_RecordSettlement (app_NewService l c (interleaved S)) (alone_settle e) w cb =
   Service_RecordSettlement (app_NewService l c S) e w cb"
  unfolding Service_RecordSettlement_def settle_current_def app_ports interleaved_def alone_settle_def
    settle_env.select_convs Store.select_convs fst_conv snd_conv id_apply by (rule refl)

lemma callers_alone [simp]: "callers_ok (id, e)"
  by (simp add: callers_ok_def ims.rely_refl)

lemma alone_ok [simp]: "create_callers_ok (alone_create e)" "submit_callers_ok (alone_submit e')"
  by (simp_all add: create_callers_ok_def submit_callers_ok_def alone_create_def alone_submit_def)

definition demo_cfg :: Config where
  "demo_cfg = \<lparr> cfg_Addr = '':8080'', cfg_Environment = ''development'', cfg_APIKeys = dev_keys,
     cfg_StoreDriver = ''memory'', cfg_DatabaseURL = '''', cfg_PostgresMinConns = 0,
     cfg_PostgresMaxConns = 10, cfg_PostgresMaxConnLifetime = 30 * minute, cfg_TenantBucketSize = 120,
     cfg_DictBucketSize = 60, cfg_DictTimeout = 300 * millisecond, cfg_WorkerBatchSize = 100,
     cfg_WorkerInterval = second, cfg_ProviderCallbackSecret = ''dev-provider-callback-secret'',
     cfg_ProviderSignatureTolerance = 5 * minute, cfg_PprofAddr = '''',
     cfg_ShutdownTimeout = 5 * second, cfg_RequireConfiguredSecrets = False,
     cfg_TracingExporter = ''stdout'' \<rparr>"

definition demo_request :: "string \<Rightarrow> CreateTransferRequest" where
  "demo_request key = \<lparr> req_TenantID = ''tenant_demo'', req_AccountID = ''acct_1'', req_IdempotencyKey = ''k1'',
     req_CorrelationID = ''c1'', req_AmountCents = 1000, req_Currency = ''BRL'', req_ReceiverKey = key,
     req_ReceiverKeyType = KeyEmail, req_Description = '''', req_RequestedAt = 1 \<rparr>"

definition demo_ports :: app_env where
  "demo_ports = \<lparr> ax_tenant_now = 2, ax_dict_now = 2, ax_dict = \<lparr> dx_latency = (\<lambda>_. None), dx_timeout = (\<lambda>_. None), dx_now = 2 \<rparr>,
     ax_spi_now = 3 \<rparr>"

definition demo_create :: "(mem_env, app_env) create_env" where
  "demo_create = \<lparr> ce_requested = 1, ce_find = demo_env, ce_ports = demo_ports, ce_now = 2, ce_id = RandFailed 7,
     ce_events = (\<lambda>n. (RandFailed 8, 2)), ce_insert = demo_env, ce_refind = demo_env \<rparr>"

definition demo_submit :: "(mem_env, app_env) submit_env" where
  "demo_submit = \<lparr> se_token = RandFailed 9, se_now = 3, se_claim = demo_env, se_ports = demo_ports,
     se_events = (\<lambda>n. (RandFailed 10, 3)), se_record = demo_env, se_release = demo_env, se_release_now = 4 \<rparr>"

definition demo_settle :: "mem_env settle_env" where
  "demo_settle = \<lparr> te_now = 5, te_corr = RandFailed 11, te_get = demo_env, te_id = RandFailed 12, te_update = demo_env \<rparr>"

definition demo_world :: "(MemoryStore, Limiter, unit) world" where
  "demo_world = app_world demo_cfg NewMemoryStore"

lemma demo_payable: "payable id demo_create demo_world (demo_request ''ana@example.com'')"
  by code_simp

lemma demo_risky:
  "admissible id demo_create demo_world (demo_request ''mule@example.com'') \<and>
   risky_key (normalized_key id (req_ReceiverKey (demo_request ''mule@example.com'')))"
  by code_simp


lemma demo_reach: "mem_run NewMemoryStore [] (w_store demo_world)"
  by (simp add: demo_world_def app_world_def mem_run.stop)

definition demo_paid :: SettlementCallback where
  "demo_paid = \<lparr> cb_TenantID = ''tenant_demo'', cb_TransferID = ''pxt_7'', cb_SPIMessageID = '''',
     cb_Status = SettlementAccepted, cb_Code = ''ACSC'', cb_CallbackHash = '''', cb_CorrelationID = ''corr_1'',
     cb_ReceivedAt = 9 \<rparr>"

lemma demo_payment_inputs:
  "me_ctx (se_claim demo_submit) = None" "me_ctx (se_record demo_submit) = None"
  "time_After (time_Add (se_now demo_submit) spiClaimTTL) (me_now (se_claim demo_submit))"
  "ms_callbacks (w_store demo_world) k = None"
  "cb_TenantID demo_paid = strings_TrimSpace (req_TenantID (demo_request ''ana@example.com''))"
  "cb_TransferID demo_paid = newID ''pxt'' (ce_id demo_create)" "cb_Status demo_paid = SettlementAccepted"
  "ms_events (w_store demo_world) = []"
proof -
  show "ms_callbacks (w_store demo_world) k = None"
    "ms_events (w_store demo_world) = []"
    by (simp_all add: demo_world_def app_world_def NewMemoryStore_def)
qed code_simp+

theorem payment_goes_through_witness:
  "\<exists>r1 w1 r2 w2 r3 w3. Service_CreateTransfer (app_NewService id demo_cfg memory_store) demo_create demo_world
       (demo_request ''ana@example.com'') = (Inr r1, w1) \<and> t_Status (res_Transfer r1) = StatusAccepted \<and>
     Service_SubmitToSPI (app_NewService id demo_cfg memory_store) demo_submit w1
       (t_TenantID (res_Transfer r1)) (t_ID (res_Transfer r1)) '''' = (Inr r2, w2) \<and>
     t_Status (res_Transfer r2) = StatusApproved \<and>
     Service_RecordSettlement (app_NewService id demo_cfg memory_store) demo_settle w2
       (demo_paid\<lparr> cb_SPIMessageID := t_SPIMessageID (res_Transfer r2) \<rparr>) = (Inr r3, w3) \<and>
     t_Status (res_Transfer r3) = StatusSettled \<and>
     map (ev_EventType \<circ> ob_Event) (ms_events (w_store w3)) =
       map (ev_EventType \<circ> ob_Event) (ms_events (w_store demo_world)) @
       [''pix_transfer_requested'', ''dict_key_resolved'', ''fraud_score_calculated'', ''pix_transfer_accepted'',
        ''spi_submission_requested'', ''spi_message_created'', ''pix_transfer_approved'', ''pix_transfer_settled'']"
  by (rule payment_goes_through [OF refl demo_payable demo_payment_inputs(1-7)])

text \<open>The sample request is created, and a repetition of it is answered with a replay.\<close>

lemma demo_created:
  obtains res w1 where
    "Service_CreateTransfer (app_NewService id demo_cfg memory_store) demo_create demo_world (demo_request ''ana@example.com'') = (Inr res, w1)"
    "\<not> res_IdempotentReplay res" "t_ID (res_Transfer res) = ''pxt_7''" "t_TenantID (res_Transfer res) = ''tenant_demo''"
    "t_Status (res_Transfer res) = StatusAccepted" "Transfer_new (res_Transfer res)"
    "ms_transfers (w_store w1) ''pxt_7'' = Some (res_Transfer res)"
proof -
  have adm: "admissible id demo_create demo_world (demo_request ''ana@example.com'')"
    using demo_payable by (simp add: payable_def)
  have ids: "newID ''pxt'' (ce_id demo_create) = ''pxt_7''"
    "strings_TrimSpace (req_TenantID (demo_request ''ana@example.com'')) = ''tenant_demo''"
    by code_simp+
  from adm show ?thesis
  proof (rule app_creates [where cfg = demo_cfg], goal_cases)
    case (1 res w1 t de dc)
    have acc: "t_Status t = StatusAccepted"
      using risk_accepted [OF 1(4,5)] demo_payable 1(6) by (simp add: payable_def)
    have id: "t_ID t = ''pxt_7''" "t_TenantID t = ''tenant_demo''" using 1(8,9) ids by simp_all
    show ?case
      by (rule that [OF 1(1,3)], unfold 1(2)) (simp_all add: acc id 1(7,10))
  qed
qed

lemma create_replays:
  assumes "CreateTransferRequest_Validate (normalize_request (ce_requested e) request) = None"
    and "view_idempotent (mem_view (w_store w)) (strings_TrimSpace (req_TenantID request))
      (strings_TrimSpace (req_IdempotencyKey request)) t"
    and "t_RequestHash t = CreateTransferRequest_Fingerprint (normalize_request (ce_requested e) request)"
    and "mem_inv (w_store w)" "me_ctx (ce_find e) = None" "svc_store sv = memory_store"
  shows "Service_CreateTransfer sv e w request =
    (Inr \<lparr> res_Transfer = t, res_IdempotentReplay = True, res_Events = [] \<rparr>, w)"
proof -
  have "ms_transfers (w_store w) (t_ID t) = Some t" "t_TenantID t = strings_TrimSpace (req_TenantID request)"
    "t_IdempotencyKey t = strings_TrimSpace (req_IdempotencyKey request)"
    using assms(2) by (auto simp: view_idempotent_def)
  with mem_inv_idem [OF assms(4), of "t_ID t" t] assms(5)
  have "MemoryStore_FindByIdempotency (ce_find e) (w_store w) (strings_TrimSpace (req_TenantID request))
      (strings_TrimSpace (req_IdempotencyKey request)) = Inr (Some t)"
    by (simp add: MemoryStore_FindByIdempotency_def MemoryStore_Health_def)
  with assms show ?thesis
    by (simp add: Service_CreateTransfer_def memory_store_def replay_existing_def Let_def)
qed


lemma demo_valid:
  "CreateTransferRequest_Validate (normalize_request (ce_requested demo_create) (demo_request ''ana@example.com'')) = None"
  "CHR '':'' \<notin> set (strings_TrimSpace (req_TenantID (demo_request ''ana@example.com'')))"
  "me_ctx (ce_find demo_create) = None"
  by code_simp+

theorem create_is_atomic_witness:
  "\<exists>res w1. Service_CreateTransfer (app_NewService id demo_cfg memory_store) demo_create demo_world
      (demo_request ''ana@example.com'') = (Inr res, w1) \<and> t_AmountCents (res_Transfer res) = 1000 \<and>
     map ev_EventType (res_Events res) = decision_event_types StatusAccepted"
proof -
  obtain res w1 where call: "Service_CreateTransfer (app_NewService id demo_cfg memory_store) demo_create demo_world
      (demo_request ''ana@example.com'') = (Inr res, w1)"
    and new: "\<not> res_IdempotentReplay res" "t_Status (res_Transfer res) = StatusAccepted"
    by (rule demo_created) simp
  show ?thesis
    using create_is_atomic [OF _ demo_reach demo_valid(2) call] new call
    by (simp add: Let_def demo_request_def)
qed

theorem create_is_idempotent_witness:
  "\<exists>res1 w1 res2 w2.
     Service_CreateTransfer (app_NewService id demo_cfg (interleaved memory_store)) (alone_create demo_create) demo_world
       (demo_request ''ana@example.com'') = (Inr res1, w1) \<and> \<not> res_IdempotentReplay res1 \<and>
     Service_CreateTransfer (app_NewService id demo_cfg (interleaved memory_store)) (alone_create demo_create) w1
       (demo_request ''ana@example.com'') = (Inr res2, w2) \<and>
     Transfer_identity (res_Transfer res2) = Transfer_identity (res_Transfer res1) \<and> res_IdempotentReplay res2"
proof -
  let ?app = "app_NewService id demo_cfg memory_store" and ?r = "demo_request ''ana@example.com''"
  let ?iapp = "app_NewService id demo_cfg (interleaved memory_store)"
  have store: "svc_store ?iapp = interleaved memory_store" by simp
  obtain res1 w1 where c1: "Service_CreateTransfer ?app demo_create demo_world ?r = (Inr res1, w1)"
    and new: "\<not> res_IdempotentReplay res1"
    by (rule demo_created) simp
  have inv: "mem_inv (w_store demo_world)" using demo_reach by (rule mem_reachable)
  have app: "svc_store ?app = memory_store" by simp
  note out = ms.CreateTransfer_outcome [OF app ms_env_oks(1) inv demo_valid(2) c1]
  have inv1: "mem_inv (w_store w1)" using out inv ms.rely_inv by blast
  have hash: "t_RequestHash (res_Transfer res1) = CreateTransferRequest_Fingerprint (normalize_request (ce_requested demo_create) ?r)"
    using ms.created_hash [OF app ms_env_oks(1) inv demo_valid(2) c1] new by simp
  have c2: "Service_CreateTransfer ?app demo_create w1 ?r =
      (Inr \<lparr> res_Transfer = res_Transfer res1, res_IdempotentReplay = True, res_Events = [] \<rparr>, w1)"
    by (rule create_replays [OF demo_valid(1) ms.created_idempotent [OF app ms_env_oks(1) inv demo_valid(2) c1]
          hash inv1 demo_valid(3) app])
  have calls: "Service_CreateTransfer ?iapp (alone_create demo_create) demo_world ?r = (Inr res1, w1)"
    "Service_CreateTransfer ?iapp (alone_create demo_create) w1 ?r =
      (Inr \<lparr> res_Transfer = res_Transfer res1, res_IdempotentReplay = True, res_Events = [] \<rparr>, w1)"
    using c1 c2 by (simp_all only: create_alone)
  from create_is_idempotent [OF store store alone_ok(1) alone_ok(1) demo_reach refl demo_valid(2) refl calls(1) mem_run.stop calls(2)]
  show ?thesis using calls new by blast
qed

theorem network_only_under_claim_witness:
  "\<exists>res w1 w2. Service_SubmitToSPI (app_NewService id demo_cfg (interleaved memory_store)) (alone_submit demo_submit) w1
       ''tenant_demo'' ''pxt_7'' '''' = (Inr res, w2) \<and> t_Status (res_Transfer res) = StatusApproved \<and>
     map ev_EventType (res_Events res) = [''spi_message_created'', ''pix_transfer_approved'']"
proof -
  let ?app = "app_NewService id demo_cfg memory_store" and ?iapp = "app_NewService id demo_cfg (interleaved memory_store)"
  obtain r1 w1 where c1: "Service_CreateTransfer ?app demo_create demo_world (demo_request ''ana@example.com'') = (Inr r1, w1)"
    and t: "t_ID (res_Transfer r1) = ''pxt_7''" "t_TenantID (res_Transfer r1) = ''tenant_demo''"
      "t_Status (res_Transfer r1) = StatusAccepted" "Transfer_new (res_Transfer r1)"
      "ms_transfers (w_store w1) ''pxt_7'' = Some (res_Transfer r1)"
    by (rule demo_created) simp
  have app: "svc_store ?app = memory_store" "svc_store ?iapp = interleaved memory_store" by simp_all
  have "mem_rely (w_store demo_world) (w_store w1)"
    using ms.CreateTransfer_outcome [OF app(1) ms_env_oks(1) mem_reachable [OF demo_reach] demo_valid(2) c1] by blast
  then obtain ls where reach: "mem_run NewMemoryStore ls (w_store w1)"
    by (auto simp: mem_rely_def demo_world_def app_world_def)
  have ids: "visible ''pxt_7''" "''pxt_7'' \<noteq> ''''" "strings_TrimSpace ''tenant_demo'' = ''tenant_demo''" "''tenant_demo'' \<noteq> ''''"
    by code_simp+
  obtain r2 w2 where c2: "Service_SubmitToSPI ?app demo_submit w1 ''tenant_demo'' ''pxt_7'' '''' = (Inr r2, w2)"
    and new: "\<not> res_IdempotentReplay r2"
    by (rule app_submits [OF t(5,1,2,4,3) ids demo_payment_inputs(1-3)]) (rule that)
  have call: "Service_SubmitToSPI ?iapp (alone_submit demo_submit) w1 ''tenant_demo'' ''pxt_7'' '''' = (Inr r2, w2)"
    using c2 by (simp only: submit_alone)
  from network_only_under_claim [OF app(2) alone_ok(2) reach call] new
  have "t_Status (res_Transfer r2) = StatusApproved"
    "map ev_EventType (res_Events r2) = [''spi_message_created'', ''pix_transfer_approved'']"
    by simp_all
  with call show ?thesis
    by (intro exI [of _ r2] exI [of _ w1] exI [of _ w2]) simp
qed

theorem risky_never_submitted_witness:
  "\<exists>res w1. Service_CreateTransfer (app_NewService id demo_cfg (interleaved memory_store)) (alone_create demo_create) demo_world
       (demo_request ''mule@example.com'') = (Inr res, w1) \<and> t_Status (res_Transfer res) = StatusBlocked \<and>
     (\<exists>err. fst (Service_SubmitToSPI (app_NewService id demo_cfg (interleaved memory_store)) (alone_submit demo_submit) w1
        ''tenant_demo'' (t_ID (res_Transfer res)) '''') = Inl err)"
proof -
  let ?iapp = "app_NewService id demo_cfg (interleaved memory_store)"
  have adm: "admissible id demo_create demo_world (demo_request ''mule@example.com'')"
    and risky: "risky_key (normalized_key id (req_ReceiverKey (demo_request ''mule@example.com'')))"
    using demo_risky by simp_all
  have tn: "CHR '':'' \<notin> set (strings_TrimSpace (req_TenantID (demo_request ''mule@example.com'')))"
    "strings_TrimSpace (newID ''pxt'' (ce_id demo_create)) = newID ''pxt'' (ce_id demo_create)"
    by code_simp+
  obtain res w1 where c: "Service_CreateTransfer (app_NewService id demo_cfg memory_store) demo_create demo_world
      (demo_request ''mule@example.com'') = (Inr res, w1)" "\<not> res_IdempotentReplay res"
    "t_ID (res_Transfer res) = newID ''pxt'' (ce_id demo_create)"
    by (rule app_creates [OF adm, where cfg = demo_cfg]) (rule that, assumption, assumption, metis)
  have call: "Service_CreateTransfer ?iapp (alone_create demo_create) demo_world (demo_request ''mule@example.com'') = (Inr res, w1)"
    using c(1) by (simp only: create_alone)
  have ok: "callers_ok (se_claim (alone_submit demo_submit))" by (simp add: alone_submit_def)
  have store: "svc_store ?iapp = interleaved memory_store" by simp
  have id: "strings_TrimSpace (t_ID (res_Transfer res)) = t_ID (res_Transfer res)" using tn(2) c(3) by simp
  from risky_never_submitted [OF alone_ok(1) ok demo_reach tn(1) risky call c(2) mem_run.stop store prod.collapse [symmetric] id]
  show ?thesis using call by blast
qed

lemma settle_replays:
  assumes "ms_transfers (w_store w) (cb_TransferID cb) = Some u" "t_TenantID u = cb_TenantID cb" "t_SPIMessageID u = cb_SPIMessageID cb"
    and "cb_TenantID cb \<noteq> ''''" "cb_TransferID cb \<noteq> ''''" "cb_SPIMessageID cb \<noteq> ''''"
    and "cb_CallbackHash cb \<noteq> ''''" "cb_Status cb = SettlementAccepted"
    and "ms_callbacks (w_store w) (cb_TenantID cb @ '':'' @ cb_SPIMessageID cb) = Some (cb_CallbackHash cb)"
    and "svc_store sv = memory_store"
  shows "Service_RecordSettlement sv e w cb = (Inr \<lparr> res_Transfer = u, res_IdempotentReplay = True, res_Events = [] \<rparr>, w)"
proof -
  let ?cb = "normalize_callback (te_now e) (te_corr e) cb"
  have st: "cb_Status ?cb = SettlementAccepted" using assms(8) by (simp add: normalize_callback_def Let_def)
  obtain ev where "events_New (newID ''evt'' (te_id e)) ''pix_transfer_settled'' (t_TenantID u) (t_AccountID u) (t_ID u)
      (cb_CorrelationID ?cb) (cb_ReceivedAt ?cb)
      [(''spi_message_id'', JString (cb_SPIMessageID ?cb)), (''status'', JString SettlementAccepted), (''code'', JString (cb_Code ?cb))] = Inr ev"
    by (rule events_New_Inr) auto
  with assms st show ?thesis
    by (simp add: Service_RecordSettlement_def settle_current_def settlement_event_type_def memory_store_def
        MemoryStore_GetTransfer_def MemoryStore_UpdateSettlement_def own_transfer_def Let_def)
qed

definition demo_approved_world :: "(MemoryStore, Limiter, unit) world" where
  "demo_approved_world = demo_world\<lparr> w_store := demo_mem_approved \<rparr>"

theorem settle_is_idempotent_witness:
  "\<exists>res1 w1 res2 w2.
     Service_RecordSettlement (app_NewService id demo_cfg (interleaved memory_store)) (alone_settle demo_settle)
       demo_approved_world demo_cb = (Inr res1, w1) \<and> t_Status (res_Transfer res1) = StatusSettled \<and>
     Service_RecordSettlement (app_NewService id demo_cfg (interleaved memory_store)) (alone_settle demo_settle)
       w1 demo_cb = (Inr res2, w2) \<and> res_IdempotentReplay res2 \<and> res_Events res2 = []"
proof -
  let ?app = "app_NewService id demo_cfg memory_store" and ?iapp = "app_NewService id demo_cfg (interleaved memory_store)"
  have cb: "cb_TenantID demo_cb = ''tenant_a''" "cb_TransferID demo_cb = ''pxt_1''" "cb_SPIMessageID demo_cb = ''spi_1''"
      "cb_Status demo_cb = SettlementAccepted" "cb_CallbackHash demo_cb = ''hash''"
    by (simp_all add: demo_cb_def demo_callback_def)
  have u: "ms_transfers (w_store demo_approved_world) ''pxt_1'' = Some demo_approved"
      "ms_callbacks (w_store demo_approved_world) (''tenant_a'' @ '':'' @ ''spi_1'') = None"
      "t_ID demo_approved = ''pxt_1''" "t_TenantID demo_approved = ''tenant_a''" "t_Status demo_approved = StatusApproved"
      "t_SPIMessageID demo_approved = ''spi_1''"
    by (simp_all add: demo_approved_world_def demo_mem_approved_def demo_mem_claimed_def demo_inserted_def put_transfer_def
        MemoryStore_InsertTransfer_def NewMemoryStore_def append_audit_def Let_def demo_approved_def)
  obtain res1 w1 where c1: "Service_RecordSettlement ?app demo_settle demo_approved_world demo_cb = (Inr res1, w1)"
    and v: "t_Status (res_Transfer res1) = StatusSettled" "ms_transfers (w_store w1) ''pxt_1'' = Some (res_Transfer res1)"
      "t_SPIMessageID (res_Transfer res1) = ''spi_1''" "t_TenantID (res_Transfer res1) = ''tenant_a''"
    by (rule app_settles [OF u(1,3,4,5,6) _ _ _ u(2) cb(1-4), of id demo_cfg demo_settle]) (simp_all add: that)
  have reach: "mem_run NewMemoryStore [Inserted ''pxt_1'', Tau, Approved ''pxt_1''] (w_store demo_approved_world)"
    using demo_mem_runs(5) by (simp add: demo_approved_world_def)
  have app: "svc_store ?app = memory_store" "svc_store ?iapp = interleaved memory_store" by simp_all
  note out = ms.RecordSettlement_outcome [OF app(1) TrueI TrueI mem_reachable [OF reach] c1]
  have filed: "ms_callbacks (w_store w1) (''tenant_a'' @ '':'' @ ''spi_1'') = Some ''hash''"
    using out by (simp add: cb)
  have c2: "Service_RecordSettlement ?app demo_settle w1 demo_cb =
      (Inr \<lparr> res_Transfer = res_Transfer res1, res_IdempotentReplay = True, res_Events = [] \<rparr>, w1)"
    by (rule settle_replays) (simp_all add: cb v filed [simplified])
  have calls: "Service_RecordSettlement ?iapp (alone_settle demo_settle) demo_approved_world demo_cb = (Inr res1, w1)"
    "Service_RecordSettlement ?iapp (alone_settle demo_settle) w1 demo_cb =
      (Inr \<lparr> res_Transfer = res_Transfer res1, res_IdempotentReplay = True, res_Events = [] \<rparr>, w1)"
    using c1 c2 by (simp_all only: settle_alone)
  have ok: "callers_ok (te_get (alone_settle demo_settle))" "callers_ok (te_update (alone_settle demo_settle))"
    by (simp_all add: alone_settle_def)
  from settle_is_idempotent [OF app(2) app(2) ok ok reach refl refl calls(1) mem_run.stop calls(2)]
  show ?thesis using calls v(1) by blast
qed


lemma review_approves:
  assumes "ms_transfers (w_store w) (strings_TrimSpace (rv_TransferID req)) = Some t"
    and "t_TenantID t = strings_TrimSpace (rv_TenantID req)" "t_Status t = StatusReview" "rv_Decision req = ReviewApprove"
    and "strings_TrimSpace (rv_TransferID req) \<noteq> ''''" "strings_TrimSpace (rv_TenantID req) \<noteq> ''''"
    and "svc_store sv = memory_store"
  obtains res w1 where "Service_RecordReview sv e w req = (Inr res, w1)"
proof -
  define r1 where "r1 = normalize_review (re_now e) req"
  define r2 where "r2 = (if rv_CorrelationID r1 = '''' then r1\<lparr> rv_CorrelationID := t_CorrelationID t \<rparr> else r1)"
  have r1: "rv_TenantID r1 = strings_TrimSpace (rv_TenantID req)" "rv_TransferID r1 = strings_TrimSpace (rv_TransferID req)"
      "rv_Decision r1 = ReviewApprove"
    using assms(4) by (simp_all add: r1_def normalize_review_def Let_def)
  have r2: "rv_TenantID r2 = rv_TenantID r1" "rv_TransferID r2 = rv_TransferID r1" "rv_Decision r2 = rv_Decision r1"
    by (simp_all add: r2_def)
  obtain ety reason where out: "review_outcome r2 = Inr (StatusAccepted, ety, reason)"
    using r1 r2 by (simp add: review_outcome_def ReviewApprove_def ReviewBlock_def)
  obtain evs where evs: "add_all_events (\<lambda>n. (re_ids e n, rv_ReviewedAt r2)) 0 t (rv_CorrelationID r2)
      (review_events t r2 StatusAccepted ety reason) = Inr evs"
    using add_all_events_encodable [OF switch_events_encodable(3)] by blast
  have "decide_review sv e w r1 t = (Inr u, w1) \<Longrightarrow> thesis" for u w1
    using assms r1 that
    by (simp add: Service_RecordReview_def memory_store_def MemoryStore_GetTransfer_def own_transfer_def Let_def flip: r1_def)
  moreover have "\<exists>u w1. decide_review sv e w r1 t = (Inr u, w1)"
    using assms r1 r2 out evs
    by (simp add: decide_review_def memory_store_def MemoryStore_RecordReviewDecision_def own_transfer_def
        Transfer_RecordReviewDecision_def Let_def flip: r2_def)
  ultimately show ?thesis by blast
qed

definition demo_review :: Transfer where
  "demo_review = demo_transfer\<lparr> t_Status := StatusReview \<rparr>"

definition demo_review_world :: "(MemoryStore, Limiter, unit) world" where
  "demo_review_world = demo_world\<lparr> w_store := snd (MemoryStore_InsertTransfer demo_env NewMemoryStore demo_review [demo_event] []) \<rparr>"

definition demo_decision :: ReviewDecisionRequest where
  "demo_decision = \<lparr> rv_TenantID = ''tenant_a'', rv_TransferID = ''pxt_1'', rv_Decision = ReviewApprove, rv_Reason = '''',
     rv_CorrelationID = '''', rv_ReviewedAt = 4 \<rparr>"

definition demo_review_env :: "mem_env review_env" where
  "demo_review_env = \<lparr> re_now = 4, re_get = demo_env, re_ids = (\<lambda>n. RandFailed 13), re_record = demo_env \<rparr>"

lemma demo_review_reach: "mem_run NewMemoryStore ([] @ [Inserted ''pxt_1'']) (w_store demo_review_world)"
proof (rule mem_run.step [OF mem_run.stop])
  have ins: "MemoryStore_InsertTransfer demo_env NewMemoryStore demo_review [demo_event] [] = (None, w_store demo_review_world)"
    by (simp add: demo_review_world_def MemoryStore_InsertTransfer_def NewMemoryStore_def Let_def)
  show "mem_step NewMemoryStore (Inserted ''pxt_1'') (w_store demo_review_world)"
    using mem_step.insert [OF _ _ ins] by (simp add: demo_review_def Transfer_new_def demo_transfer_def)
qed

theorem review_is_atomic_witness:
  "\<exists>res w1. Service_RecordReview (app_NewService id demo_cfg memory_store) demo_review_env demo_review_world demo_decision =
      (Inr res, w1) \<and> t_Status (res_Transfer res) = StatusAccepted \<and>
    map ev_EventType (res_Events res) = [''pix_transfer_review_approved'', ''spi_submission_requested'']"
proof -
  let ?call = "Service_RecordReview (app_NewService id demo_cfg memory_store) demo_review_env demo_review_world demo_decision"
  have ids: "strings_TrimSpace ''tenant_a'' = ''tenant_a''" "strings_TrimSpace ''pxt_1'' = ''pxt_1''" by code_simp+
  have t: "ms_transfers (w_store demo_review_world) ''pxt_1'' = Some demo_review"
    by (simp add: demo_review_world_def MemoryStore_InsertTransfer_def NewMemoryStore_def Let_def put_transfer_def
        append_audit_def demo_review_def)
  have store: "svc_store (app_NewService id demo_cfg memory_store) = memory_store" by simp
  obtain res w1 where call: "?call = (Inr res, w1)"
    by (rule review_approves [of demo_review_world demo_decision demo_review, OF _ _ _ _ _ _ store])
      (simp_all add: ids t demo_decision_def demo_review_def)
  have dec: "rv_Decision demo_decision = ReviewApprove" "ReviewApprove \<noteq> ReviewBlock"
    by (simp_all add: demo_decision_def ReviewApprove_def ReviewBlock_def)
  from review_is_atomic [OF _ demo_review_reach call] dec
  have "t_Status (res_Transfer res) = StatusAccepted \<and>
      map ev_EventType (res_Events res) = [''pix_transfer_review_approved'', ''spi_submission_requested'']"
    by auto
  with call show ?thesis by (intro exI [of _ res] exI [of _ w1]) simp
qed

theorem submit_refused_while_claimed_witness:
  "\<exists>err. errors_Is err ErrConflict \<and>
     Service_SubmitToSPI (app_NewService id demo_cfg (interleaved memory_store)) (alone_submit demo_submit)
       (demo_world\<lparr> w_store := demo_mem_claimed \<rparr>) ''tenant_a'' ''pxt_1'' '''' =
     (Inl err, demo_world\<lparr> w_store := demo_mem_claimed \<rparr>)"
proof -
  have ids: "strings_TrimSpace ''tenant_a'' = ''tenant_a''" "strings_TrimSpace ''pxt_1'' = ''pxt_1''" by code_simp+
  let ?e = "alone_submit demo_submit :: ((MemoryStore \<Rightarrow> MemoryStore) \<times> mem_env, app_env) submit_env"
  have e: "fst (se_claim ?e) = id" "snd (se_claim ?e) = demo_env" "se_now ?e = 3"
    by (simp_all add: alone_submit_def demo_submit_def)
  have t: "ms_transfers demo_mem_claimed ''pxt_1'' = Some demo_claimed"
    by (simp add: demo_mem_claimed_def put_transfer_def)
  show ?thesis
    using submit_refused_while_claimed [of "app_NewService id demo_cfg (interleaved memory_store)" "''tenant_a''" "''pxt_1''"
        ?e "demo_world\<lparr> w_store := demo_mem_claimed \<rparr>" demo_claimed 30 "''''"] e ids t
    by (simp add: demo_claimed_def demo_transfer_def demo_env_def time_After_def time_Add_def spiClaimTTL_def second_def)
qed

theorem batch_counts_witness:
  "0 \<le> br_Submitted (fst (fst (Service_SubmitPendingSPI (app_NewService id demo_cfg (interleaved memory_store)) (id, demo_env)
     (\<lambda>_. alone_submit demo_submit) (demo_world\<lparr> w_store := demo_inserted \<rparr>) 5)))"
proof -
  have store: "svc_store (app_NewService id demo_cfg (interleaved memory_store)) = interleaved memory_store" by simp
  obtain res err w' where "Service_SubmitPendingSPI (app_NewService id demo_cfg (interleaved memory_store)) (id, demo_env)
     (\<lambda>_. alone_submit demo_submit) (demo_world\<lparr> w_store := demo_inserted \<rparr>) 5 = ((res, err), w')"
    by (metis prod.collapse)
  from batch_counts [OF store this] this show ?thesis by simp
qed

theorem risk_policy_witness:
  "\<exists>de d. StaticResolver_Resolve id (app_resolver demo_cfg) (ax_dict demo_ports) ''t'' ''mule@x'' KeyEmail = Inr de \<and>
     RulesEngine_Score (demo_request ''mule@x'') de = Inr d \<and> fd_Status d = StatusBlocked"
proof -
  have key: "\<not> unresolvable_key (normalized_key id ''mule@x'')" "risky_key (normalized_key id ''mule@x'')"
    by code_simp+
  obtain de where de: "StaticResolver_Resolve id (app_resolver demo_cfg) (ax_dict demo_ports) ''t'' ''mule@x'' KeyEmail = Inr de"
    using key(1) by (simp add: Resolve_iff)
  obtain d where d: "RulesEngine_Score (demo_request ''mule@x'') de = Inr d" using Score_total by blast
  from risk_policy [OF de d] key(2) de d show ?thesis by auto
qed

end
