(* ===== verification/Metrics.thy ===== *)
theory Metrics
  imports Go_Prelude "HOL-Library.AList" "HOL-Library.Char_ord" "HOL-Library.List_Lexorder"
begin

text \<open>
  The process metrics, \<open>internal/observability/metrics.go\<close>.  Every method holds the mutex, so each
  is one step.  A map is an association list with one entry for each key.  The type \<open>'f\<close> is
  \<open>float64\<close>; its addition, the conversion of a duration and the format \<open>%.6f\<close> are parameters.  The
  index of a percentile is computed as the hardware does: the exact product of the two doubles,
  rounded to 53 bits, half to even, and then cut to an integer.
\<close>

section \<open>Observations\<close>

type_synonym counters = "(string \<times> int) list"

record 'f Metrics =
  mt_requests :: counters
  mt_latency :: "(string \<times> 'f list) list"
  mt_decisions :: counters
  mt_events :: counters
  mt_started :: gotime

definition maxLatencySamplesPerRoute :: nat where
  "maxLatencySamplesPerRoute = 1024"

definition NewMetrics :: "gotime \<Rightarrow> 'f Metrics" where
  "NewMetrics now = \<lparr> mt_requests = [], mt_latency = [], mt_decisions = [], mt_events = [], mt_started = now \<rparr>"

definition counter :: "counters \<Rightarrow> string \<Rightarrow> int" where
  "counter m key = (case map_of m key of None \<Rightarrow> 0 | Some v \<Rightarrow> v)"

definition count_up :: "string \<Rightarrow> int \<Rightarrow> counters \<Rightarrow> counters" where
  "count_up key n m = AList.update key (wrap64 (counter m key + n)) m"

definition samples_of :: "'f Metrics \<Rightarrow> string \<Rightarrow> 'f list" where
  "samples_of m key = (case map_of (mt_latency m) key of None \<Rightarrow> [] | Some xs \<Rightarrow> xs)"

definition request_key :: "string \<Rightarrow> string \<Rightarrow> int \<Rightarrow> string" where
  "request_key method route status =
     ''method='' @ [CHR 0x22] @ method @ [CHR 0x22] @ '',route='' @ [CHR 0x22] @ route @ [CHR 0x22] @
     '',status='' @ [CHR 0x22] @ show_int status @ [CHR 0x22]"

definition latency_key :: "string \<Rightarrow> string \<Rightarrow> string" where
  "latency_key method route =
     ''method='' @ [CHR 0x22] @ method @ [CHR 0x22] @ '',route='' @ [CHR 0x22] @ route @ [CHR 0x22]"

definition Metrics_ObserveRequest ::
    "(duration \<Rightarrow> 'f) \<Rightarrow> 'f Metrics \<Rightarrow> string \<Rightarrow> string \<Rightarrow> int \<Rightarrow> duration \<Rightarrow> 'f Metrics" where
  "Metrics_ObserveRequest seconds m method route status elapsed =
     (let m = m\<lparr> mt_requests := count_up (request_key method route status) 1 (mt_requests m) \<rparr>;
          latencyKey = latency_key method route;
          samples = samples_of m latencyKey @ [seconds elapsed];
          samples = (if length samples > maxLatencySamplesPerRoute
                     then drop (length samples - maxLatencySamplesPerRoute) samples else samples)
      in m\<lparr> mt_latency := AList.update latencyKey samples (mt_latency m) \<rparr>)"

definition Metrics_ObserveDecision :: "'f Metrics \<Rightarrow> string \<Rightarrow> 'f Metrics" where
  "Metrics_ObserveDecision m status = m\<lparr> mt_decisions := count_up status 1 (mt_decisions m) \<rparr>"

definition Metrics_ObserveEvents :: "'f Metrics \<Rightarrow> int \<Rightarrow> 'f Metrics" where
  "Metrics_ObserveEvents m count = m\<lparr> mt_events := count_up ''outbox_inserted'' count (mt_events m) \<rparr>"

section \<open>Percentiles\<close>

text \<open>The constants 0.50, 0.95 and 0.99 as doubles: a 53-bit integer over \<open>2 ^ 53\<close>.\<close>

datatype quantile = Q50 | Q95 | Q99

fun quantile_bits :: "quantile \<Rightarrow> int" where
  "quantile_bits Q50 = 4503599627370496"
| "quantile_bits Q95 = 8556839292003942"
| "quantile_bits Q99 = 8917127262193582"

fun quantile_percent :: "quantile \<Rightarrow> int" where
  "quantile_percent Q50 = 50"
| "quantile_percent Q95 = 95"
| "quantile_percent Q99 = 99"

text \<open>A positive integer rounded to 53 significant bits, half to even; \<open>ulp\<close> finds the last place.\<close>

function ulp :: "int \<Rightarrow> int" where
  "ulp n = (if n < 2 ^ 53 then 1 else 2 * ulp (n div 2))"
  by auto
termination
  by (relation "measure nat") auto

declare ulp.simps [simp del]

definition round53 :: "int \<Rightarrow> int" where
  "round53 n =
     (let u = ulp n; q = n div u; r = n mod u
      in if 2 * r > u \<or> 2 * r = u \<and> odd q then (q + 1) * u else q * u)"

definition percentile_index :: "nat \<Rightarrow> quantile \<Rightarrow> nat" where
  "percentile_index n q = nat (round53 (int n * quantile_bits q) div 2 ^ 53)"

definition percentile :: "'f \<Rightarrow> 'f list \<Rightarrow> quantile \<Rightarrow> 'f" where
  "percentile zero samples q =
     (if length samples = 0 then zero else samples ! percentile_index (length samples - 1) q)"

definition float_sum :: "('f \<Rightarrow> 'f \<Rightarrow> 'f) \<Rightarrow> 'f \<Rightarrow> 'f list \<Rightarrow> 'f" where
  "float_sum add zero samples = foldl add zero samples"

section \<open>The exposition\<close>

record 'f float_ops =
  fo_add :: "'f \<Rightarrow> 'f \<Rightarrow> 'f"
  fo_zero :: 'f
  fo_fixed6 :: "'f \<Rightarrow> string"

text \<open>What \<open>WritePrometheus\<close> reads of the runtime; the uptime is already formatted with \<open>%.0f\<close>.\<close>

record runtime_stats =
  rt_uptime :: "gotime \<Rightarrow> string"
  rt_gomaxprocs :: int
  rt_numcpu :: int
  rt_goroutines :: int
  rt_heap :: int

definition writeMetricHeader :: "string \<Rightarrow> string \<Rightarrow> string \<Rightarrow> string" where
  "writeMetricHeader name metricType help =
     ''# HELP '' @ name @ '' '' @ help @ [CHR 0x0A] @ ''# TYPE '' @ name @ '' '' @ metricType @ [CHR 0x0A]"

definition writeCounterMap :: "string \<Rightarrow> counters \<Rightarrow> string" where
  "writeCounterMap name values =
     concat (map (\<lambda>key. name @ ''{'' @ key @ ''} '' @ show_int (counter values key) @ [CHR 0x0A])
       (sort (map fst values)))"

definition summary_lines :: "'f float_ops \<Rightarrow> string \<Rightarrow> string \<Rightarrow> 'f list \<Rightarrow> string" where
  "summary_lines ops name key samples =
     (if length samples = 0 then ''''
      else
        name @ ''_count{'' @ key @ ''} '' @ show_int (int (length samples)) @ [CHR 0x0A] @
        name @ ''_sum{'' @ key @ ''} '' @ fo_fixed6 ops (float_sum (fo_add ops) (fo_zero ops) samples) @ [CHR 0x0A] @
        concat (map (\<lambda>(label, q).
          name @ ''{quantile='' @ [CHR 0x22] @ label @ [CHR 0x22] @ '','' @ key @ ''} '' @
          fo_fixed6 ops (percentile (fo_zero ops) samples q) @ [CHR 0x0A])
          [(''0.50'', Q50), (''0.95'', Q95), (''0.99'', Q99)]))"

definition writeSummaryMap :: "('f :: linorder) float_ops \<Rightarrow> string \<Rightarrow> (string \<times> 'f list) list \<Rightarrow> string" where
  "writeSummaryMap ops name values =
     concat (map (\<lambda>key. summary_lines ops name key (sort (case map_of values key of None \<Rightarrow> [] | Some xs \<Rightarrow> xs)))
       (sort (map fst values)))"

definition labelValues :: "counters \<Rightarrow> string \<Rightarrow> counters" where
  "labelValues values label = map (\<lambda>(key, v). (label @ ''='' @ [CHR 0x22] @ key @ [CHR 0x22], v)) values"

definition gauge :: "string \<Rightarrow> string \<Rightarrow> string \<Rightarrow> string" where
  "gauge name help v = writeMetricHeader name ''gauge'' help @ name @ '' '' @ v @ [CHR 0x0A]"

definition Metrics_WritePrometheus :: "('f :: linorder) float_ops \<Rightarrow> runtime_stats \<Rightarrow> 'f Metrics \<Rightarrow> string" where
  "Metrics_WritePrometheus ops rt m =
     gauge ''pixrail_uptime_seconds'' ''Seconds since the process started.'' (rt_uptime rt (mt_started m)) @
     gauge ''pixrail_runtime_gomaxprocs'' ''Current Go scheduler GOMAXPROCS value.'' (show_int (rt_gomaxprocs rt)) @
     gauge ''pixrail_runtime_num_cpu'' ''Logical CPUs visible to the Go runtime.'' (show_int (rt_numcpu rt)) @
     gauge ''pixrail_runtime_goroutines'' ''Current goroutine count.'' (show_int (rt_goroutines rt)) @
     gauge ''pixrail_runtime_heap_alloc_bytes'' ''Currently allocated heap bytes.'' (show_int (rt_heap rt)) @
     writeMetricHeader ''pixrail_http_requests_total'' ''counter'' ''HTTP requests by method, route, and status.'' @
     writeCounterMap ''pixrail_http_requests_total'' (mt_requests m) @
     writeMetricHeader ''pixrail_transfer_decisions_total'' ''counter'' ''Pix transfer decisions by status.'' @
     writeCounterMap ''pixrail_transfer_decisions_total'' (labelValues (mt_decisions m) ''status'') @
     writeMetricHeader ''pixrail_outbox_events_total'' ''counter'' ''Outbox events created by the switch.'' @
     writeCounterMap ''pixrail_outbox_events_total'' (labelValues (mt_events m) ''kind'') @
     writeMetricHeader ''pixrail_http_request_latency_seconds'' ''summary'' ''Observed HTTP request latency samples.'' @
     writeSummaryMap ops ''pixrail_http_request_latency_seconds'' (mt_latency m)"

section \<open>What the metrics say\<close>

datatype observation = Request string string int duration | Decision string | Written int

fun observe :: "(duration \<Rightarrow> 'f) \<Rightarrow> observation \<Rightarrow> 'f Metrics \<Rightarrow> 'f Metrics" where
  "observe seconds (Request method route status elapsed) m = Metrics_ObserveRequest seconds m method route status elapsed"
| "observe seconds (Decision status) m = Metrics_ObserveDecision m status"
| "observe seconds (Written n) m = Metrics_ObserveEvents m n"

definition observed :: "(duration \<Rightarrow> 'f) \<Rightarrow> gotime \<Rightarrow> observation list \<Rightarrow> 'f Metrics" where
  "observed seconds now os = foldl (\<lambda>m ob. observe seconds ob m) (NewMetrics now) os"

fun request_with :: "string \<Rightarrow> observation \<Rightarrow> bool" where
  "request_with key (Request method route status _) = (request_key method route status = key)"
| "request_with key _ = False"

fun written :: "observation \<Rightarrow> int" where
  "written (Written n) = n"
| "written _ = 0"

fun latencies :: "(duration \<Rightarrow> 'f) \<Rightarrow> string \<Rightarrow> observation \<Rightarrow> 'f list" where
  "latencies seconds key (Request method route _ elapsed) = (if latency_key method route = key then [seconds elapsed] else [])"
| "latencies seconds key _ = []"

definition last_samples :: "'f list \<Rightarrow> 'f list" where
  "last_samples xs = drop (length xs - maxLatencySamplesPerRoute) xs"

lemma counter_count_up: "counter (count_up key n m) key' = (if key = key' then wrap64 (counter m key + n) else counter m key')"
  by (simp add: counter_def count_up_def update_conv')

lemma wrap64_sum: "wrap64 (wrap64 a + b) = wrap64 (a + b)"
  by (simp add: wrap64_def signed_take_bit_eq_take_bit_shift) (simp add: take_bit_eq_mod mod_simps algebra_simps)

lemma last_samples_append: "last_samples (last_samples xs @ [x]) = last_samples (xs @ [x])"
proof (cases "length xs < 1024")
  case False
  then have "length xs - (length xs - 1024 + 1023) + (length xs - 1024) = length xs - 1023" by arith
  then show ?thesis by (simp add: last_samples_def maxLatencySamplesPerRoute_def)
qed (simp add: last_samples_def maxLatencySamplesPerRoute_def)

lemma samples_of_request:
  "samples_of (Metrics_ObserveRequest seconds m method route status elapsed) key =
     (if latency_key method route = key then last_samples (samples_of m key @ [seconds elapsed]) else samples_of m key)"
  by (auto simp: samples_of_def Metrics_ObserveRequest_def Let_def update_conv' last_samples_def)

lemma request_frame [simp]:
  "mt_requests (Metrics_ObserveRequest seconds m method route status elapsed) =
     count_up (request_key method route status) 1 (mt_requests m)"
  "mt_decisions (Metrics_ObserveRequest seconds m method route status elapsed) = mt_decisions m"
  "mt_events (Metrics_ObserveRequest seconds m method route status elapsed) = mt_events m"
  by (simp_all add: Metrics_ObserveRequest_def Let_def)

lemma observed_snoc: "observed seconds now (os @ [ob]) = observe seconds ob (observed seconds now os)"
  by (simp add: observed_def)

lemma observed_counters:
  "counter (mt_requests (observed seconds now os)) key = wrap64 (int (length (filter (request_with key) os)))"
  "counter (mt_decisions (observed seconds now os)) status = wrap64 (int (count_list os (Decision status)))"
  "counter (mt_events (observed seconds now os)) ''outbox_inserted'' = wrap64 (sum_list (map written os))"
proof (induction os rule: rev_induct)
  case Nil
  show "counter (mt_requests (observed seconds now [])) key = wrap64 (int (length (filter (request_with key) [])))"
    "counter (mt_decisions (observed seconds now [])) status = wrap64 (int (count_list [] (Decision status)))"
    "counter (mt_events (observed seconds now [])) ''outbox_inserted'' = wrap64 (sum_list (map written []))"
    by (simp_all add: observed_def NewMetrics_def counter_def wrap64_def)
next
  case (snoc ob os)
  show "counter (mt_requests (observed seconds now (os @ [ob]))) key = wrap64 (int (length (filter (request_with key) (os @ [ob]))))"
    using snoc(1) by (cases ob) (simp_all add: observed_snoc Metrics_ObserveDecision_def Metrics_ObserveEvents_def counter_count_up wrap64_sum)
  show "counter (mt_decisions (observed seconds now (os @ [ob]))) status = wrap64 (int (count_list (os @ [ob]) (Decision status)))"
    using snoc(2) by (cases ob) (simp_all add: observed_snoc Metrics_ObserveDecision_def Metrics_ObserveEvents_def counter_count_up wrap64_sum)
  show "counter (mt_events (observed seconds now (os @ [ob]))) ''outbox_inserted'' = wrap64 (sum_list (map written (os @ [ob])))"
    using snoc(3) by (cases ob) (simp_all add: observed_snoc Metrics_ObserveDecision_def Metrics_ObserveEvents_def counter_count_up wrap64_sum)
qed

lemma observed_samples:
  "samples_of (observed seconds now os) lkey = last_samples (concat (map (latencies seconds lkey) os))"
proof (induction os rule: rev_induct)
  case Nil
  show ?case by (simp add: observed_def NewMetrics_def samples_of_def last_samples_def)
next
  case (snoc ob os)
  then show ?case
  proof (cases ob)
    case (Request m r st elapsed)
    with snoc show ?thesis by (simp add: observed_snoc samples_of_request last_samples_append)
  qed (simp_all add: observed_snoc Metrics_ObserveDecision_def Metrics_ObserveEvents_def samples_of_def)
qed

text \<open>
  C34 (metrics).  After any sequence of observations, in whatever interleaving of requests: a
  request counter is the number of requests with its labels, a decision counter the number of
  decisions with its status, the event counter the sum of the written events, all modulo
  \<open>2 ^ 64\<close>; and the latencies kept for a route are exactly the last 1024 that were observed, so that
  the memory of a route is bounded.
\<close>

theorem metrics_account:
  "counter (mt_requests (observed seconds now os)) key = wrap64 (int (length (filter (request_with key) os))) \<and>
   counter (mt_decisions (observed seconds now os)) status = wrap64 (int (count_list os (Decision status))) \<and>
   counter (mt_events (observed seconds now os)) ''outbox_inserted'' = wrap64 (sum_list (map written os)) \<and>
   samples_of (observed seconds now os) lkey = last_samples (concat (map (latencies seconds lkey) os)) \<and>
   length (samples_of (observed seconds now os) lkey) \<le> 1024"
  by (simp add: observed_counters observed_samples last_samples_def maxLatencySamplesPerRoute_def)

text \<open>The last place is a power of two, and a rounded product is off by at most half of it.\<close>

lemma ulp_bounds: "0 \<le> n \<Longrightarrow> n < ulp n * 2 ^ 53 \<and> (2 ^ 53 \<le> n \<longrightarrow> ulp n * 2 ^ 52 \<le> n) \<and> 0 < ulp n"
proof (induction n rule: ulp.induct)
  case (1 n)
  show ?case
  proof (cases "n < 2 ^ 53")
    case True
    with 1(2) show ?thesis by (simp add: ulp.simps)
  next
    case False
    with 1 have "n div 2 < ulp (n div 2) * 2 ^ 53" "2 ^ 53 \<le> n div 2 \<longrightarrow> ulp (n div 2) * 2 ^ 52 \<le> n div 2" "0 < ulp (n div 2)"
      by auto
    moreover have "ulp (n div 2) = 1" if "\<not> 2 ^ 53 \<le> n div 2" using that by (simp add: ulp.simps)
    ultimately show ?thesis using False by (simp add: ulp.simps [of n]) linarith
  qed
qed

lemma ulp_dvd: "0 \<le> n \<Longrightarrow> n < 2 ^ 63 \<Longrightarrow> ulp n dvd 2 ^ 53 \<and> ulp n \<le> 2 ^ 11"
proof -
  have "\<exists>k. ulp n = 2 ^ k" by (induction n rule: ulp.induct) (metis power_0 power_Suc ulp.simps)
  then obtain k where k: "ulp n = 2 ^ k" by blast
  assume n: "0 \<le> n" "n < 2 ^ 63"
  have "ulp n \<le> 2 ^ 11"
  proof (cases "n < 2 ^ 53")
    case False
    with ulp_bounds [OF n(1)] n(2) have "ulp n * 2 ^ 52 < 2 ^ 11 * 2 ^ 52" by simp
    then show ?thesis by simp
  qed (simp add: ulp.simps)
  moreover from this k have "(2 :: int) ^ k \<le> 2 ^ 11" by simp
  then have "k \<le> 11" by (simp only: power_increasing_iff)
  then have "ulp n dvd 2 ^ 53" unfolding k by (intro le_imp_power_dvd) simp
  ultimately show ?thesis by blast
qed

lemma round53_near:
  assumes "0 \<le> n"
  shows "2 * round53 n \<le> 2 * n + ulp n" and "2 * n \<le> 2 * round53 n + ulp n"
proof -
  have u: "0 < ulp n" using ulp_bounds [OF assms] by blast
  define q where "q = n div ulp n"
  define r where "r = n mod ulp n"
  have "n = q * ulp n + r" "0 \<le> r" "r < ulp n" using u by (simp_all add: q_def r_def)
  moreover have "round53 n = (if 2 * r > ulp n \<or> 2 * r = ulp n \<and> odd q then q * ulp n + ulp n else q * ulp n)"
    by (simp add: round53_def Let_def q_def r_def algebra_simps)
  ultimately show "2 * round53 n \<le> 2 * n + ulp n" "2 * n \<le> 2 * round53 n + ulp n"
    by (simp_all split: if_splits)
qed

lemma round53_below:
  assumes u: "u = ulp (c * u - e)" and n: "0 \<le> c * u - e" and e: "0 \<le> e" "2 * e < u"
  shows "round53 (c * u - e) = c * u"
proof (cases "e = 0")
  case True
  then show ?thesis using u e by (simp add: round53_def Let_def)
next
  case False
  have "c * u - e = u * (c - 1) + (u - e)" by (simp add: algebra_simps)
  then have "(c * u - e) div u = c - 1" "(c * u - e) mod u = u - e"
    using e False by (auto intro!: int_div_pos_eq int_mod_pos_eq)
  then show ?thesis using e by (simp add: round53_def Let_def flip: u)
qed

lemma quantile_bits_percent:
  "100 * quantile_bits q = quantile_percent q * 2 ^ 53 - (case q of Q50 \<Rightarrow> 0 | Q95 \<Rightarrow> 40 | Q99 \<Rightarrow> 8)"
  by (cases q) simp_all

lemma whole_rank:
  assumes "n < 1024" and "100 dvd int n * quantile_percent q"
  shows "round53 (int n * quantile_bits q) = int n * quantile_percent q div 100 * 2 ^ 53"
proof -
  define N where "N = int n * quantile_bits q"
  define a where "a = int n * quantile_percent q div 100"
  define e where "e = a * 2 ^ 53 - N"
  have a: "100 * a = int n * quantile_percent q" using assms(2) by (simp add: a_def)
  have e100: "100 * e = int n * (case q of Q50 \<Rightarrow> 0 | Q95 \<Rightarrow> 40 | Q99 \<Rightarrow> 8)"
    using a quantile_bits_percent [of q] by (simp add: e_def N_def algebra_simps) (cases q; simp)
  have N: "0 \<le> N" "N < 2 ^ 63" using assms(1) by (cases q; simp add: N_def)+
  have e: "0 \<le> e" "e < 2 ^ 53" "0 < e \<longrightarrow> 2 * e < a"
    using e100 a assms(1) by (cases q; simp)+
  have "a * 2 ^ 53 - e < ulp N * 2 ^ 53" using ulp_bounds [OF N(1)] by (simp add: e_def)
  with e(2) have "a * 2 ^ 53 < (ulp N + 1) * 2 ^ 53" by (simp add: algebra_simps)
  then have "a \<le> ulp N" by simp
  moreover have "0 < ulp N" using ulp_bounds [OF N(1)] by blast
  ultimately have small: "2 * e < ulp N" using e(1,3) by linarith
  obtain c where c: "a * 2 ^ 53 = c * ulp N" using ulp_dvd [OF N] by (metis dvd_def dvd_mult mult.commute)
  have "N = c * ulp N - e" using c by (simp add: e_def)
  with round53_below [of "ulp N" c e] N(1) e(1) small have "round53 N = c * ulp N" by simp
  with c show ?thesis by (simp add: N_def a_def)
qed

lemma broken_rank:
  assumes "n < 1024" and "\<not> 100 dvd int n * quantile_percent q"
  shows "round53 (int n * quantile_bits q) div 2 ^ 53 = int n * quantile_percent q div 100"
proof -
  define N where "N = int n * quantile_bits q"
  define a where "a = int n * quantile_percent q div 100"
  define f where "f = int n * quantile_percent q mod 100"
  have f: "int n * quantile_percent q = 100 * a + f" "1 \<le> f" "f \<le> 99"
    using assms(2) pos_mod_sign [of 100 "int n * quantile_percent q"] pos_mod_bound [of 100 "int n * quantile_percent q"]
    by (auto simp: a_def f_def dvd_eq_mod_eq_0 mult.commute)
  have N: "0 \<le> N" "N < 2 ^ 63" using assms(1) by (cases q; simp add: N_def)+
  have "100 * N = (100 * a + f) * 2 ^ 53 - int n * (case q of Q50 \<Rightarrow> 0 | Q95 \<Rightarrow> 40 | Q99 \<Rightarrow> 8)"
    using f(1) quantile_bits_percent [of q] by (simp add: N_def algebra_simps) (cases q; simp)
  moreover have "0 \<le> int n * (case q of Q50 \<Rightarrow> 0 | Q95 \<Rightarrow> 40 | Q99 \<Rightarrow> 8)" "int n * (case q of Q50 \<Rightarrow> 0 | Q95 \<Rightarrow> 40 | Q99 \<Rightarrow> 8) \<le> 2 ^ 16"
    using assms(1) by (cases q; simp)+
  ultimately have "a * 2 ^ 53 + 2 ^ 11 \<le> N" "N + 2 ^ 11 < (a + 1) * 2 ^ 53" using f(2,3) by simp_all
  with round53_near [OF N(1)] ulp_dvd [OF N] have "a * 2 ^ 53 \<le> round53 N" "round53 N < (a + 1) * 2 ^ 53" by simp_all
  then have "round53 N div 2 ^ 53 = a" by (intro int_div_pos_eq [where r = "round53 N - a * 2 ^ 53"]) simp_all
  then show ?thesis by (simp add: N_def a_def)
qed

text \<open>
  C35 (percentiles).  For every number of samples a route can keep, the index that the floating
  point computation gives is the exact rank \<open>\<lfloor>(n - 1) * q\<rfloor>\<close>; in particular it is always inside the
  sample slice.
\<close>

theorem percentile_index_exact:
  assumes "n < 1024"
  shows "percentile_index n q = nat (int n * quantile_percent q div 100)"
  using whole_rank [OF assms, of q] broken_rank [OF assms, of q]
  by (cases "100 dvd int n * quantile_percent q") (simp_all add: percentile_index_def)

theorem percentile_index_exact_witness: "percentile_index 1023 Q99 = 1012"
  using percentile_index_exact [of 1023 Q99] by simp

text \<open>
  The count of a summary is the number of the samples kept: it stops growing at 1024, although a
  counter of all observations is announced.
\<close>

lemma summary_count_saturates:
  assumes "1024 \<le> length (concat (map (latencies seconds lkey) os))"
  shows "length (samples_of (observed seconds now os) lkey) = 1024"
  using assms by (simp add: observed_samples last_samples_def maxLatencySamplesPerRoute_def)

end
