(* ===== verification/Api.thy ===== *)
theory Api
  imports Http Payment_Flow Metrics
begin

text \<open>
  The HTTP interface, \<open>internal/api/server.go\<close>: routes, authentication, the handlers, the
  verification of provider callbacks and the mapping of errors to statuses.

  A handler takes the response writer and returns it with what it has written.  The state of the
  server is the world of its service and its metrics.  The readings of the clock and of the
  runtime are fields of the environment, as are the environments of the use cases.  Decoding JSON
  into the three payload structs is a parameter (\<open>json_decoders\<close>): the decoders get the bytes of the
  body, and those of the streaming decoder also whether reading then fails.  Log lines and spans
  are not part of the model; neither influences a response.
\<close>

section \<open>The server\<close>

record SecurityConfig =
  sec_ProviderCallbackSecret :: string
  sec_SignatureTolerance :: duration

record createTransferPayload =
  cp_AccountID :: string
  cp_AmountCents :: int
  cp_Currency :: string
  cp_ReceiverKey :: string
  cp_ReceiverKeyType :: DictKeyType
  cp_Description :: string

record reviewPayload =
  vp_Decision :: ReviewDecision
  vp_Reason :: string

record settlementPayload =
  sp_SPIMessageID :: string
  sp_Status :: SettlementStatus
  sp_Code :: string

record json_decoders =
  jd_create :: "byte list \<Rightarrow> bool \<Rightarrow> createTransferPayload option"
  jd_review :: "byte list \<Rightarrow> bool \<Rightarrow> reviewPayload option"
  jd_settlement :: "byte list \<Rightarrow> settlementPayload option"

text \<open>\<open>srv_seconds\<close> and \<open>srv_floats\<close> are the floating-point operations of the metrics.\<close>

record ('e, 's, 'x, 'l, 'p, 'f) Server =
  srv_service :: "('e, 's, 'x, 'l, 'p) Service"
  srv_keys :: api_keys
  srv_security :: SecurityConfig
  srv_decoders :: json_decoders
  srv_seconds :: "duration \<Rightarrow> 'f"
  srv_floats :: "'f float_ops"

record ('s, 'l, 'p, 'f) api_state =
  as_world :: "('s, 'l, 'p) world"
  as_metrics :: "'f Metrics"

record ('e, 'x) api_env =
  ae_requestStamp :: gotime
  ae_correlationStamp :: gotime
  ae_signatureNow :: gotime
  ae_now :: gotime
  ae_elapsed :: duration
  ae_runtime :: runtime_stats
  ae_store :: 'e
  ae_create :: "('e, 'x) create_env"
  ae_submit :: "('e, 'x) submit_env"
  ae_review :: "'e review_env"
  ae_settle :: "'e settle_env"

text \<open>What handlers read from the request context.\<close>

record request_context =
  ctx_tenant :: string
  ctx_requestID :: string
  ctx_correlation :: string

definition NewServer ::
    "('e, 's, 'x, 'l, 'p) Service \<Rightarrow> api_keys \<Rightarrow> SecurityConfig list \<Rightarrow> json_decoders \<Rightarrow> (duration \<Rightarrow> 'f) \<Rightarrow>
       'f float_ops \<Rightarrow> ('e, 's, 'x, 'l, 'p, 'f) Server" where
  "NewServer service keys security decoders seconds floats =
     (let securityConfig = \<lparr> sec_ProviderCallbackSecret = '''', sec_SignatureTolerance = 5 * minute \<rparr>;
          securityConfig = (case security of [] \<Rightarrow> securityConfig | c # _ \<Rightarrow> c);
          securityConfig = (if sec_SignatureTolerance securityConfig \<le> 0
                            then securityConfig\<lparr> sec_SignatureTolerance := 5 * minute \<rparr> else securityConfig)
      in \<lparr> srv_service = service, srv_keys = keys, srv_security = securityConfig, srv_decoders = decoders,
           srv_seconds = seconds, srv_floats = floats \<rparr>)"

section \<open>Responses\<close>

definition writeJSON :: "http_response \<Rightarrow> int \<Rightarrow> json \<Rightarrow> http_response" where
  "writeJSON w status payload =
     (header_Set ''Content-Type'' ''application/json'' w)\<lparr> rsp_Status := status, rsp_Body := Json payload \<rparr>"

definition writeError :: "http_response \<Rightarrow> int \<Rightarrow> string \<Rightarrow> string \<Rightarrow> json \<Rightarrow> http_response" where
  "writeError w status code message details =
     writeJSON w status (JsonObject
       [(''error'', JsonObject [(''code'', JsonString code), (''message'', JsonString message), (''details'', details)])])"

definition transferResponse :: "Transfer \<Rightarrow> bool \<Rightarrow> json" where
  "transferResponse transfer replay =
     JsonObject
       [(''data'', JsonObject
          [(''id'', JsonString (t_ID transfer)),
           (''tenant_id'', JsonString (t_TenantID transfer)),
           (''account_id'', JsonString (t_AccountID transfer)),
           (''status'', JsonString (t_Status transfer)),
           (''amount_cents'', JsonInt (t_AmountCents transfer)),
           (''currency'', JsonString (t_Currency transfer)),
           (''receiver_key_type'', JsonString (t_ReceiverKeyType transfer)),
           (''receiver_name'', JsonString (t_ReceiverName transfer)),
           (''receiver_bank'', JsonString (t_ReceiverBank transfer)),
           (''fraud_score'', JsonInt (t_FraudScore transfer)),
           (''fraud_rules'', JsonStrings (t_FraudRules transfer)),
           (''decision_reason'', JsonString (t_DecisionReason transfer)),
           (''spi_message_id'', JsonString (t_SPIMessageID transfer)),
           (''end_to_end_id'', JsonString (t_EndToEndID transfer)),
           (''settlement_code'', JsonString (t_SettlementCode transfer)),
           (''created_at'', JsonTime (t_CreatedAt transfer)),
           (''updated_at'', JsonTime (t_UpdatedAt transfer))]),
        (''meta'', JsonObject [(''idempotent_replay'', JsonBool replay)])]"

definition handleDomainError :: "http_response \<Rightarrow> go_error \<Rightarrow> http_response" where
  "handleDomainError w err =
     (if errors_Is err ErrValidation then writeError w 400 ''validation_failed'' (error_Error err) JsonNull
      else if errors_Is err ErrUnauthorized then writeError w 401 ''unauthorized'' (error_Error err) JsonNull
      else if errors_Is err ErrRateLimited then writeError w 429 ''rate_limited'' (error_Error err) JsonNull
      else if errors_Is err ErrNotFound then writeError w 404 ''not_found'' (error_Error err) JsonNull
      else if errors_Is err ErrConflict then writeError w 409 ''conflict'' (error_Error err) JsonNull
      else if errors_Is err ErrDependencyFailed then writeError w 502 ''dependency_failed'' (error_Error err) JsonNull
      else writeError w 500 ''internal_error'' ''unexpected error'' JsonNull)"

text \<open>
  The end of the four handlers that write: the error, or the two observations and the transfer.
  \<open>created\<close> is the status for a result that is not a replay.
\<close>

definition observe_result :: "('s, 'l, 'p, 'f) api_state \<Rightarrow> Result \<Rightarrow> ('s, 'l, 'p, 'f) api_state" where
  "observe_result st result =
     st\<lparr> as_metrics := Metrics_ObserveEvents (Metrics_ObserveDecision (as_metrics st) (t_Status (res_Transfer result)))
           (int (length (res_Events result))) \<rparr>"

definition write_result ::
    "http_response \<Rightarrow> ('s, 'l, 'p, 'f) api_state \<Rightarrow> int \<Rightarrow> Result result \<times> ('s, 'l, 'p) world \<Rightarrow>
       http_response \<times> ('s, 'l, 'p, 'f) api_state" where
  "write_result w st created outcome =
     (let (r, world) = outcome; st = st\<lparr> as_world := world \<rparr>
      in case r of
           Inl err \<Rightarrow> (handleDomainError w err, st)
         | Inr result \<Rightarrow>
             (writeJSON w (if res_IdempotentReplay result then 200 else created)
                (transferResponse (res_Transfer result) (res_IdempotentReplay result)),
              observe_result st result))"

section \<open>Handlers\<close>

type_synonym ('e, 's, 'x, 'l, 'p, 'f) handler =
  "('e, 's, 'x, 'l, 'p, 'f) Server \<Rightarrow> ('e, 'x) api_env \<Rightarrow> ('s, 'l, 'p, 'f) api_state \<Rightarrow> request_context \<Rightarrow>
     http_response \<Rightarrow> http_request \<Rightarrow> string list \<Rightarrow> http_response \<times> ('s, 'l, 'p, 'f) api_state"

text \<open>\<open>r.PathValue("id")\<close>: the value of the only wildcard.\<close>

definition PathValue_id :: "string list \<Rightarrow> string" where
  "PathValue_id vs = (case vs of [] \<Rightarrow> '''' | v # _ \<Rightarrow> v)"

definition Server_health :: "('e, 's, 'x, 'l, 'p, 'f) handler" where
  "Server_health s e st ctx w r vs =
     (writeJSON w 200 (JsonObject [(''status'', JsonString ''ok''), (''component'', JsonString ''pixrail-api'')]), st)"

definition Server_ready :: "('e, 's, 'x, 'l, 'p, 'f) handler" where
  "Server_ready s e st ctx w r vs =
     (let (err, world) = Service_Health (srv_service s) (ae_store e) (as_world st); st = st\<lparr> as_world := world \<rparr>
      in case err of
           Some err \<Rightarrow>
             (writeJSON w 503 (JsonObject [(''status'', JsonString ''unavailable''), (''dependency'', JsonString ''store''),
                                           (''error'', JsonString (error_Error err))]), st)
         | None \<Rightarrow>
             (writeJSON w 200 (JsonObject [(''status'', JsonString ''ready''), (''dependency'', JsonString ''store'')]), st))"

definition Server_metricsHandler :: "('e, 's, 'x, 'l, 'p, 'f :: linorder) handler" where
  "Server_metricsHandler s e st ctx w r vs =
     ((header_Set ''Content-Type'' ''text/plain; version=0.0.4'' w)
        \<lparr> rsp_Body := Text (Metrics_WritePrometheus (srv_floats s) (ae_runtime e) (as_metrics st)) \<rparr>, st)"

definition create_request :: "request_context \<Rightarrow> http_request \<Rightarrow> createTransferPayload \<Rightarrow> gotime \<Rightarrow> CreateTransferRequest" where
  "create_request ctx r payload now =
     \<lparr> req_TenantID = ctx_tenant ctx,
       req_AccountID = cp_AccountID payload,
       req_IdempotencyKey = rq_Header r ''Idempotency-Key'',
       req_CorrelationID = ctx_correlation ctx,
       req_AmountCents = cp_AmountCents payload,
       req_Currency = cp_Currency payload,
       req_ReceiverKey = cp_ReceiverKey payload,
       req_ReceiverKeyType = cp_ReceiverKeyType payload,
       req_Description = cp_Description payload,
       req_RequestedAt = now \<rparr>"

definition Server_createTransfer :: "('e, 's, 'x, 'l, 'p, 'f) handler" where
  "Server_createTransfer s e st ctx w r vs =
     (case jd_create (srv_decoders s) (rq_Body r) (rq_BodyFails r) of
        None \<Rightarrow> (writeError w 400 ''invalid_json'' ''request body must be valid JSON'' JsonNull, st)
      | Some payload \<Rightarrow>
          write_result w st 201
            (Service_CreateTransfer (srv_service s) (ae_create e) (as_world st)
               (create_request ctx r payload (ae_now e))))"

definition Server_getTransfer :: "('e, 's, 'x, 'l, 'p, 'f) handler" where
  "Server_getTransfer s e st ctx w r vs =
     (let (got, world) = Service_GetTransfer (srv_service s) (ae_store e) (as_world st) (ctx_tenant ctx) (PathValue_id vs);
          st = st\<lparr> as_world := world \<rparr>
      in case got of
           Inl err \<Rightarrow> (handleDomainError w err, st)
         | Inr transfer \<Rightarrow> (writeJSON w 200 (transferResponse transfer False), st))"

definition Server_submitToSPI :: "('e, 's, 'x, 'l, 'p, 'f) handler" where
  "Server_submitToSPI s e st ctx w r vs =
     write_result w st 200
       (Service_SubmitToSPI (srv_service s) (ae_submit e) (as_world st) (ctx_tenant ctx) (PathValue_id vs) (ctx_correlation ctx))"

definition Server_recordReview :: "('e, 's, 'x, 'l, 'p, 'f) handler" where
  "Server_recordReview s e st ctx w r vs =
     (case jd_review (srv_decoders s) (rq_Body r) (rq_BodyFails r) of
        None \<Rightarrow> (writeError w 400 ''invalid_json'' ''request body must be valid JSON'' JsonNull, st)
      | Some payload \<Rightarrow>
          write_result w st 200
            (Service_RecordReview (srv_service s) (ae_review e) (as_world st)
               \<lparr> rv_TenantID = ctx_tenant ctx, rv_TransferID = PathValue_id vs, rv_Decision = vp_Decision payload,
                 rv_Reason = vp_Reason payload, rv_CorrelationID = ctx_correlation ctx, rv_ReviewedAt = ae_now e \<rparr>))"

section \<open>Provider callbacks\<close>

text \<open>\<open>time.Unix(epoch, 0)\<close>: seconds from 1970, counted from year 1 in 64 bits.\<close>

definition time_Unix :: "int \<Rightarrow> gotime" where
  "time_Unix epoch = wrap64 (epoch + 62135596800) * second"

definition callback_message :: "string \<Rightarrow> byte list \<Rightarrow> byte list" where
  "callback_message timestamp body = bytes_of timestamp @ bytes_of ''.'' @ body"

definition providerCallbackSignature :: "string \<Rightarrow> string \<Rightarrow> byte list \<Rightarrow> string" where
  "providerCallbackSignature secret timestamp body =
     ''sha256='' @ hex_EncodeToString (hmac_sha256 (bytes_of secret) (callback_message timestamp body))"

definition Server_readAndVerifyProviderCallback ::
    "('e, 's, 'x, 'l, 'p, 'f) Server \<Rightarrow> ('e, 'x) api_env \<Rightarrow> http_response \<Rightarrow> http_request \<Rightarrow> http_response + byte list" where
  "Server_readAndVerifyProviderCallback s e w r =
     (let unauthorized = (\<lambda>message. Inl (writeError w 401 ''unauthorized'' message JsonNull))
      in case read_limited 1048576 r of
           None \<Rightarrow> Inl (writeError w 400 ''invalid_json'' ''request body is too large or unreadable'' JsonNull)
         | Some raw \<Rightarrow>
             (let secret = strings_TrimSpace (sec_ProviderCallbackSecret (srv_security s));
                  timestamp = strings_TrimSpace (rq_Header r ''X-PixRail-Timestamp'');
                  signature = strings_TrimSpace (rq_Header r ''X-PixRail-Signature'')
              in if secret = '''' then unauthorized ''provider callback signature is required''
                 else if timestamp = '''' \<or> signature = '''' then unauthorized ''provider callback signature is required''
                 else (case strconv_Atoi timestamp of
                         None \<Rightarrow> unauthorized ''provider callback timestamp is invalid''
                       | Some epoch \<Rightarrow>
                           (let delta = time_Sub (ae_signatureNow e) (time_Unix epoch);
                                tolerance = sec_SignatureTolerance (srv_security s)
                            in if delta > tolerance \<or> delta < - tolerance then
                                 unauthorized ''provider callback timestamp is outside tolerance''
                               else if signature \<noteq> providerCallbackSignature secret timestamp raw then
                                 unauthorized ''provider callback signature is invalid''
                               else Inr raw))))"

definition Server_recordSettlement :: "('e, 's, 'x, 'l, 'p, 'f) handler" where
  "Server_recordSettlement s e st ctx w r vs =
     (case Server_readAndVerifyProviderCallback s e w r of
        Inl w \<Rightarrow> (w, st)
      | Inr raw \<Rightarrow>
          (case jd_settlement (srv_decoders s) raw of
             None \<Rightarrow> (writeError w 400 ''invalid_json'' ''request body must be valid JSON'' JsonNull, st)
           | Some payload \<Rightarrow>
               write_result w st 200
                 (Service_RecordSettlement (srv_service s) (ae_settle e) (as_world st)
                    \<lparr> cb_TenantID = ctx_tenant ctx, cb_TransferID = PathValue_id vs,
                      cb_SPIMessageID = sp_SPIMessageID payload, cb_Status = sp_Status payload,
                      cb_Code = sp_Code payload, cb_CallbackHash = '''',
                      cb_CorrelationID = ctx_correlation ctx, cb_ReceivedAt = ae_now e \<rparr>)))"

definition Server_outbox :: "('e, 's, 'x, 'l, 'p, 'f) handler" where
  "Server_outbox s e st ctx w r vs =
     (let (records, world) = Service_Outbox (srv_service s) (ae_store e) (as_world st); st = st\<lparr> as_world := world \<rparr>
      in case records of
           Inl err \<Rightarrow> (writeError w 500 ''outbox_read_failed'' (error_Error err) JsonNull, st)
         | Inr records \<Rightarrow>
             (writeJSON w 200 (JsonObject
                [(''data'', JsonRecords (filter (\<lambda>record. ev_TenantID (ob_Event record) = ctx_tenant ctx) records))]), st))"

section \<open>Routes, authentication and middleware\<close>

datatype endpoint =
    Health | Ready | MetricsText | CreateTransfer | GetTransfer | SubmitToSPI | RecordReview | RecordSettlement | ListOutbox

definition routes :: "(APIKeyRole option \<times> endpoint) mux" where
  "routes =
     [(''GET'', [Lit ''healthz''], None, Health),
      (''GET'', [Lit ''readyz''], None, Ready),
      (''GET'', [Lit ''metrics''], None, MetricsText),
      (''POST'', [Lit ''v1'', Lit ''pix'', Lit ''transfers''], Some RoleTenant, CreateTransfer),
      (''GET'', [Lit ''v1'', Lit ''pix'', Lit ''transfers'', Wild], Some RoleTenant, GetTransfer),
      (''POST'', [Lit ''v1'', Lit ''pix'', Lit ''transfers'', Wild, Lit ''spi-submissions''], Some RoleWorker, SubmitToSPI),
      (''POST'', [Lit ''v1'', Lit ''pix'', Lit ''transfers'', Wild, Lit ''reviews''], Some RoleRisk, RecordReview),
      (''POST'', [Lit ''v1'', Lit ''pix'', Lit ''transfers'', Wild, Lit ''spi-callbacks''], Some RoleProvider, RecordSettlement),
      (''GET'', [Lit ''v1'', Lit ''outbox''], Some RoleTenant, ListOutbox)]"

fun endpoint_handler :: "endpoint \<Rightarrow> ('e, 's, 'x, 'l, 'p, 'f :: linorder) handler" where
  "endpoint_handler Health = Server_health"
| "endpoint_handler Ready = Server_ready"
| "endpoint_handler MetricsText = Server_metricsHandler"
| "endpoint_handler CreateTransfer = Server_createTransfer"
| "endpoint_handler GetTransfer = Server_getTransfer"
| "endpoint_handler SubmitToSPI = Server_submitToSPI"
| "endpoint_handler RecordReview = Server_recordReview"
| "endpoint_handler RecordSettlement = Server_recordSettlement"
| "endpoint_handler ListOutbox = Server_outbox"

definition request_token :: "http_request \<Rightarrow> string" where
  "request_token r =
     (let token = strings_TrimPrefix (rq_Header r ''Authorization'') ''Bearer ''
      in if token = '''' then rq_Header r ''X-API-Key'' else token)"

definition Server_authRole :: "APIKeyRole \<Rightarrow> ('e, 's, 'x, 'l, 'p, 'f) handler \<Rightarrow> ('e, 's, 'x, 'l, 'p, 'f) handler" where
  "Server_authRole role handler s e st ctx w r vs =
     (case map_of (srv_keys s) (request_token r) of
        None \<Rightarrow> (writeError w 401 ''unauthorized'' ''valid API key is required'' JsonNull, st)
      | Some key \<Rightarrow>
          if \<not> APIKey_HasRole key role then
            (writeError w 403 ''forbidden'' ''API key is not allowed to access this endpoint'' JsonNull, st)
          else handler s e st (ctx\<lparr> ctx_tenant := ak_TenantID key \<rparr>) w r vs)"

definition Server_mux ::
    "('e, 's, 'x, 'l, 'p, 'f :: linorder) Server \<Rightarrow> ('e, 'x) api_env \<Rightarrow> ('s, 'l, 'p, 'f) api_state \<Rightarrow> request_context \<Rightarrow>
       http_response \<Rightarrow> http_request \<Rightarrow> http_response \<times> ('s, 'l, 'p, 'f) api_state" where
  "Server_mux s e st ctx w r =
     (case ServeMux_Handler routes r of
        Dispatch (None, endpoint) vs \<Rightarrow> endpoint_handler endpoint s e st ctx w r vs
      | Dispatch (Some role, endpoint) vs \<Rightarrow> Server_authRole role (endpoint_handler endpoint) s e st ctx w r vs
      | BadTarget \<Rightarrow> (w\<lparr> rsp_Status := 400 \<rparr>, st)
      | Moved path \<Rightarrow> (w\<lparr> rsp_Status := 301, rsp_Body := MovedTo path \<rparr>, st)
      | NotAllowed methods \<Rightarrow>
          (http_Error (header_Set ''Allow'' (strings_Join methods '', '') w) ''Method Not Allowed'' 405, st)
      | NoRoute \<Rightarrow> (http_Error w ''404 page not found'' 404, st))"

text \<open>
  \<open>headerOrNew\<close> formats the current time with nine digits after the dot and then drops the dot.
\<close>

definition headerOrNew :: "gotime \<Rightarrow> string \<Rightarrow> string \<Rightarrow> string" where
  "headerOrNew now v pre =
     (let v = strings_TrimSpace v
      in if v \<noteq> '''' then v else pre @ ''_'' @ format_timestamp now @ pad_int 9 (now mod second))"

definition routeLabel :: "http_request \<Rightarrow> string" where
  "routeLabel r =
     (let path = rq_Path r; transfers = strings_HasPrefix path ''/v1/pix/transfers/''
      in if transfers \<and> strings_HasSuffix path ''/spi-callbacks'' then ''/v1/pix/transfers/{id}/spi-callbacks''
         else if transfers \<and> strings_HasSuffix path ''/spi-submissions'' then ''/v1/pix/transfers/{id}/spi-submissions''
         else if transfers \<and> strings_HasSuffix path ''/reviews'' then ''/v1/pix/transfers/{id}/reviews''
         else if transfers then ''/v1/pix/transfers/{id}''
         else path)"

definition Server_Handler ::
    "('e, 's, 'x, 'l, 'p, 'f :: linorder) Server \<Rightarrow> ('e, 'x) api_env \<Rightarrow> ('s, 'l, 'p, 'f) api_state \<Rightarrow> http_request \<Rightarrow>
       http_response \<times> ('s, 'l, 'p, 'f) api_state" where
  "Server_Handler s e st r =
     (let requestID = headerOrNew (ae_requestStamp e) (rq_Header r ''X-Request-ID'') ''req'';
          correlationID = headerOrNew (ae_correlationStamp e) (rq_Header r ''X-Correlation-ID'') ''corr'';
          ctx = \<lparr> ctx_tenant = '''', ctx_requestID = requestID, ctx_correlation = correlationID \<rparr>;
          w = header_Set ''X-Correlation-ID'' correlationID (header_Set ''X-Request-ID'' requestID new_response);
          (w, st) = Server_mux s e st ctx w r
      in (w, st\<lparr> as_metrics := Metrics_ObserveRequest (srv_seconds s) (as_metrics st) (rq_Method r) (routeLabel r)
                   (rsp_Status w) (ae_elapsed e) \<rparr>))"

end
