(* ===== verification/Api_Contract.thy ===== *)
theory Api_Contract
  imports Api
begin

text \<open>
  What the HTTP interface guarantees: who may call what, that a tenant sees and changes nothing of
  other tenants, that callbacks are authentic, and what a failed request leaves behind.
\<close>

section \<open>Changes to the transfers of one tenant\<close>

definition confined :: "string \<Rightarrow> store_view \<Rightarrow> store_view \<Rightarrow> bool" where
  "confined tn v v' \<longleftrightarrow>
     (\<forall>i. sv_transfers v' i \<noteq> sv_transfers v i \<longrightarrow>
        (\<forall>t. sv_transfers v i = Some t \<longrightarrow> t_TenantID t = tn) \<and>
        (\<exists>t'. sv_transfers v' i = Some t' \<and> t_TenantID t' = tn))"

lemma confined_refl [simp]: "confined tn v v"
  by (simp add: confined_def)

lemma confined_trans:
  assumes "confined tn u v" and "confined tn v w"
  shows "confined tn u w"
  unfolding confined_def
proof (intro allI impI)
  fix i
  assume "sv_transfers w i \<noteq> sv_transfers u i"
  then consider "sv_transfers v i = sv_transfers u i" "sv_transfers w i \<noteq> sv_transfers v i"
    | "sv_transfers v i \<noteq> sv_transfers u i" "sv_transfers w i = sv_transfers v i"
    | "sv_transfers v i \<noteq> sv_transfers u i" "sv_transfers w i \<noteq> sv_transfers v i" by auto
  then show "(\<forall>t. sv_transfers u i = Some t \<longrightarrow> t_TenantID t = tn) \<and> (\<exists>t'. sv_transfers w i = Some t' \<and> t_TenantID t' = tn)"
    using assms unfolding confined_def by cases metis+
qed

lemma write_confined:
  assumes "view_owns v tn i t" and "Transfer_step t t'" and "view_write v t' evs aus v'"
  shows "confined tn v v'" "t_TenantID t' = tn"
  using assms Transfer_identity_fields [OF Transfer_step_identity [OF assms(2)]]
  by (auto simp: confined_def view_owns_def view_write_def)

lemma insert_confined: "insert_write v t evs aus v' \<Longrightarrow> confined (t_TenantID t) v v'"
  by (auto simp: confined_def insert_write_def view_write_def)

section \<open>The use cases on the memory store\<close>

text \<open>A use case that works for a tenant: the invariant, the confinement and the transfer returned.\<close>

definition works_for :: "string \<Rightarrow> (MemoryStore, 'l, 'p) world \<Rightarrow> Result result \<times> (MemoryStore, 'l, 'p) world \<Rightarrow> bool" where
  "works_for tn w outcome \<longleftrightarrow>
     mem_inv (w_store (snd outcome)) \<and> confined tn (mem_view (w_store w)) (mem_view (w_store (snd outcome))) \<and>
     (\<forall>res. fst outcome = Inr res \<longrightarrow> t_TenantID (res_Transfer res) = tn)"

lemma create_works_for:
  assumes sv: "svc_store sv = memory_store" and inv: "mem_inv (w_store w)"
    and tn: "CHR '':'' \<notin> set (strings_TrimSpace (req_TenantID request))"
  shows "works_for (strings_TrimSpace (req_TenantID request)) w (Service_CreateTransfer sv e w request)"
proof -
  obtain r w' where op: "Service_CreateTransfer sv e w request = (r, w')" by (meson surj_pair)
  note out = ms.CreateTransfer_outcome [OF sv ms_env_oks(1) inv tn op]
  have inv': "mem_inv (w_store w')" using out ms.rely_inv inv by blast
  show ?thesis
  proof (cases r)
    case (Inl err)
    then show ?thesis using out inv' by (simp add: works_for_def op)
  next
    case (Inr res)
    show ?thesis
    proof (cases "res_IdempotentReplay res")
      case True
      then show ?thesis using out Inr inv' by (auto simp: works_for_def op ms.replayed_def view_idempotent_def)
    next
      case False
      then obtain de dc where t: "t_TenantID (res_Transfer res) = strings_TrimSpace (req_TenantID request)"
        and ins: "insert_write (mem_view (w_store w)) (res_Transfer res) (res_Events res)
          (decision_audit (res_Transfer res) (ce_now e)) (mem_view (w_store w'))"
        using out Inr by auto
      from insert_confined [OF ins] t inv' show ?thesis by (simp add: works_for_def op Inr)
    qed
  qed
qed

lemma review_works_for:
  assumes sv: "svc_store sv = memory_store" and inv: "mem_inv (w_store w)"
  shows "works_for (strings_TrimSpace (rv_TenantID request)) w (Service_RecordReview sv e w request)"
proof -
  obtain r w' where op: "Service_RecordReview sv e w request = (r, w')" by (meson surj_pair)
  note out = ms.RecordReview_outcome [OF sv TrueI TrueI inv op]
  have inv': "mem_inv (w_store w')" using out ms.rely_inv inv by blast
  show ?thesis
  proof (cases r)
    case (Inl err)
    then show ?thesis using out inv' by (simp add: works_for_def op)
  next
    case (Inr res)
    with out obtain t st reason au where
      "view_owns (mem_view (w_store w)) (strings_TrimSpace (rv_TenantID request)) (strings_TrimSpace (rv_TransferID request)) t"
      "Transfer_RecordReviewDecision t st reason (au_CreatedAt au) = Inr (res_Transfer res)"
      "view_write (mem_view (w_store w)) (res_Transfer res) (res_Events res) [au] (mem_view (w_store w'))"
      by (auto simp: review_write_def)
    from write_confined [OF this(1) Transfer_step.review [OF this(2)] this(3)] inv' show ?thesis
      by (simp add: works_for_def op Inr)
  qed
qed

lemma updated_tenant:
  assumes "MemoryStore_UpdateSettlement e s tn i cb evs au = (Inr (t, b), s')"
  shows "t_TenantID t = tn"
  using assms
proof (cases rule: Settle_cases)
  case (written u t')
  then show ?thesis
    using Transfer_identity_fields(2) [OF Transfer_step_identity [OF Transfer_step.settle [OF written(3)]]]
    by (simp add: own_transfer_Inr)
qed (simp_all add: own_transfer_Inr)

lemma settled_tenant:
  assumes sv: "svc_store sv = memory_store" and op: "Service_RecordSettlement sv e w callback = (Inr res, w')"
  shows "t_TenantID (res_Transfer res) = cb_TenantID callback"
proof -
  have current: "t_TenantID (res_Transfer res) = cb_TenantID cb" if "settle_current sv e v cb cur = (Inr res, v')" for v v' cb cur
    using that updated_tenant
    by (auto simp: settle_current_def sv memory_store_def Let_def split: if_splits option.splits sum.splits prod.splits)
  show ?thesis
    using op current
    by (auto simp: Service_RecordSettlement_def Let_def normalize_callback_def split: if_splits sum.splits prod.splits)
qed

lemma settle_works_for:
  assumes sv: "svc_store sv = memory_store" and inv: "mem_inv (w_store w)"
  shows "works_for (cb_TenantID callback) w (Service_RecordSettlement sv e w callback)"
proof -
  obtain r w' where op: "Service_RecordSettlement sv e w callback = (r, w')" by (meson surj_pair)
  note out = ms.RecordSettlement_outcome [OF sv TrueI TrueI inv op]
  have inv': "mem_inv (w_store w')" using out ms.rely_inv inv by blast
  show ?thesis
  proof (cases r)
    case (Inl err)
    then show ?thesis using out inv' by (simp add: works_for_def op)
  next
    case (Inr res)
    show ?thesis
    proof (cases "res_IdempotentReplay res")
      case True
      have "t_TenantID (res_Transfer res) = cb_TenantID callback"
        using settled_tenant [OF sv] op Inr by blast
      then show ?thesis using True out Inr inv' by (simp add: works_for_def op)
    next
      case False
      with out Inr obtain t cb au where
        "view_owns (mem_view (w_store w)) (cb_TenantID callback) (cb_TransferID callback) t"
        "Transfer_RecordSettlement t cb = Inr (res_Transfer res)"
        "view_write (mem_view (w_store w)) (res_Transfer res) (res_Events res) [au] (mem_view (w_store w'))"
        by (auto simp: settle_write_def normalize_callback_def Let_def split: if_splits)
      from write_confined [OF this(1) Transfer_step.settle [OF this(2)] this(3)] inv' show ?thesis
        by (simp add: works_for_def op Inr)
    qed
  qed
qed

lemma release_works_for:
  assumes sv: "svc_store sv = memory_store" and inv: "mem_inv (w_store w)"
  shows "works_for tn w (release_claim sv e w tn i tok err)"
proof -
  obtain ri s' where op: "store_ReleaseSPISubmission memory_store (se_release e) (w_store w) tn i tok (error_Error err)
      (time_Add (se_release_now e) second) = (ri, s')" by (meson surj_pair)
  note law = ms.release [OF TrueI inv op]
  have inv': "mem_inv s'" using law ms.rely_inv inv by blast
  have "confined tn (mem_view (w_store w)) (mem_view s')"
    using law write_confined(1) Transfer_step.release by (metis confined_refl)
  then show ?thesis using inv' by (simp add: works_for_def release_claim_def sv op)
qed

lemma works_for_after:
  assumes "works_for tn w1 outcome" and "confined tn (mem_view (w_store w)) (mem_view (w_store w1))"
  shows "works_for tn w outcome"
  using assms confined_trans by (auto simp: works_for_def)

text \<open>The two store calls of a submission: an error, a replay or a step of the tenant's own transfer.\<close>

lemma claimed_confined:
  assumes "(\<forall>err. rc = Inl err \<longrightarrow> s = s') \<and> (\<forall>t. rc = Inr (t, True) \<longrightarrow> s = s' \<and> view_owns (mem_view s') tn i t)"
    and "\<And>t'. rc = Inr (t', False) \<Longrightarrow>
      \<exists>t evs aus. view_owns (mem_view s) tn i t \<and> Transfer_step t t' \<and> view_write (mem_view s) t' evs aus (mem_view s')"
  shows "confined tn (mem_view s) (mem_view s') \<and> (\<forall>t b. rc = Inr (t, b) \<longrightarrow> t_TenantID t = tn)"
proof (cases rc)
  case (Inr tb)
  obtain t b where tb: "rc = Inr (t, b)" using Inr by (cases tb) auto
  show ?thesis
  proof (cases b)
    case True
    then show ?thesis using assms(1) tb by (auto simp: view_owns_def)
  next
    case False
    then obtain u evs aus where "view_owns (mem_view s) tn i u" "Transfer_step u t" "view_write (mem_view s) t evs aus (mem_view s')"
      using assms(2) tb by blast
    from write_confined [OF this] tb show ?thesis by simp
  qed
qed (use assms in auto)

lemma record_works_for:
  assumes sv: "svc_store sv = memory_store" and inv: "mem_inv (w_store w)"
  shows "works_for tn w (submit_claimed sv e w tn i tok co cur)"
proof -
  obtain sent net where net: "svc_spi sv (se_ports e) (w_spi w) cur = (sent, net)" by (meson surj_pair)
  let ?w = "w\<lparr> w_spi := net \<rparr>"
  have rel: "works_for tn w (release_claim sv e ?w tn i tok err)" for err
    by (rule works_for_after [OF release_works_for [OF sv, of ?w]]) (simp_all add: inv)
  show ?thesis
  proof (cases sent)
    case (Inl err)
    then show ?thesis using rel by (simp add: submit_claimed_def net)
  next
    case (Inr m)
    show ?thesis
    proof (cases "add_all_events (se_events e) 0 cur co (submission_events cur m)")
      case (Inl err)
      then show ?thesis using rel \<open>sent = Inr m\<close> by (simp add: submit_claimed_def net)
    next
      case evs: (Inr evs)
      obtain rc s' where op: "store_RecordSPISubmission memory_store (se_record e) (w_store w) tn i tok m evs
          (submission_audit cur co m) = (rc, s')" by (meson surj_pair)
      note law = ms.record_spi [OF TrueI inv op]
      have inv': "mem_inv s'" using law ms.rely_inv inv by blast
      have "confined tn (mem_view (w_store w)) (mem_view s') \<and> (\<forall>t b. rc = Inr (t, b) \<longrightarrow> t_TenantID t = tn)"
      proof (rule claimed_confined)
        show "(\<forall>err. rc = Inl err \<longrightarrow> w_store w = s') \<and> (\<forall>t. rc = Inr (t, True) \<longrightarrow> w_store w = s' \<and> view_owns (mem_view s') tn i t)"
          using law [THEN conjunct2, THEN conjunct1] law [THEN conjunct2, THEN conjunct2, THEN conjunct1] by simp
        show "\<exists>t evs aus. view_owns (mem_view (w_store w)) tn i t \<and> Transfer_step t t' \<and>
            view_write (mem_view (w_store w)) t' evs aus (mem_view s')" if "rc = Inr (t', False)" for t'
          using law [THEN conjunct2, THEN conjunct2, THEN conjunct2, rule_format, OF that] Transfer_step.record_spi by blast
      qed
      then show ?thesis
        using inv' by (auto simp: works_for_def submit_claimed_def net Inr evs sv op Let_def split: sum.split prod.split)
    qed
  qed
qed

lemma submit_works_for:
  assumes sv: "svc_store sv = memory_store" and inv: "mem_inv (w_store w)"
  shows "works_for (strings_TrimSpace tenant) w (Service_SubmitToSPI sv e w tenant transfer correlation)"
proof -
  let ?tn = "strings_TrimSpace tenant" and ?i = "strings_TrimSpace transfer"
  obtain rc s' where op: "store_ClaimSPISubmission memory_store (se_claim e) (w_store w) ?tn ?i
      (newID ''spiclaim'' (se_token e)) (time_Add (se_now e) spiClaimTTL) = (rc, s')" by (meson surj_pair)
  note law = ms.claim [OF TrueI inv op]
  have inv': "mem_inv s'" using law ms.rely_inv inv by blast
  have conf: "confined ?tn (mem_view (w_store w)) (mem_view s') \<and> (\<forall>t b. rc = Inr (t, b) \<longrightarrow> t_TenantID t = ?tn)"
  proof (rule claimed_confined)
    show "(\<forall>err. rc = Inl err \<longrightarrow> w_store w = s') \<and> (\<forall>t. rc = Inr (t, True) \<longrightarrow> w_store w = s' \<and> view_owns (mem_view s') ?tn ?i t)"
      using law [THEN conjunct2, THEN conjunct1] law [THEN conjunct2, THEN conjunct2, THEN conjunct1] by simp
    show "\<exists>t evs aus. view_owns (mem_view (w_store w)) ?tn ?i t \<and> Transfer_step t t' \<and>
        view_write (mem_view (w_store w)) t' evs aus (mem_view s')" if "rc = Inr (t', False)" for t'
      using law [THEN conjunct2, THEN conjunct2, THEN conjunct2, rule_format, OF that] Transfer_step.claim by blast
  qed
  have "works_for ?tn w (submit_claimed sv e (w\<lparr> w_store := s' \<rparr>) ?tn ?i tok co cur)" for tok co cur
    by (rule works_for_after [OF record_works_for [OF sv, of "w\<lparr> w_store := s' \<rparr>"]]) (simp_all add: inv' conf)
  then show ?thesis
    using inv inv' conf
    by (auto simp: Service_SubmitToSPI_def Let_def sv op works_for_def split: sum.split prod.split)
qed

lemma create_request_fields [simp]:
  "req_TenantID (create_request ctx r payload now) = ctx_tenant ctx"
  "req_IdempotencyKey (create_request ctx r payload now) = rq_Header r ''Idempotency-Key''"
  by (simp_all add: create_request_def)

section \<open>Authorisation\<close>

lemma mux_match_routes:
  assumes "mux_match rs meth segs = Some (h, vs)"
  shows "\<exists>m pat. (m, pat, h) \<in> set rs \<and> match_segments pat segs = Some vs"
  using assms by (induction rs meth segs rule: mux_match.induct) (auto split: option.splits if_splits)

text \<open>The table of the routes as seen from the dispatch.\<close>

lemma dispatch_role:
  assumes "ServeMux_Handler routes r = Dispatch (role, endpoint) vs"
  shows "role = (case endpoint of Health \<Rightarrow> None | Ready \<Rightarrow> None | MetricsText \<Rightarrow> None
      | SubmitToSPI \<Rightarrow> Some RoleWorker | RecordReview \<Rightarrow> Some RoleRisk | RecordSettlement \<Rightarrow> Some RoleProvider
      | _ \<Rightarrow> Some RoleTenant)"
  using mux_match_routes [OF ServeMux_Handler_Dispatch [OF assms]] by (auto simp: routes_def)

lemma Server_Handler_mux:
  assumes "Server_Handler s e st r = (w, st')"
  obtains ctx w0 st1 where "Server_mux s e st ctx w0 r = (w, st1)" "rsp_Status w0 = 200" "rsp_Body w0 = NoBody"
    "as_world st' = as_world st1" "mt_decisions (as_metrics st') = mt_decisions (as_metrics st1)"
    "mt_events (as_metrics st') = mt_events (as_metrics st1)"
  using assms
  by (auto simp: Server_Handler_def Let_def header_Set_def new_response_def request_frame split: prod.splits)

lemma write_status [simp]:
  "rsp_Status (writeJSON w n p) = n" "rsp_Body (writeJSON w n p) = Json p"
  "rsp_Status (http_Error w msg n) = n" "rsp_Body (http_Error w msg n) = Text (msg @ [CHR 0x0A])"
  "rsp_Status (writeError w n code msg d) = n"
  "rsp_Body (writeError w n code msg d) = Json (JsonObject
     [(''error'', JsonObject [(''code'', JsonString code), (''message'', JsonString msg), (''details'', d)])])"
  by (simp_all add: writeJSON_def writeError_def http_Error_def)

definition authorised :: "('e, 's, 'x, 'l, 'p, 'f) Server \<Rightarrow> http_request \<Rightarrow> APIKeyRole \<Rightarrow> bool" where
  "authorised s r role \<longleftrightarrow> (\<exists>key. map_of (srv_keys s) (request_token r) = Some key \<and> APIKey_HasRole key role)"

text \<open>
  C38 (access control).  A request for an endpoint with a role, whose token is not a configured key
  or whose key lacks the role, is answered with 401 or 403; no use case runs and no decision or
  event is counted.  Without a key only the three probes are served: every endpoint that reads or
  changes transfers has a role, and a request that matches no route reaches nothing.
\<close>

theorem access_control:
  assumes "Server_Handler s e st r = (w, st')"
  shows "case ServeMux_Handler routes r of
      Dispatch (Some role, endpoint) vs \<Rightarrow>
        endpoint \<notin> {Health, Ready, MetricsText} \<and>
        (authorised s r role \<or>
         rsp_Status w = (if map_of (srv_keys s) (request_token r) = None then 401 else 403) \<and>
         as_world st' = as_world st \<and> mt_decisions (as_metrics st') = mt_decisions (as_metrics st) \<and>
         mt_events (as_metrics st') = mt_events (as_metrics st))
    | Dispatch (None, endpoint) vs \<Rightarrow> endpoint \<in> {Health, Ready, MetricsText}
    | _ \<Rightarrow> rsp_Status w \<in> {301, 400, 404, 405} \<and> as_world st' = as_world st"
proof -
  obtain ctx w0 st1 where mux: "Server_mux s e st ctx w0 r = (w, st1)" and st': "as_world st' = as_world st1"
    "mt_decisions (as_metrics st') = mt_decisions (as_metrics st1)" "mt_events (as_metrics st') = mt_events (as_metrics st1)"
    using assms by (rule Server_Handler_mux)
  show ?thesis
  proof (cases "ServeMux_Handler routes r")
    case (Dispatch h vs)
    obtain role endpoint where h: "h = (role, endpoint)" by (cases h)
    note role = dispatch_role [OF Dispatch [unfolded h]]
    show ?thesis
    proof (cases role)
      case None
      then show ?thesis using role by (cases endpoint) (simp_all add: Dispatch h)
    next
      case (Some ro)
      have "endpoint \<notin> {Health, Ready, MetricsText}" using role Some by (cases endpoint) simp_all
      moreover have "authorised s r ro \<or>
          rsp_Status w = (if map_of (srv_keys s) (request_token r) = None then 401 else 403) \<and> st1 = st"
        using mux
        by (auto simp: Server_mux_def Dispatch h Some Server_authRole_def authorised_def split: option.splits if_splits)
      ultimately show ?thesis using st' by (auto simp: Dispatch h Some)
    qed
  qed (use mux st' in \<open>auto simp: Server_mux_def\<close>)
qed

section \<open>Tenants\<close>

text \<open>The tenants whose data a response shows.\<close>

fun json_text :: "json \<Rightarrow> string set" where
  "json_text (JsonString v) = {v}"
| "json_text _ = {}"

fun json_tenants :: "json \<Rightarrow> string set" where
  "json_tenants (JsonObject fs) =
     (\<Union>f \<in> set fs. (if fst f = ''tenant_id'' then json_text (snd f) else {}) \<union> json_tenants (snd f))"
| "json_tenants (JsonRecords records) = (\<lambda>record. ev_TenantID (ob_Event record)) ` set records"
| "json_tenants _ = {}"

fun body_tenants :: "http_body \<Rightarrow> string set" where
  "body_tenants (Json v) = json_tenants v"
| "body_tenants _ = {}"

lemma transferResponse_tenants [simp]: "json_tenants (transferResponse t b) = {t_TenantID t}"
  by (simp add: transferResponse_def)

lemma handleDomainError_tenants [simp]: "body_tenants (rsp_Body (handleDomainError w err)) = {}"
  by (simp add: handleDomainError_def)

text \<open>A handler that works for a tenant.\<close>

definition serves :: "string \<Rightarrow> (MemoryStore, 'l, 'p, 'f) api_state \<Rightarrow> http_response \<times> (MemoryStore, 'l, 'p, 'f) api_state \<Rightarrow> bool" where
  "serves tn st answer \<longleftrightarrow>
     mem_inv (w_store (as_world (snd answer))) \<and>
     confined tn (mem_view (w_store (as_world st))) (mem_view (w_store (as_world (snd answer)))) \<and>
     body_tenants (rsp_Body (fst answer)) \<subseteq> {tn}"

lemma write_result_serves:
  assumes "works_for tn (as_world st) outcome"
  shows "serves tn st (write_result w st n outcome)"
  using assms
  by (cases outcome) (auto simp: works_for_def serves_def write_result_def observe_result_def Let_def split: sum.split)

lemma error_serves: "mem_inv (w_store (as_world st)) \<Longrightarrow> serves tn st (writeError w n code msg JsonNull, st)"
  by (simp add: serves_def)

lemma read_serves:
  assumes sv: "svc_store (srv_service s) = memory_store" and inv: "mem_inv (w_store (as_world st))"
    and "rsp_Body w = NoBody"
  shows "serves (ctx_tenant ctx) st (Server_getTransfer s e st ctx w r vs)"
    "serves (ctx_tenant ctx) st (Server_outbox s e st ctx w r vs)"
    "serves tn st (Server_ready s e st ctx w r vs)"
    "serves tn st (Server_health s e st ctx w r vs)"
    "serves tn st (Server_metricsHandler s e st ctx w r vs)"
  using inv
  by (auto simp: serves_def Server_getTransfer_def Server_outbox_def Server_ready_def Server_health_def
      Server_metricsHandler_def header_Set_def Service_GetTransfer_def Service_Outbox_def Service_Health_def sv
      memory_store_def MemoryStore_GetTransfer_def own_transfer_Inr Let_def split: sum.split option.split)

lemma handler_serves:
  assumes sv: "svc_store (srv_service s) = memory_store" and inv: "mem_inv (w_store (as_world st))"
    and tn: "key_text_ok (ctx_tenant ctx)" and w: "rsp_Body w = NoBody"
  shows "serves (ctx_tenant ctx) st (endpoint_handler endpoint s e st ctx w r vs)"
proof -
  have tenant: "strings_TrimSpace (ctx_tenant ctx) = ctx_tenant ctx" "CHR '':'' \<notin> set (ctx_tenant ctx)"
    using tn by (simp_all add: key_text_ok_def)
  note err = error_serves [OF inv, of "ctx_tenant ctx"]
  show ?thesis
  proof (cases endpoint)
    case CreateTransfer
    show ?thesis
      using create_works_for [OF sv inv, of "create_request ctx r _ (ae_now e)"] tenant
      by (auto simp: CreateTransfer Server_createTransfer_def err split: option.split intro!: write_result_serves)
  next
    case SubmitToSPI
    show ?thesis
      using submit_works_for [OF sv inv, of "ctx_tenant ctx"]
      by (simp add: SubmitToSPI Server_submitToSPI_def tenant write_result_serves)
  next
    case RecordReview
    show ?thesis
      using review_works_for [OF sv inv, of "\<lparr> rv_TenantID = ctx_tenant ctx, rv_TransferID = _, rv_Decision = _,
          rv_Reason = _, rv_CorrelationID = _, rv_ReviewedAt = _ \<rparr>"]
      by (auto simp: RecordReview Server_recordReview_def err tenant split: option.split intro!: write_result_serves)
  next
    case RecordSettlement
    have verify: "serves (ctx_tenant ctx) st (w', st)" if "Server_readAndVerifyProviderCallback s e w r = Inl w'" for w'
      using that err
      by (auto simp: Server_readAndVerifyProviderCallback_def Let_def split: option.splits if_splits)
    show ?thesis
      using settle_works_for [OF sv inv, of "\<lparr> cb_TenantID = ctx_tenant ctx, cb_TransferID = _, cb_SPIMessageID = _,
          cb_Status = _, cb_Code = _, cb_CallbackHash = _, cb_CorrelationID = _, cb_ReceivedAt = _ \<rparr>"]
      by (auto simp: RecordSettlement Server_recordSettlement_def err split: sum.split option.split
          intro!: write_result_serves verify)
  qed (use read_serves [OF sv inv w] in simp_all)
qed

text \<open>
  C36 (tenants).  Whatever a request asks for, with a configured key: it adds and changes transfers
  of the tenant of the key only, and every transfer and every outbox record in the response
  belongs to that tenant.
\<close>

theorem tenant_confinement:
  assumes store: "svc_store (srv_service s) = memory_store" and reach: "mem_run NewMemoryStore ls (w_store (as_world st))"
    and keys: "api_keys_ok (srv_keys s)" and key: "map_of (srv_keys s) (request_token r) = Some key"
    and op: "Server_Handler s e st r = (w, st')"
  shows "confined (ak_TenantID key) (mem_view (w_store (as_world st))) (mem_view (w_store (as_world st'))) \<and>
    body_tenants (rsp_Body w) \<subseteq> {ak_TenantID key}"
proof -
  have inv: "mem_inv (w_store (as_world st))" using reach by (rule mem_reachable)
  have tn: "key_text_ok (ak_TenantID key)"
    using keys map_of_SomeD [OF key] by (auto simp: api_keys_ok_def api_key_ok_def)
  obtain ctx w0 st1 where mux: "Server_mux s e st ctx w0 r = (w, st1)" and w0: "rsp_Body w0 = NoBody"
    and st': "as_world st' = as_world st1"
    using op by (rule Server_Handler_mux)
  have "serves (ak_TenantID key) st (w, st1)"
  proof (cases "ServeMux_Handler routes r")
    case (Dispatch h vs)
    obtain role endpoint where h: "h = (role, endpoint)" by (cases h)
    show ?thesis
    proof (cases role)
      case None
      then have "endpoint \<in> {Health, Ready, MetricsText}"
        using dispatch_role [OF Dispatch [unfolded h]] by (cases endpoint) simp_all
      then have "serves (ak_TenantID key) st (endpoint_handler endpoint s e st ctx w0 r vs)"
        using read_serves(3-5) [OF store inv w0] by auto
      then show ?thesis using mux by (simp add: Server_mux_def Dispatch h None)
    next
      case (Some ro)
      have "serves (ak_TenantID key) st (endpoint_handler endpoint s e st (ctx\<lparr> ctx_tenant := ak_TenantID key \<rparr>) w0 r vs)"
        using handler_serves [OF store inv, of "ctx\<lparr> ctx_tenant := ak_TenantID key \<rparr>"] tn w0 by simp
      then show ?thesis
        using mux error_serves [OF inv] by (auto simp: Server_mux_def Dispatch h Some Server_authRole_def key split: if_splits)
    qed
  qed (use mux inv in \<open>auto simp: Server_mux_def serves_def w0\<close>)
  then show ?thesis by (simp add: serves_def st')
qed

section \<open>Provider callbacks\<close>

text \<open>A number has no dot, so that the signed text determines the timestamp and the body.\<close>

lemma Atoi_no_dot: "strconv_Atoi ts = Some n \<Longrightarrow> CHR ''.'' \<notin> set ts"
  by (auto simp: strconv_Atoi_def Let_def is_digit_def list_all_iff split: list.splits if_splits)

lemma bytes_of_append: "bytes_of (a @ b) = bytes_of a @ bytes_of b"
  by (simp add: bytes_of_def)

lemma callback_message_inj:
  assumes "strconv_Atoi ts = Some n" and "strconv_Atoi ts' = Some n'"
    and "callback_message ts' body' = callback_message ts body"
  shows "ts' = ts \<and> body' = body"
proof -
  have "string_of (callback_message t b) = t @ CHR ''.'' # string_of b" for t b
  proof -
    have "callback_message t b = bytes_of (t @ ''.'' @ string_of b)"
      by (simp only: callback_message_def bytes_of_append bytes_of_string_of)
    then show ?thesis by simp
  qed
  with assms(3) have "ts' @ CHR ''.'' # string_of body' = ts @ CHR ''.'' # string_of body" by metis
  with append_sep_inj Atoi_no_dot assms(1,2) have "ts' = ts \<and> string_of body' = string_of body" by metis
  then show ?thesis by (metis bytes_of_string_of)
qed

lemma verified_callback:
  assumes "Server_readAndVerifyProviderCallback s e w r = Inr raw"
  defines "secret \<equiv> strings_TrimSpace (sec_ProviderCallbackSecret (srv_security s))"
    and "ts \<equiv> strings_TrimSpace (rq_Header r ''X-PixRail-Timestamp'')"
  obtains epoch where "raw = rq_Body r" "length raw \<le> 1048576" "secret \<noteq> ''''" "strconv_Atoi ts = Some epoch"
    "\<bar>time_Sub (ae_signatureNow e) (time_Unix epoch)\<bar> \<le> sec_SignatureTolerance (srv_security s)"
    "strings_TrimSpace (rq_Header r ''X-PixRail-Signature'') = providerCallbackSignature secret ts raw"
  using assms
  by (auto simp: Server_readAndVerifyProviderCallback_def read_limited_def Let_def split: if_splits option.splits)

lemma refused_callback:
  "Server_readAndVerifyProviderCallback s e w r = Inl w' \<Longrightarrow> rsp_Status w' \<in> {400, 401}"
  by (auto simp: Server_readAndVerifyProviderCallback_def Let_def split: if_splits option.splits)

text \<open>
  C37 (authentic callbacks).  A settlement callback that has any effect, or any answer but 400, 401
  and 403, comes with a key of the provider role, a body of at most one megabyte, a timestamp
  within the tolerance of the clock, and the signature of exactly this timestamp and this body
  under the configured secret, which is not empty.  No other timestamp and body have the same
  signed text, so that the signature cannot be moved to another callback.
\<close>

theorem callback_authentic:
  assumes dispatch: "ServeMux_Handler routes r = Dispatch (role, RecordSettlement) vs"
    and op: "Server_Handler s e st r = (w, st')"
    and effect: "as_world st' \<noteq> as_world st \<or> rsp_Status w \<notin> {400, 401, 403}"
  defines "secret \<equiv> strings_TrimSpace (sec_ProviderCallbackSecret (srv_security s))"
    and "ts \<equiv> strings_TrimSpace (rq_Header r ''X-PixRail-Timestamp'')"
  shows "authorised s r RoleProvider \<and> secret \<noteq> '''' \<and> length (rq_Body r) \<le> 2 ^ 20 \<and>
    (\<exists>epoch. strconv_Atoi ts = Some epoch \<and>
       \<bar>time_Sub (ae_signatureNow e) (time_Unix epoch)\<bar> \<le> sec_SignatureTolerance (srv_security s)) \<and>
    strings_TrimSpace (rq_Header r ''X-PixRail-Signature'') = providerCallbackSignature secret ts (rq_Body r) \<and>
    (\<forall>ts' body'. strconv_Atoi ts' \<noteq> None \<and> callback_message ts' body' = callback_message ts (rq_Body r) \<longrightarrow>
       ts' = ts \<and> body' = rq_Body r)"
proof -
  obtain ctx w0 st1 where mux: "Server_mux s e st ctx w0 r = (w, st1)" and st': "as_world st' = as_world st1"
    using op by (rule Server_Handler_mux)
  have role: "role = Some RoleProvider" using dispatch_role [OF dispatch] by simp
  obtain key where key: "map_of (srv_keys s) (request_token r) = Some key" "APIKey_HasRole key RoleProvider"
    using mux effect st' by (auto simp: Server_mux_def dispatch role Server_authRole_def split: option.splits if_splits)
  then have auth: "authorised s r RoleProvider" by (simp add: authorised_def)
  have handler: "Server_recordSettlement s e st (ctx\<lparr> ctx_tenant := ak_TenantID key \<rparr>) w0 r vs = (w, st1)"
    using mux by (simp add: Server_mux_def dispatch role Server_authRole_def key)
  obtain raw where "Server_readAndVerifyProviderCallback s e w0 r = Inr raw"
  proof (cases "Server_readAndVerifyProviderCallback s e w0 r")
    case (Inl w')
    then show ?thesis using handler effect st' refused_callback [OF Inl] by (auto simp: Server_recordSettlement_def)
  qed
  from verified_callback [OF this] obtain epoch where v: "raw = rq_Body r" "length raw \<le> 1048576" "secret \<noteq> ''''"
    "strconv_Atoi ts = Some epoch"
    "\<bar>time_Sub (ae_signatureNow e) (time_Unix epoch)\<bar> \<le> sec_SignatureTolerance (srv_security s)"
    "strings_TrimSpace (rq_Header r ''X-PixRail-Signature'') = providerCallbackSignature secret ts raw"
    unfolding secret_def ts_def by blast
  have unique: "\<forall>ts' body'. strconv_Atoi ts' \<noteq> None \<and> callback_message ts' body' = callback_message ts (rq_Body r) \<longrightarrow>
      ts' = ts \<and> body' = rq_Body r"
    using callback_message_inj [OF v(4)] by auto
  have "length (rq_Body r) \<le> 2 ^ 20" using v(1,2) by simp
  with auth v(3-5) v(6) [unfolded v(1)] unique show ?thesis by blast
qed

section \<open>Failed requests\<close>


text \<open>An answer that is an error leaves the store and the counters of decisions and events as they were.\<close>

definition harmless :: "('s, 'l, 'p, 'f) api_state \<Rightarrow> http_response \<times> ('s, 'l, 'p, 'f) api_state \<Rightarrow> bool" where
  "harmless st answer \<longleftrightarrow>
     (400 \<le> rsp_Status (fst answer) \<longrightarrow>
        w_store (as_world (snd answer)) = w_store (as_world st) \<and>
        mt_decisions (as_metrics (snd answer)) = mt_decisions (as_metrics st) \<and>
        mt_events (as_metrics (snd answer)) = mt_events (as_metrics st))"

lemma harmless_same [simp]: "harmless st (w, st)"
  by (simp add: harmless_def)

lemma write_result_harmless:
  assumes "\<And>err w'. outcome = (Inl err, w') \<Longrightarrow> w_store w' = w_store (as_world st)" and "n < 400"
  shows "harmless st (write_result w st n outcome)"
  using assms by (cases outcome) (auto simp: harmless_def write_result_def Let_def split: sum.split)

lemma handler_harmless:
  assumes sv: "svc_store (srv_service s) = memory_store" and inv: "mem_inv (w_store (as_world st))"
    and tn: "endpoint = CreateTransfer \<Longrightarrow> key_text_ok (ctx_tenant ctx)" and ep: "endpoint \<noteq> SubmitToSPI"
  shows "harmless st (endpoint_handler endpoint s e st ctx w r vs)"
proof (cases endpoint)
  case CreateTransfer
  have "w_store w' = w_store (as_world st)"
    if "Service_CreateTransfer (srv_service s) (ae_create e) (as_world st) req = (Inl err, w')" "req_TenantID req = ctx_tenant ctx"
    for w' err req
    using ms.CreateTransfer_outcome [OF sv ms_env_oks(1) inv _ that(1)] tn [OF CreateTransfer] that(2)
    by (simp add: key_text_ok_def)
  then show ?thesis
    by (auto simp: CreateTransfer Server_createTransfer_def split: option.split intro!: write_result_harmless)
next
  case RecordReview
  have "w_store w' = w_store (as_world st)"
    if "Service_RecordReview (srv_service s) (ae_review e) (as_world st) req = (Inl err, w')" for w' err req
    using ms.RecordReview_outcome [OF sv TrueI TrueI inv that] by simp
  then show ?thesis
    by (auto simp: RecordReview Server_recordReview_def split: option.split intro!: write_result_harmless)
next
  case RecordSettlement
  have "w_store w' = w_store (as_world st)"
    if "Service_RecordSettlement (srv_service s) (ae_settle e) (as_world st) cb = (Inl err, w')" for w' err cb
    using ms.RecordSettlement_outcome [OF sv TrueI TrueI inv that] by simp
  then show ?thesis
    by (auto simp: RecordSettlement Server_recordSettlement_def split: sum.split option.split intro!: write_result_harmless)
qed (use ep in \<open>auto simp: harmless_def Server_getTransfer_def Server_outbox_def Server_ready_def Server_health_def
    Server_metricsHandler_def Service_GetTransfer_def Service_Outbox_def Service_Health_def sv memory_store_def
    Let_def split: sum.split option.split\<close>)

text \<open>
  C40 (failed requests).  A request that is answered with an error, for any endpoint but the
  submission to the network, which records the attempt, has changed nothing in the store and
  counted no decision and no event.
\<close>

theorem failed_request_changes_nothing:
  assumes store: "svc_store (srv_service s) = memory_store" and reach: "mem_run NewMemoryStore ls (w_store (as_world st))"
    and keys: "api_keys_ok (srv_keys s)" and op: "Server_Handler s e st r = (w, st')"
    and failed: "400 \<le> rsp_Status w" and endpoint: "\<And>role vs. ServeMux_Handler routes r \<noteq> Dispatch (role, SubmitToSPI) vs"
  shows "w_store (as_world st') = w_store (as_world st) \<and> mt_decisions (as_metrics st') = mt_decisions (as_metrics st) \<and>
    mt_events (as_metrics st') = mt_events (as_metrics st)"
proof -
  have inv: "mem_inv (w_store (as_world st))" using reach by (rule mem_reachable)
  obtain ctx w0 st1 where mux: "Server_mux s e st ctx w0 r = (w, st1)" and st': "as_world st' = as_world st1"
    "mt_decisions (as_metrics st') = mt_decisions (as_metrics st1)" "mt_events (as_metrics st') = mt_events (as_metrics st1)"
    using op by (rule Server_Handler_mux)
  have "harmless st (w, st1)"
  proof (cases "ServeMux_Handler routes r")
    case (Dispatch h vs)
    obtain role ep where h: "h = (role, ep)" by (cases h)
    have ep: "ep \<noteq> SubmitToSPI" using endpoint Dispatch h by blast
    note handler = handler_harmless [OF store inv _ ep]
    show ?thesis
    proof (cases role)
      case None
      then have "ep \<noteq> CreateTransfer" using dispatch_role [OF Dispatch [unfolded h]] by auto
      then show ?thesis using handler [of ctx e w0 r vs] mux by (simp add: Server_mux_def Dispatch h None)
    next
      case (Some ro)
      have tn: "key_text_ok (ak_TenantID key)" if "map_of (srv_keys s) (request_token r) = Some key" for key
        using keys map_of_SomeD [OF that] by (auto simp: api_keys_ok_def api_key_ok_def)
      show ?thesis
      proof (cases "map_of (srv_keys s) (request_token r)")
        case None
        then show ?thesis using mux by (auto simp: Server_mux_def Dispatch h Some Server_authRole_def)
      next
        case key: (Some key)
        show ?thesis
          using mux handler [of "ctx\<lparr> ctx_tenant := ak_TenantID key \<rparr>" e w0 r vs] tn [OF key]
          by (auto simp: Server_mux_def Dispatch h Some Server_authRole_def key split: if_splits)
      qed
    qed
  qed (use mux in \<open>auto simp: Server_mux_def\<close>)
  then show ?thesis using failed st' by (simp add: harmless_def)
qed

section \<open>Idempotency\<close>



section \<open>An example\<close>

text \<open>The application in its development configuration, with decoders that return fixed payloads.\<close>

definition demo_decoders :: json_decoders where
  "demo_decoders =
     \<lparr> jd_create = (\<lambda>_ _. Some \<lparr> cp_AccountID = ''acct_1'', cp_AmountCents = 1000, cp_Currency = ''BRL'',
         cp_ReceiverKey = ''ana@example.com'', cp_ReceiverKeyType = KeyEmail, cp_Description = '''' \<rparr>),
       jd_review = (\<lambda>_ _. Some \<lparr> vp_Decision = ReviewApprove, vp_Reason = '''' \<rparr>),
       jd_settlement = (\<lambda>_. Some \<lparr> sp_SPIMessageID = ''spi_1'', sp_Status = SettlementAccepted, sp_Code = ''ACSC'' \<rparr>) \<rparr>"

definition demo_server :: "('e, 's) Store \<Rightarrow> ('e, 's, app_env, Limiter, unit, int) Server" where
  "demo_server store =
     NewServer (app_NewService id demo_cfg store) dev_keys
       [\<lparr> sec_ProviderCallbackSecret = ''dev-provider-callback-secret'', sec_SignatureTolerance = 5 * minute \<rparr>]
       demo_decoders (\<lambda>d. d) \<lparr> fo_add = (+), fo_zero = 0, fo_fixed6 = show_int \<rparr>"

definition demo_api_env ::
    "'e \<Rightarrow> ('e, app_env) create_env \<Rightarrow> ('e, app_env) submit_env \<Rightarrow> 'e review_env \<Rightarrow> 'e settle_env \<Rightarrow> ('e, app_env) api_env" where
  "demo_api_env e create submit review settle =
     \<lparr> ae_requestStamp = 1, ae_correlationStamp = 1, ae_signatureNow = time_Unix 1700000000, ae_now = 1, ae_elapsed = 1,
       ae_runtime = \<lparr> rt_uptime = (\<lambda>_. ''1''), rt_gomaxprocs = 4, rt_numcpu = 4, rt_goroutines = 8, rt_heap = 1000 \<rparr>,
       ae_store = e, ae_create = create, ae_submit = submit, ae_review = review, ae_settle = settle \<rparr>"

abbreviation demo_mem_env :: "(mem_env, app_env) api_env" where
  "demo_mem_env \<equiv> demo_api_env demo_env demo_create demo_submit demo_review_env demo_settle"

definition demo_state :: "(MemoryStore, Limiter, unit, int) api_state" where
  "demo_state = \<lparr> as_world = demo_world, as_metrics = NewMetrics 0 \<rparr>"

definition demo_http :: "string \<Rightarrow> string list \<Rightarrow> string \<Rightarrow> http_request" where
  "demo_http meth path token =
     \<lparr> rq_Method = meth, rq_RequestURI = plain_path path, rq_EscapedPath = plain_path path, rq_Path = plain_path path,
       rq_Header = (\<lambda>name.
         if name = ''Authorization'' then ''Bearer '' @ token
         else if name = ''Idempotency-Key'' then ''k1''
         else if name = ''X-Correlation-ID'' then ''c1''
         else if name = ''X-PixRail-Timestamp'' then ''1700000000''
         else if name = ''X-PixRail-Signature'' then providerCallbackSignature ''dev-provider-callback-secret'' ''1700000000'' []
         else ''''),
       rq_Body = [], rq_BodyFails = False \<rparr>"

lemma demo_routed:
  assumes "list_all plain_segment path" and "path \<noteq> []" and "mux_match routes meth path = Some (h, vs)"
  shows "ServeMux_Handler routes (demo_http meth path token) = Dispatch h vs"
  by (rule ServeMux_Handler_plain [OF _ _ assms(2,1)]) (use assms(3) in \<open>simp_all add: demo_http_def plain_path_def\<close>)

lemma demo_matches:
  "mux_match routes ''POST'' [''v1'', ''pix'', ''transfers''] = Some ((Some RoleTenant, CreateTransfer), [])"
  "mux_match routes ''GET'' [''v1'', ''pix'', ''transfers'', ''pxt_9''] = Some ((Some RoleTenant, GetTransfer), [''pxt_9''])"
  "mux_match routes ''POST'' [''v1'', ''pix'', ''transfers'', ''pxt_9'', ''spi-callbacks''] =
     Some ((Some RoleProvider, RecordSettlement), [''pxt_9''])"
  by (simp_all add: routes_def)

lemma demo_dispatch:
  "ServeMux_Handler routes (demo_http ''POST'' [''v1'', ''pix'', ''transfers''] token) = Dispatch (Some RoleTenant, CreateTransfer) []"
  "ServeMux_Handler routes (demo_http ''GET'' [''v1'', ''pix'', ''transfers'', ''pxt_9''] token) = Dispatch (Some RoleTenant, GetTransfer) [''pxt_9'']"
  "ServeMux_Handler routes (demo_http ''POST'' [''v1'', ''pix'', ''transfers'', ''pxt_9'', ''spi-callbacks''] token) =
     Dispatch (Some RoleProvider, RecordSettlement) [''pxt_9'']"
  by (simp_all add: demo_routed plain_segment_def demo_matches)

lemma demo_tokens [simp]:
  "request_token (demo_http meth path token) = (if token = '''' then '''' else token)"
  by (simp add: request_token_def demo_http_def strings_TrimPrefix_def Let_def)

lemma demo_server_fields [simp]:
  "srv_keys (demo_server store) = dev_keys" "svc_store (srv_service (demo_server store)) = store"
  "srv_service (demo_server store) = app_NewService id demo_cfg store"
  "srv_decoders (demo_server store) = demo_decoders"
  by (simp_all add: demo_server_def NewServer_def Let_def)

lemma demo_keys_ok: "api_keys_ok (srv_keys (demo_server store))"
  using dev_keys_ok by simp

lemma demo_state_reach: "mem_run NewMemoryStore [] (w_store (as_world demo_state))"
  using demo_reach by (simp add: demo_state_def)

theorem access_control_witness:
  "\<exists>w st'. Server_Handler (demo_server memory_store) demo_mem_env demo_state (demo_http ''POST'' [''v1'', ''pix'', ''transfers''] ''stolen'') = (w, st') \<and>
     rsp_Status w = 401 \<and> as_world st' = as_world demo_state"
proof -
  let ?r = "demo_http ''POST'' [''v1'', ''pix'', ''transfers''] ''stolen''"
  obtain w st' where op: "Server_Handler (demo_server memory_store) demo_mem_env demo_state ?r = (w, st')" by (meson surj_pair)
  have "map_of dev_keys ''stolen'' = None" by code_simp
  then show ?thesis using access_control [OF op] op by (simp add: demo_dispatch authorised_def)
qed

theorem tenant_confinement_witness:
  "\<exists>w st'. Server_Handler (demo_server memory_store) demo_mem_env demo_state (demo_http ''POST'' [''v1'', ''pix'', ''transfers''] ''dev-secret'') = (w, st') \<and>
     confined ''tenant_demo'' (mem_view (w_store (as_world demo_state))) (mem_view (w_store (as_world st'))) \<and>
     body_tenants (rsp_Body w) \<subseteq> {''tenant_demo''}"
proof -
  let ?r = "demo_http ''POST'' [''v1'', ''pix'', ''transfers''] ''dev-secret''"
  obtain w st' where op: "Server_Handler (demo_server memory_store) demo_mem_env demo_state ?r = (w, st')" by (meson surj_pair)
  have "map_of (srv_keys (demo_server memory_store)) (request_token ?r) =
      Some \<lparr> ak_TenantID = ''tenant_demo'', ak_Secret = ''dev-secret'', ak_Roles = roleSet [RoleTenant] \<rparr>"
    by (simp add: dev_keys_def)
  from tenant_confinement [OF _ demo_state_reach demo_keys_ok this op] op show ?thesis by simp
qed

lemma demo_signature: "strings_TrimSpace (providerCallbackSignature secret ts body) = providerCallbackSignature secret ts body"
proof -
  have hex: "visible [hex_digit (unat b div 16)]" "visible [hex_digit (unat b mod 16)]" for b :: byte
    using unsigned_less [of b, where ?'a = nat] by (intro visible_hex; simp)+
  have "\<forall>c \<in> set ''sha256=''. visible [c]" by code_simp
  then have "\<forall>c \<in> set (providerCallbackSignature secret ts body). visible [c]"
    using hex unfolding providerCallbackSignature_def hex_EncodeToString_def hex_byte_def set_append set_concat by auto
  then show ?thesis using trim_visible visible_iff by blast
qed

lemma demo_verified:
  "Server_readAndVerifyProviderCallback (demo_server store) (demo_api_env e create submit review settle) w
     (demo_http meth path token) = Inr []"
proof -
  have fields: "sec_ProviderCallbackSecret (srv_security (demo_server store)) = ''dev-provider-callback-secret''"
    "sec_SignatureTolerance (srv_security (demo_server store)) = 5 * minute"
    by (simp_all add: demo_server_def NewServer_def Let_def minute_def second_def)
  have trim: "strings_TrimSpace ''dev-provider-callback-secret'' = ''dev-provider-callback-secret''"
    "strings_TrimSpace ''1700000000'' = ''1700000000''"
    by code_simp+
  have epoch: "strconv_Atoi ''1700000000'' = Some 1700000000"
    by (simp add: strconv_Atoi_def is_digit_def read_nat_def digit_value_def int64_min_def int64_max_def)
  have sig: "providerCallbackSignature secret ts body \<noteq> ''''" for secret ts body
    by (simp add: providerCallbackSignature_def)
  have delta: "time_Sub (time_Unix n) (time_Unix n) = 0" for n
    by (simp add: time_Sub_def int64_min_def int64_max_def)
  show ?thesis
    by (simp add: Server_readAndVerifyProviderCallback_def Let_def fields trim epoch demo_signature sig delta demo_api_env_def
        demo_http_def read_limited_def minute_def second_def)
qed

text \<open>A genuine callback for a transfer that does not exist: it passes the checks and is answered with 404.\<close>

lemma demo_callback:
  "rsp_Status (fst (Server_Handler (demo_server memory_store) demo_mem_env demo_state
     (demo_http ''POST'' [''v1'', ''pix'', ''transfers'', ''pxt_9'', ''spi-callbacks''] ''provider-secret''))) = 404"
proof -
  have key: "map_of dev_keys ''provider-secret'' =
      Some \<lparr> ak_TenantID = ''tenant_demo'', ak_Secret = ''provider-secret'', ak_Roles = roleSet [RoleProvider] \<rparr>"
    by (simp add: dev_keys_def)
  have role: "APIKey_HasRole \<lparr> ak_TenantID = ''tenant_demo'', ak_Secret = ''provider-secret'', ak_Roles = roleSet [RoleProvider] \<rparr> RoleProvider"
    by (simp add: APIKey_HasRole_def roleSet_def)
  have none: "ms_transfers (w_store demo_world) i = None" for i
    by (simp add: demo_world_def app_world_def NewMemoryStore_def)
  show ?thesis
    by (simp add: Server_Handler_def Let_def Server_mux_def demo_dispatch Server_authRole_def key role split_beta
        Server_recordSettlement_def demo_verified demo_decoders_def write_result_def Service_RecordSettlement_def
        normalize_callback_def PathValue_id_def memory_store_def MemoryStore_GetTransfer_def own_transfer_def
        demo_state_def none handleDomainError_def)
qed

theorem callback_authentic_witness:
  "authorised (demo_server memory_store) (demo_http ''POST'' [''v1'', ''pix'', ''transfers'', ''pxt_9'', ''spi-callbacks''] ''provider-secret'') RoleProvider"
  using callback_authentic [OF demo_dispatch(3) surjective_pairing, of "demo_server memory_store" demo_mem_env demo_state "''provider-secret''"]
    demo_callback by simp

theorem failed_request_changes_nothing_witness:
  "w_store (as_world (snd (Server_Handler (demo_server memory_store) demo_mem_env demo_state
     (demo_http ''POST'' [''v1'', ''pix'', ''transfers'', ''pxt_9'', ''spi-callbacks''] ''provider-secret'')))) = w_store (as_world demo_state)"
  using failed_request_changes_nothing [OF _ demo_state_reach demo_keys_ok surjective_pairing, of memory_store demo_mem_env
      "demo_http ''POST'' [''v1'', ''pix'', ''transfers'', ''pxt_9'', ''spi-callbacks''] ''provider-secret''"]
    demo_callback by (simp add: demo_dispatch)




end
