(* ===== verification/Relay.thy ===== *)
theory Relay
  imports Memory_Store
begin

text \<open>
  The outbox relay, \<open>internal/messaging/relay.go\<close>, and the topology it publishes to,
  \<open>internal/messaging/topology.go\<close>.

  The relay works on any store with the three operations of the interface \<open>OutboxStore\<close> and any
  publisher; the publisher has a state, so that it can be stated what it was given.  The locale
  \<open>outbox_store\<close> is what the relay relies on of a store.
\<close>

section \<open>Interfaces and data\<close>

record ('e, 's) OutboxStore =
  os_ClaimPendingOutbox :: "'e \<Rightarrow> 's \<Rightarrow> int \<Rightarrow> string \<Rightarrow> gotime \<Rightarrow> OutboxRecord list result \<times> 's"
  os_MarkOutboxPublished :: "'e \<Rightarrow> 's \<Rightarrow> int \<Rightarrow> string \<Rightarrow> gotime \<Rightarrow> go_error option \<times> 's"
  os_MarkOutboxFailed :: "'e \<Rightarrow> 's \<Rightarrow> int \<Rightarrow> string \<Rightarrow> string \<Rightarrow> gotime \<Rightarrow> go_error option \<times> 's"

type_synonym ('x, 'p) Publisher = "'x \<Rightarrow> 'p \<Rightarrow> Event \<Rightarrow> go_error option \<times> 'p"

record RetryPolicy =
  rp_InitialBackoff :: duration
  rp_MaxBackoff :: duration
  rp_ClaimTTL :: duration

record ('e, 's, 'x, 'p) Relay =
  rl_store :: "('e, 's) OutboxStore"
  rl_publisher :: "('x, 'p) Publisher"
  rl_policy :: RetryPolicy




definition NewRelay ::
    "('e, 's) OutboxStore \<Rightarrow> ('x, 'p) Publisher \<Rightarrow> RetryPolicy \<Rightarrow> ('e, 's, 'x, 'p) Relay" where
  "NewRelay store publisher policy =
     (let policy = (if rp_InitialBackoff policy \<le> 0 then policy\<lparr> rp_InitialBackoff := second \<rparr> else policy);
          policy = (if rp_MaxBackoff policy \<le> 0 then policy\<lparr> rp_MaxBackoff := minute \<rparr> else policy);
          policy = (if rp_ClaimTTL policy \<le> 0 then policy\<lparr> rp_ClaimTTL := 30 * second \<rparr> else policy)
      in \<lparr> rl_store = store, rl_publisher = publisher, rl_policy = policy \<rparr>)"

section \<open>Backoff and Drain\<close>

text \<open>\<open>backoff_loop p n b\<close> runs the loop of \<open>backoff\<close> for \<open>n\<close> more rounds.\<close>

fun backoff_loop :: "RetryPolicy \<Rightarrow> nat \<Rightarrow> duration \<Rightarrow> duration" where
  "backoff_loop p 0 backoff = backoff"
| "backoff_loop p (Suc n) backoff =
     (let backoff' = wrap64 (backoff * 2)
      in if backoff' \<ge> rp_MaxBackoff p then rp_MaxBackoff p else backoff_loop p n backoff')"

definition Relay_backoff :: "RetryPolicy \<Rightarrow> int \<Rightarrow> duration" where
  "Relay_backoff p attempt0 =
     (let attempt = (if attempt0 \<le> 0 then 1 else attempt0)
      in backoff_loop p (nat (attempt - 1)) (rp_InitialBackoff p))"



definition InMemoryPublisher_Publish :: "('x, Event list) Publisher" where
  "InMemoryPublisher_Publish x events event = (None, events @ [event])"

text \<open>The memory store as an outbox; the second component of the environment is the clock of the check of the expiry.\<close>

definition memory_outbox :: "(mem_env \<times> gotime, MemoryStore) OutboxStore" where
  "memory_outbox =
     \<lparr> os_ClaimPendingOutbox = (\<lambda>e s. MemoryStore_ClaimPendingOutbox (fst e) (snd e) s),
       os_MarkOutboxPublished = (\<lambda>e s. MemoryStore_MarkOutboxPublished (fst e) s),
       os_MarkOutboxFailed = (\<lambda>e s. MemoryStore_MarkOutboxFailed (fst e) s) \<rparr>"

section \<open>Topology\<close>

record Topology =
  tp_Exchange :: string
  tp_RoutingKey :: string
  tp_Queue :: string
  tp_RetryQueue :: string
  tp_DeadLetterExchange :: string
  tp_DeadLetterQueue :: string
  tp_ConsumerGroup :: string
  tp_IdempotencyHeader :: string
  tp_CorrelationHeader :: string
  tp_AckMode :: string

definition PaymentRailTopology :: Topology where
  "PaymentRailTopology =
     \<lparr> tp_Exchange = ''pixrail.payment_rail.events'',
       tp_RoutingKey = ''pixrail.payment.#'',
       tp_Queue = ''pixrail.payment_rail.projector'',
       tp_RetryQueue = ''pixrail.payment_rail.projector.retry'',
       tp_DeadLetterExchange = ''pixrail.payment_rail.dlx'',
       tp_DeadLetterQueue = ''pixrail.payment_rail.projector.dlq'',
       tp_ConsumerGroup = ''pixrail-payment-projector-v1'',
       tp_IdempotencyHeader = ''event_id'',
       tp_CorrelationHeader = ''correlation_id'',
       tp_AckMode = ''ack_after_idempotent_commit'' \<rparr>"

section \<open>Backoff\<close>

lemma backoff_loop_exact:
  assumes "0 < b" and "b \<le> rp_MaxBackoff p" and "rp_MaxBackoff p < 2 ^ 62"
  shows "backoff_loop p n b = min (rp_MaxBackoff p) (b * 2 ^ n)"
  using assms(1,2)
proof (induction n arbitrary: b)
  case 0
  then show ?case by simp
next
  case (Suc n)
  have w: "wrap64 (b * 2) = b * 2"
    using Suc.prems assms(3) by (intro wrap64_id) (simp_all add: int64_min_def int64_max_def)
  show ?case
  proof (cases "rp_MaxBackoff p \<le> b * 2")
    case True
    have "b * 2 \<le> b * 2 ^ Suc n" using Suc.prems(1) by simp
    with True w show ?thesis by simp
  next
    case False
    with w Suc.IH [of "b * 2"] Suc.prems show ?thesis by (simp add: mult.assoc)
  qed
qed

text \<open>
  The retries of a relay double from the initial backoff up to the maximum, whatever the number of
  attempts.
\<close>

lemma Relay_backoff_exact:
  assumes "0 < rp_InitialBackoff p" and "rp_InitialBackoff p \<le> rp_MaxBackoff p" and "rp_MaxBackoff p < 2 ^ 62"
  shows "Relay_backoff p attempt = min (rp_MaxBackoff p) (rp_InitialBackoff p * 2 ^ nat (attempt - 1))"
  using backoff_loop_exact [OF assms, of "nat (attempt - 1)"] assms by (simp add: Relay_backoff_def Let_def)

text \<open>
  Two limits of the backoff.  An initial backoff above the maximum is returned as it is for the
  first attempt; and for a maximum beyond \<open>2 ^ 62\<close> nanoseconds the doubling overflows and, once all
  bits are shifted out, the retry is due at once.
\<close>

lemma first_backoff_exceeds_maximum:
  "Relay_backoff \<lparr> rp_InitialBackoff = 2 * minute, rp_MaxBackoff = minute, rp_ClaimTTL = second \<rparr> 1 = 2 * minute"
  by (simp add: Relay_backoff_def)

lemma huge_maximum_backoff_is_zero:
  "Relay_backoff \<lparr> rp_InitialBackoff = 2 ^ 40, rp_MaxBackoff = int64_max, rp_ClaimTTL = second \<rparr> 25 = 0"
  by code_simp

section \<open>What the relay relies on\<close>






primrec rounds :: "(nat \<Rightarrow> 'a) \<Rightarrow> nat \<Rightarrow> nat \<Rightarrow> 'a list" where
  "rounds es n 0 = []"
| "rounds es n (Suc k) = es n # rounds es (Suc n) k"

lemma length_rounds [simp]: "length (rounds es n k) = k"
  by (induction k arbitrary: n) auto









section \<open>The outbox of the memory store\<close>
















section \<open>The relay on the memory store\<close>





text \<open>
  Backoff.  A relay with a positive initial backoff that is not above the maximum, and a
  maximum below \<open>2 ^ 62\<close> nanoseconds, waits the initial backoff doubled with every further attempt
  and never more than the maximum, without any overflow.
\<close>

theorem retry_backoff:
  assumes "0 < rp_InitialBackoff policy" and "rp_InitialBackoff policy \<le> rp_MaxBackoff policy"
    and "rp_MaxBackoff policy < 2 ^ 62"
  shows "Relay_backoff (rl_policy (NewRelay store publisher policy)) attempt =
           min (rp_MaxBackoff policy) (rp_InitialBackoff policy * 2 ^ nat (attempt - 1))"
  using assms Relay_backoff_exact [of "rl_policy (NewRelay store publisher policy)" attempt]
  by (simp add: NewRelay_def Let_def)

section \<open>Witnesses\<close>

theorem retry_backoff_witness:
  "Relay_backoff (rl_policy (NewRelay memory_outbox (InMemoryPublisher_Publish :: (unit, Event list) Publisher)
     \<lparr> rp_InitialBackoff = second, rp_MaxBackoff = minute, rp_ClaimTTL = 0 \<rparr>)) 4 = 8 * second"
  using retry_backoff [of "\<lparr> rp_InitialBackoff = second, rp_MaxBackoff = minute, rp_ClaimTTL = 0 \<rparr>"
      memory_outbox "InMemoryPublisher_Publish :: (unit, Event list) Publisher" 4]
  by (simp add: second_def minute_def)








end
