(* ===== verification/Codec_Base.thy ===== *)
theory Codec_Base
  imports Go_Prelude
begin

text \<open>
  What the codecs of \<open>internal/codec\<close> share: the payment event of \<open>events.go\<close>, the big-endian
  integers of \<open>encoding/binary\<close>, and the style of the decoders.  A decoder consumes a prefix of
  its input and returns the value with the rest, fails with an error, or panics, as Go does when a
  slice is made with an impossible capacity.

  The interface \<open>Codec\<close> of \<open>json.go\<close> is the locale \<open>codec\<close>; a codec that accepts no truncated and
  no extended encoding is a \<open>framed_codec\<close>.
\<close>

unbundle bit_operations_syntax

section \<open>Events\<close>

record PaymentEvent =
  pe_EventID :: string
  pe_EventType :: string
  pe_TenantID :: string
  pe_AccountID :: string
  pe_TransferID :: string
  pe_CorrelationID :: string
  pe_OccurredAtUnixNano :: int
  pe_AmountCents :: int
  pe_Currency :: string
  pe_ReceiverKeyType :: string
  pe_DecisionReason :: string
  pe_SPIMessageID :: string
  pe_EndToEndID :: string
  pe_FraudScore :: int
  pe_FraudRules :: "string list"

text \<open>The zero value \<open>PaymentEvent{}\<close>; a nil slice of rules is the empty list.\<close>

definition zero_event :: PaymentEvent where
  "zero_event =
     \<lparr> pe_EventID = '''', pe_EventType = '''', pe_TenantID = '''', pe_AccountID = '''', pe_TransferID = '''',
       pe_CorrelationID = '''', pe_OccurredAtUnixNano = 0, pe_AmountCents = 0, pe_Currency = '''',
       pe_ReceiverKeyType = '''', pe_DecisionReason = '''', pe_SPIMessageID = '''', pe_EndToEndID = '''',
       pe_FraudScore = 0, pe_FraudRules = [] \<rparr>"

definition SamplePixTransferRequested :: PaymentEvent where
  "SamplePixTransferRequested =
     \<lparr> pe_EventID = ''evt_20260531_requested_001'', pe_EventType = ''pix_transfer_requested'',
       pe_TenantID = ''tenant_demo'', pe_AccountID = ''acct_123'', pe_TransferID = ''pxt_20260531_001'',
       pe_CorrelationID = ''corr_20260531_001'', pe_OccurredAtUnixNano = 1780228800000000000,
       pe_AmountCents = 12345, pe_Currency = ''BRL'', pe_ReceiverKeyType = ''EMAIL'', pe_DecisionReason = '''',
       pe_SPIMessageID = '''', pe_EndToEndID = '''', pe_FraudScore = 0, pe_FraudRules = [] \<rparr>"

definition SamplePixTransferApproved :: PaymentEvent where
  "SamplePixTransferApproved = SamplePixTransferRequested
     \<lparr> pe_EventID := ''evt_20260531_approved_001'', pe_EventType := ''pix_transfer_approved'',
       pe_DecisionReason := ''risk within payment-rail policy'', pe_SPIMessageID := ''spi_6f0b1abf6b8c2f71'',
       pe_EndToEndID := ''E202605311200006f0b1abf6b8c2f71'' \<rparr>"

definition SamplePixTransferBlocked :: PaymentEvent where
  "SamplePixTransferBlocked = SamplePixTransferRequested
     \<lparr> pe_EventID := ''evt_20260531_blocked_001'', pe_EventType := ''pix_transfer_blocked'',
       pe_DecisionReason := ''receiver risk over payment-rail policy'', pe_FraudScore := 96,
       pe_FraudRules := [''receiver_risk_high'', ''velocity_threshold''] \<rparr>"

definition in_int64 :: "int \<Rightarrow> bool" where
  "in_int64 x \<longleftrightarrow> int64_min \<le> x \<and> x \<le> int64_max"

text \<open>The integer fields of an event are 64-bit integers.\<close>

definition event_typed :: "PaymentEvent \<Rightarrow> bool" where
  "event_typed e \<longleftrightarrow> in_int64 (pe_OccurredAtUnixNano e) \<and> in_int64 (pe_AmountCents e) \<and> in_int64 (pe_FraudScore e)"

definition event_strings :: "PaymentEvent \<Rightarrow> string list" where
  "event_strings e =
     [pe_EventID e, pe_EventType e, pe_TenantID e, pe_AccountID e, pe_TransferID e, pe_CorrelationID e,
      pe_Currency e, pe_ReceiverKeyType e, pe_DecisionReason e, pe_SPIMessageID e, pe_EndToEndID e] @ pe_FraudRules e"

definition paymentEventFieldCount :: int where
  "paymentEventFieldCount = 15"

section \<open>Decoders\<close>

datatype 'a decoded = Decoded 'a | Failed go_error | Panicked

type_synonym 'a decoder = "byte list \<Rightarrow> ('a \<times> byte list) decoded"

abbreviation ErrUnexpectedEOF :: go_error where
  "ErrUnexpectedEOF \<equiv> Sentinel IoErrUnexpectedEOF"

definition dec_return :: "'a \<Rightarrow> 'a decoder" where
  "dec_return x raw = Decoded (x, raw)"

definition dec_fail :: "go_error \<Rightarrow> 'a decoder" where
  "dec_fail err raw = Failed err"

definition dec_bind :: "'a decoder \<Rightarrow> ('a \<Rightarrow> 'b decoder) \<Rightarrow> 'b decoder" where
  "dec_bind d f raw =
     (case d raw of Decoded (x, rest) \<Rightarrow> f x rest | Failed err \<Rightarrow> Failed err | Panicked \<Rightarrow> Panicked)"

text \<open>The first bytes of the input, \<open>raw[:n]\<close> after the check of the length.\<close>

definition take_bytes :: "nat \<Rightarrow> byte list decoder" where
  "take_bytes n raw = (if length raw < n then Failed ErrUnexpectedEOF else Decoded (take n raw, drop n raw))"

definition read_byte :: "byte decoder" where
  "read_byte raw = (case raw of [] \<Rightarrow> Failed ErrUnexpectedEOF | p # rest \<Rightarrow> Decoded (p, rest))"

text \<open>The check at the end of \<open>Unmarshal\<close> that no byte is left.\<close>

definition all_read :: "string \<Rightarrow> 'a decoder \<Rightarrow> byte list \<Rightarrow> 'a decoded" where
  "all_read msg d raw =
     (case d raw of
        Decoded (x, rest) \<Rightarrow>
          if rest \<noteq> [] then Failed (Opaque (msg @ '' trailing bytes '' @ show_int (int (length rest)))) else Decoded x
      | Failed err \<Rightarrow> Failed err
      | Panicked \<Rightarrow> Panicked)"

text \<open>
  \<open>reads d bs x\<close>: the decoder reads the bytes \<open>bs\<close> as \<open>x\<close>, whatever follows.  \<open>extends d\<close>: what the
  decoder accepts does not depend on the bytes behind it.
\<close>

definition reads :: "'a decoder \<Rightarrow> byte list \<Rightarrow> 'a \<Rightarrow> bool" where
  "reads d bs x \<longleftrightarrow> (\<forall>rest. d (bs @ rest) = Decoded (x, rest))"

definition extends :: "'a decoder \<Rightarrow> bool" where
  "extends d \<longleftrightarrow> (\<forall>raw x rest extra. d raw = Decoded (x, rest) \<longrightarrow> d (raw @ extra) = Decoded (x, rest @ extra))"

lemma extendsI:
  "(\<And>raw x rest extra. d raw = Decoded (x, rest) \<Longrightarrow> d (raw @ extra) = Decoded (x, rest @ extra)) \<Longrightarrow> extends d"
  by (simp add: extends_def)

lemma dec_bind_return [simp]: "dec_bind (dec_return x) f = f x"
  by (rule ext) (simp add: dec_bind_def dec_return_def)

lemma reads_return: "reads (dec_return x) [] x"
  by (simp add: reads_def dec_return_def)

lemma reads_bind: "reads d bs x \<Longrightarrow> reads (f x) cs y \<Longrightarrow> reads (dec_bind d f) (bs @ cs) y"
  by (simp add: reads_def dec_bind_def)

lemma reads_then: "reads d bs x \<Longrightarrow> dec_bind d f (bs @ rest) = f x rest"
  by (simp add: reads_def dec_bind_def)

lemma reads_bind_only: "reads d bs x \<Longrightarrow> f x = dec_return y \<Longrightarrow> reads (dec_bind d f) bs y"
  using reads_bind [of d bs x f "[]" y] reads_return [of y] by simp

lemma reads_bytes: "length bs = n \<Longrightarrow> reads (take_bytes n) bs bs"
  by (simp add: reads_def take_bytes_def)

lemma read_byte_Cons [simp]: "dec_bind read_byte f (p # rest) = f p rest"
  by (simp add: dec_bind_def read_byte_def)

lemma extends_byte: "extends read_byte"
  by (auto simp: extends_def read_byte_def split: list.splits)

lemma extends_return: "extends (dec_return x)"
  by (simp add: extends_def dec_return_def)

lemma extends_bind: "extends d \<Longrightarrow> (\<And>x. extends (f x)) \<Longrightarrow> extends (dec_bind d f)"
  by (rule extendsI) (auto simp: extends_def dec_bind_def split: decoded.splits prod.splits)

lemma extends_bytes: "extends (take_bytes n)"
  by (auto simp: extends_def take_bytes_def split: if_splits)

lemma extends_if: "extends d \<Longrightarrow> extends d' \<Longrightarrow> extends (if b then d else d')"
  by simp

lemma extends_fail: "extends (dec_fail err)"
  by (simp add: extends_def dec_fail_def)

lemmas extends_rules = extends_bind extends_return extends_bytes extends_byte extends_if extends_fail

lemma all_read_exact: "reads d bs x \<Longrightarrow> all_read msg d bs = Decoded x"
  unfolding reads_def all_read_def by (drule spec [of _ "[]"]) simp

lemma all_read_trailing: "reads d bs x \<Longrightarrow> extra \<noteq> [] \<Longrightarrow> all_read msg d (bs @ extra) \<noteq> Decoded y"
  by (simp add: reads_def all_read_def)

lemma all_read_truncated:
  assumes "extends d" and "reads d bs x" and "strict_prefix raw bs"
  shows "all_read msg d raw \<noteq> Decoded y"
proof
  assume "all_read msg d raw = Decoded y"
  then have "d raw = Decoded (y, [])" by (auto simp: all_read_def split: decoded.splits prod.splits if_splits)
  moreover obtain extra where extra: "bs = raw @ extra" "extra \<noteq> []" using assms(3) by (auto elim: strict_prefixE')
  ultimately have "d bs = Decoded (y, extra)" using assms(1) by (fastforce simp: extends_def)
  moreover have "d bs = Decoded (x, [])" using assms(2) [unfolded reads_def, rule_format, of "[]"] by simp
  ultimately show False using extra(2) by simp
qed

section \<open>Integers\<close>

text \<open>
  The conversions \<open>uint64(x)\<close> and \<open>int64(u)\<close>, and \<open>AppendUint16\<close> to \<open>Uint64\<close> of \<open>encoding/binary\<close>: \<open>n\<close>
  bytes, the most significant one first.
\<close>

abbreviation to_uint64 :: "int \<Rightarrow> 64 word" where
  "to_uint64 x \<equiv> word_of_int x"

abbreviation to_int64 :: "64 word \<Rightarrow> int" where
  "to_int64 u \<equiv> sint u"

lemma to_int64_to_uint64: "in_int64 x \<Longrightarrow> to_int64 (to_uint64 x) = x"
  by (simp add: in_int64_def int64_min_def int64_max_def sint_sbintrunc' signed_take_bit_int_eq_self_iff)

fun be_append :: "nat \<Rightarrow> 64 word \<Rightarrow> byte list" where
  "be_append 0 v = []"
| "be_append (Suc n) v = ucast (drop_bit (8 * n) v) # be_append n v"

definition be_read :: "byte list \<Rightarrow> 64 word" where
  "be_read bs = foldl (\<lambda>acc b. push_bit 8 acc OR ucast b) 0 bs"

lemma length_be_append [simp]: "length (be_append n v) = n"
  by (induction n) auto

lemma bit_ucast_byte: "bit (ucast (b :: byte) :: 64 word) n \<longleftrightarrow> n < 8 \<and> bit b n"
  by (auto simp: bit_simps dest: bit_imp_le_length)

lemma ucast_ucast_byte: "(ucast (ucast (v :: 64 word) :: byte) :: 64 word) = take_bit 8 v"
  by (rule bit_word_eqI) (auto simp: bit_simps bit_ucast_byte)

lemma be_read_append_acc:
  "n \<le> 8 \<Longrightarrow> foldl (\<lambda>acc b. push_bit 8 acc OR ucast b) acc (be_append n v) = push_bit (8 * n) acc OR take_bit (8 * n) v"
proof (induction n arbitrary: acc)
  case (Suc n)
  have "push_bit (8 * n) (push_bit 8 acc OR ucast (ucast (drop_bit (8 * n) v) :: byte)) OR take_bit (8 * n) v =
      push_bit (8 * n + 8) acc OR take_bit (8 * n + 8) v"
    by (rule bit_word_eqI) (auto simp: bit_simps bit_ucast_byte)
  with Suc show ?case by (simp add: add.commute [of 8])
qed simp

lemma be_read_append: "n \<le> 8 \<Longrightarrow> be_read (be_append n v) = take_bit (8 * n) v"
  by (simp add: be_read_def be_read_append_acc)

lemma take_bit_small: "unat (v :: 64 word) < 2 ^ n \<Longrightarrow> take_bit n v = v"
  by (simp add: word_unat_eq_iff unsigned_take_bit_eq take_bit_nat_eq_self)

lemma length_bytes_of [simp]: "length (bytes_of s) = length s"
  by (simp add: bytes_of_def)

lemma reads_string_body: "reads (dec_bind (take_bytes (length v)) (\<lambda>bs. dec_return (string_of bs))) (bytes_of v) v"
  by (intro reads_bind_only [OF reads_bytes]) simp_all

section \<open>Codecs\<close>

text \<open>A codec gives back every value that it can represent.\<close>

locale codec =
  fixes marshal :: "'a \<Rightarrow> byte list result" and unmarshal :: "byte list \<Rightarrow> 'a decoded" and representable :: "'a \<Rightarrow> bool"
  assumes round_trip: "representable x \<Longrightarrow> \<exists>raw. marshal x = Inr raw \<and> unmarshal raw = Decoded x"
begin

lemma marshal_injective:
  assumes "representable x" and "representable y" and "marshal x = marshal y"
  shows "x = y"
  using round_trip [OF assms(1)] round_trip [OF assms(2)] assms(3) by auto

end

locale framed_codec = codec +
  assumes truncated: "representable x \<Longrightarrow> marshal x = Inr raw \<Longrightarrow> strict_prefix raw' raw \<Longrightarrow> unmarshal raw' \<noteq> Decoded y"
    and trailing: "representable x \<Longrightarrow> marshal x = Inr raw \<Longrightarrow> extra \<noteq> [] \<Longrightarrow> unmarshal (raw @ extra) \<noteq> Decoded y"
begin

lemma only_exact_frame:
  assumes "representable x" and "marshal x = Inr raw" and "prefix raw' raw \<or> prefix raw raw'"
    and "unmarshal raw' = Decoded y"
  shows "raw' = raw \<and> y = x"
proof -
  have "raw' = raw"
    using assms(3)
  proof
    assume "prefix raw' raw"
    then show ?thesis using truncated [OF assms(1,2), of raw' y] assms(4) by (auto simp: strict_prefix_def)
  next
    assume "prefix raw raw'"
    then obtain extra where "raw' = raw @ extra" by (auto elim: prefixE)
    then show ?thesis using trailing [OF assms(1,2), of extra y] assms(4) by auto
  qed
  with round_trip [OF assms(1)] assms(2,4) show ?thesis by auto
qed

end

end
