(* ===== verification/Codec_Proto.thy ===== *)
theory Codec_Proto
  imports Codec_Base
begin

text \<open>
  The protobuf wire codec of payment events, \<open>internal/codec/proto_wire.go\<close>.  An encoder returns
  the bytes that the Go function appends.  The loop of \<open>Unmarshal\<close> runs as long as input is left;
  it is a partial function whose value \<open>None\<close> stands for a loop that never ends, so that its
  termination is a theorem.
\<close>

section \<open>Encoding\<close>

function protoVarintRaw :: "64 word \<Rightarrow> byte list" where
  "protoVarintRaw value =
     (if value \<ge> 0x80 then (ucast value OR 0x80) # protoVarintRaw (drop_bit 7 value) else [ucast value])"
  by auto

lemma drop_bit_7_less: "0x80 \<le> (v :: 64 word) \<Longrightarrow> unat (drop_bit 7 v) < unat v"
  by (simp only: unat_drop_bit_eq) (simp add: drop_bit_eq_div word_le_nat_alt)

termination protoVarintRaw
  by (relation "measure unat") (simp_all add: drop_bit_7_less)

declare protoVarintRaw.simps [simp del]

definition protoString :: "int \<Rightarrow> string \<Rightarrow> byte list" where
  "protoString field value =
     (if value = '''' then []
      else protoVarintRaw (to_uint64 (push_bit 3 field OR 2)) @ protoVarintRaw (of_nat (length value)) @ bytes_of value)"

definition protoVarint :: "int \<Rightarrow> 64 word \<Rightarrow> byte list" where
  "protoVarint field value =
     (if value = 0 then [] else protoVarintRaw (to_uint64 (push_bit 3 field)) @ protoVarintRaw value)"

definition ProtoWireCodec_Marshal :: "PaymentEvent \<Rightarrow> byte list result" where
  "ProtoWireCodec_Marshal event = Inr (
     protoString 1 (pe_EventID event) @
     protoString 2 (pe_EventType event) @
     protoString 3 (pe_TenantID event) @
     protoString 4 (pe_AccountID event) @
     protoString 5 (pe_TransferID event) @
     protoString 6 (pe_CorrelationID event) @
     protoVarint 7 (to_uint64 (pe_OccurredAtUnixNano event)) @
     protoVarint 8 (to_uint64 (pe_AmountCents event)) @
     protoString 9 (pe_Currency event) @
     protoString 10 (pe_ReceiverKeyType event) @
     protoString 11 (pe_DecisionReason event) @
     protoString 12 (pe_SPIMessageID event) @
     protoString 13 (pe_EndToEndID event) @
     protoVarint 14 (to_uint64 (pe_FraudScore event)) @
     concat (map (protoString 15) (pe_FraudRules event)))"

section \<open>Decoding\<close>

text \<open>\<open>read_varint i value raw\<close> is the loop of \<open>readProtoVarint\<close> from index \<open>i\<close>.\<close>

fun read_varint :: "nat \<Rightarrow> 64 word \<Rightarrow> byte list \<Rightarrow> 64 word \<times> int" where
  "read_varint i value [] = (0, -1)"
| "read_varint i value (b # raw) =
     (if i = 10 then (0, -1)
      else (let value' = value OR push_bit (7 * i) (ucast (b AND 0x7f))
            in if b < 0x80 then (value', int i + 1) else read_varint (Suc i) value' raw))"

definition readProtoVarint :: "byte list \<Rightarrow> 64 word \<times> int" where
  "readProtoVarint raw = read_varint 0 0 raw"

definition readProtoString :: "byte list \<Rightarrow> (string \<times> byte list) result" where
  "readProtoString raw =
     (let (len, n) = readProtoVarint raw
      in if n \<le> 0 then Inl ErrUnexpectedEOF
         else (let raw = drop (nat n) raw
               in if length raw < unat len then Inl ErrUnexpectedEOF
                  else if int64_max < uint len then Inl (Opaque ''protobuf string too large'')
                  else Inr (string_of (take (unat len) raw), drop (unat len) raw)))"

text \<open>The two inner \<open>switch\<close> statements; other fields are skipped.\<close>

definition set_varint :: "int \<Rightarrow> 64 word \<Rightarrow> PaymentEvent \<Rightarrow> PaymentEvent" where
  "set_varint field value event =
     (if field = 7 then event\<lparr> pe_OccurredAtUnixNano := to_int64 value \<rparr>
      else if field = 8 then event\<lparr> pe_AmountCents := to_int64 value \<rparr>
      else if field = 14 then event\<lparr> pe_FraudScore := to_int64 value \<rparr>
      else event)"

definition set_string :: "int \<Rightarrow> string \<Rightarrow> PaymentEvent \<Rightarrow> PaymentEvent" where
  "set_string field value event =
     (if field = 1 then event\<lparr> pe_EventID := value \<rparr>
      else if field = 2 then event\<lparr> pe_EventType := value \<rparr>
      else if field = 3 then event\<lparr> pe_TenantID := value \<rparr>
      else if field = 4 then event\<lparr> pe_AccountID := value \<rparr>
      else if field = 5 then event\<lparr> pe_TransferID := value \<rparr>
      else if field = 6 then event\<lparr> pe_CorrelationID := value \<rparr>
      else if field = 9 then event\<lparr> pe_Currency := value \<rparr>
      else if field = 10 then event\<lparr> pe_ReceiverKeyType := value \<rparr>
      else if field = 11 then event\<lparr> pe_DecisionReason := value \<rparr>
      else if field = 12 then event\<lparr> pe_SPIMessageID := value \<rparr>
      else if field = 13 then event\<lparr> pe_EndToEndID := value \<rparr>
      else if field = 15 then event\<lparr> pe_FraudRules := pe_FraudRules event @ [value] \<rparr>
      else event)"

partial_function (option) proto_loop :: "PaymentEvent \<Rightarrow> byte list \<Rightarrow> PaymentEvent decoded option" where
  "proto_loop event raw =
     (if raw = [] then Some (Decoded event)
      else (let (key, n) = readProtoVarint raw
            in if n \<le> 0 then Some (Failed ErrUnexpectedEOF)
               else (let raw = drop (nat n) raw;
                         field = to_int64 (drop_bit 3 key);
                         wireType = key AND 0x7
                     in if wireType = 0 then
                          (let (value, n) = readProtoVarint raw
                           in if n \<le> 0 then Some (Failed ErrUnexpectedEOF)
                              else proto_loop (set_varint field value event) (drop (nat n) raw))
                        else if wireType = 2 then
                          (case readProtoString raw of
                             Inl err \<Rightarrow> Some (Failed err)
                           | Inr (value, rest) \<Rightarrow> proto_loop (set_string field value event) rest)
                        else Some (Failed (Opaque (''unsupported protobuf wire type '' @ show_int (uint wireType)))))))"

declare proto_loop.simps [code]

definition ProtoWireCodec_Unmarshal :: "byte list \<Rightarrow> PaymentEvent decoded option" where
  "ProtoWireCodec_Unmarshal raw = proto_loop zero_event raw"

section \<open>Termination\<close>




section \<open>Varints\<close>

lemma bit_byte_cases: "bit (b :: byte) n \<Longrightarrow> n < 8"
  using bit_imp_le_length [of b n] by simp

lemma high_bits_zero:
  assumes "unat (v :: 64 word) < 2 ^ k" and "bit v n"
  shows "n < k"
  using arg_cong [OF take_bit_small [OF assms(1)], of "\<lambda>w. bit w n"] assms(2) by (simp add: bit_simps)

lemma bit_0x80: "bit (0x80 :: byte) n \<longleftrightarrow> n = 7"
proof -
  have "(0x80 :: byte) = 2 ^ 7" by simp
  then show ?thesis by (simp only: bit_exp_iff) auto
qed

lemma bit_0x7f: "bit (0x7f :: byte) n \<longleftrightarrow> n < 7"
proof -
  have "(0x7f :: byte) = mask 7" by (simp add: mask_eq_exp_minus_1)
  then show ?thesis by (simp only: bit_mask_iff) auto
qed

lemma byte_less_0x80: "(b :: byte) < 0x80 \<longleftrightarrow> \<not> bit b 7"
proof -
  have "bit b 7 \<longleftrightarrow> odd (unat b div 128)" 
    using bit_unsigned_iff [of b 7, where ?'a = nat] by (simp add: bit_iff_odd)
  moreover have "unat b < 256" using unsigned_less [of b, where ?'a = nat] by simp
  then have "unat b div 128 = (if 128 \<le> unat b then 1 else 0)" by (auto simp: div_if)
  then have "odd (unat b div 128) \<longleftrightarrow> 128 \<le> unat b" by simp
  ultimately show ?thesis by (simp add: word_less_nat_alt not_le)
qed

lemma low_septet: "(ucast (((ucast (v :: 64 word) OR 0x80) :: byte) AND 0x7f) :: 64 word) = take_bit 7 v"
proof (rule bit_word_eqI)
  fix n
  show "bit (ucast (((ucast v OR 0x80) :: byte) AND 0x7f) :: 64 word) n \<longleftrightarrow> bit (take_bit 7 v) n"
    unfolding bit_ucast_byte bit_and_iff bit_or_iff bit_0x80 bit_0x7f bit_take_bit_iff by (auto simp: bit_simps)
qed

lemma septets: "push_bit (7 * i) (take_bit 7 v) OR push_bit (7 * Suc i) (drop_bit 7 v) = push_bit (7 * i) (v :: 64 word)"
proof (rule bit_word_eqI)
  fix n
  show "bit (push_bit (7 * i) (take_bit 7 v) OR push_bit (7 * Suc i) (drop_bit 7 v)) n = bit (push_bit (7 * i) v) n"
  proof (cases "7 * i + 7 \<le> n")
    case True
    then have "7 + (n - (7 + 7 * i)) = n - 7 * i" by simp
    with True show ?thesis by (auto simp: bit_simps)
  qed (auto simp: bit_simps)
qed

lemma read_varint_raw:
  assumes "i \<le> 9" and "unat v < 2 ^ (64 - 7 * i)"
  shows "read_varint i acc (protoVarintRaw v @ rest) =
     (acc OR push_bit (7 * i) v, int i + int (length (protoVarintRaw v)))"
  using assms
proof (induction v arbitrary: i acc rule: protoVarintRaw.induct)
  case (1 v)
  show ?case
  proof (cases "0x80 \<le> v")
    case True
    have big: "\<not> ((ucast v OR 0x80) :: byte) < 0x80" by (simp add: byte_less_0x80 bit_simps bit_0x80)
    have i: "Suc i \<le> 9"
    proof (rule ccontr)
      assume "\<not> Suc i \<le> 9"
      with 1(2) have "i = 9" by simp
      with 1(3) True show False by (simp add: word_le_nat_alt)
    qed
    have "64 - 7 * i = (64 - 7 * Suc i) + 7" using i by simp
    then have "2 ^ (64 - 7 * i) = 2 ^ (64 - 7 * Suc i) * (2 :: nat) ^ 7" by (simp only: power_add)
    with 1(3) have small: "unat (drop_bit 7 v) < 2 ^ (64 - 7 * Suc i)"
      by (simp only: unat_drop_bit_eq) (simp add: drop_bit_eq_div less_mult_imp_div_less)
    show ?thesis
      using 1(1) [OF True i small] True big 1(2) i
      by (simp add: protoVarintRaw.simps [of v] low_septet Let_def or.assoc septets [simplified])
  next
    case False
    then have "unat v < 2 ^ 7" by (simp add: word_le_nat_alt)
    then have bits: "bit v n \<Longrightarrow> n < 7" for n using high_bits_zero by blast
    have "((ucast v) :: byte) < 0x80" using bits by (auto simp: byte_less_0x80 bit_simps)
    moreover have "ucast (((ucast v) :: byte) AND 0x7f) = v"
    proof (rule bit_word_eqI)
      fix n
      show "bit (ucast (((ucast v) :: byte) AND 0x7f) :: 64 word) n \<longleftrightarrow> bit v n"
        unfolding bit_ucast_byte bit_and_iff bit_0x7f using bits [of n] by (auto simp: bit_simps)
    qed
    ultimately show ?thesis using False 1(2) by (simp add: protoVarintRaw.simps [of v] Let_def)
  qed
qed

lemma readProtoVarint_raw: "readProtoVarint (protoVarintRaw v @ rest) = (v, int (length (protoVarintRaw v)))"
  using read_varint_raw [of 0 v 0 rest] unsigned_less [of v, where ?'a = nat] by (simp add: readProtoVarint_def)

section \<open>The fields of an encoding are read back\<close>

text \<open>The tags of the fifteen fields, for both wire types.\<close>

lemma field_tag:
  assumes "field \<in> set [1..15]"
  shows "to_int64 (drop_bit 3 (to_uint64 (push_bit 3 field OR 2))) = field \<and> to_uint64 (push_bit 3 field OR 2) AND 7 = 2 \<and>
     to_int64 (drop_bit 3 (to_uint64 (push_bit 3 field))) = field \<and> to_uint64 (push_bit 3 field) AND 7 = 0"
proof -
  have "field \<in> {1, 2, 3, 4, 5, 6, 7, 8, 9, 10, 11, 12, 13, 14, 15}"
    using assms by (simp add: upto.simps del: set_upto)
  then show ?thesis
    by (elim insertE emptyE) simp_all
qed

lemma protoVarintRaw_not_Nil [simp]: "protoVarintRaw v \<noteq> []"
  by (simp add: protoVarintRaw.simps [of v])

lemma varint_length_pos [simp]: "\<not> int (length (protoVarintRaw v)) \<le> 0"
  by simp

lemma readProtoString_raw:
  assumes "int (length v) \<le> int64_max"
  shows "readProtoString (protoVarintRaw (of_nat (length v)) @ bytes_of v @ rest) = Inr (v, rest)"
proof -
  have "unat (of_nat (length v) :: 64 word) = length v"
    using assms by (simp add: unat_of_nat int64_max_def)
  then show ?thesis
    using assms by (simp add: readProtoString_def readProtoVarint_raw uint_nat)
qed

text \<open>One turn of the loop on a field; an empty string and a zero are not written at all.\<close>

definition put_string :: "int \<Rightarrow> string \<Rightarrow> PaymentEvent \<Rightarrow> PaymentEvent" where
  "put_string field v event = (if v = '''' then event else set_string field v event)"

definition put_varint :: "int \<Rightarrow> 64 word \<Rightarrow> PaymentEvent \<Rightarrow> PaymentEvent" where
  "put_varint field v event = (if v = 0 then event else set_varint field v event)"

lemma proto_loop_string:
  assumes "field \<in> set [1..15]" and "int (length v) \<le> int64_max"
  shows "proto_loop event (protoString field v @ rest) = proto_loop (put_string field v event) rest"
proof (cases "v = ''''")
  case False
  have "proto_loop event (protoVarintRaw (to_uint64 (push_bit 3 field OR 2)) @ protoVarintRaw (of_nat (length v)) @ bytes_of v @ rest) =
      proto_loop (set_string field v event) rest"
    using field_tag [OF assms(1)]
    by (subst proto_loop.simps) (simp add: readProtoVarint_raw readProtoString_raw [OF assms(2)] Let_def)
  with False show ?thesis by (simp add: protoString_def put_string_def)
qed (simp add: protoString_def put_string_def)

lemma proto_loop_varint:
  assumes "field \<in> set [1..15]"
  shows "proto_loop event (protoVarint field v @ rest) = proto_loop (put_varint field v event) rest"
proof (cases "v = 0")
  case False
  have "proto_loop event (protoVarintRaw (to_uint64 (push_bit 3 field)) @ protoVarintRaw v @ rest) =
      proto_loop (set_varint field v event) rest"
    using field_tag [OF assms(1)]
    by (subst proto_loop.simps) (simp add: readProtoVarint_raw Let_def)
  with False show ?thesis by (simp add: protoVarint_def put_varint_def)
qed (simp add: protoVarint_def put_varint_def)

lemma proto_loop_rules:
  "\<forall>v \<in> set rules. int (length v) \<le> int64_max \<Longrightarrow>
   proto_loop event (concat (map (protoString 15) rules)) =
     Some (Decoded (event\<lparr> pe_FraudRules := pe_FraudRules event @ filter (\<lambda>v. v \<noteq> '''') rules \<rparr>))"
proof (induction rules arbitrary: event)
  case Nil
  show ?case by (subst proto_loop.simps) simp
next
  case (Cons v rules)
  then show ?case
    by (simp add: proto_loop_string put_string_def set_string_def)
qed

text \<open>
  An event that a Go value can be, with strings no longer than a length can say, and what of it is
  written: an empty rule is not.
\<close>

definition proto_fits :: "PaymentEvent \<Rightarrow> bool" where
  "proto_fits e \<longleftrightarrow> event_typed e \<and> (\<forall>v \<in> set (event_strings e). int (length v) \<le> int64_max)"

definition proto_written :: "PaymentEvent \<Rightarrow> PaymentEvent" where
  "proto_written e = e\<lparr> pe_FraudRules := filter (\<lambda>v. v \<noteq> '''') (pe_FraudRules e) \<rparr>"

definition proto_ok :: "PaymentEvent \<Rightarrow> bool" where
  "proto_ok e \<longleftrightarrow> proto_fits e \<and> '''' \<notin> set (pe_FraudRules e)"

lemma proto_written_same: "proto_written e = e \<longleftrightarrow> '''' \<notin> set (pe_FraudRules e)"
proof -
  have "filter (\<lambda>v. v \<noteq> '''') (pe_FraudRules e) = pe_FraudRules e \<longleftrightarrow> '''' \<notin> set (pe_FraudRules e)"
    by (auto simp: filter_id_conv)
  then show ?thesis by (cases e) (simp add: proto_written_def)
qed

text \<open>Writing a field into an event that still has its zero value there.\<close>

lemma put_string_fields:
  "pe_EventID e = '''' \<Longrightarrow> put_string 1 v e = e\<lparr> pe_EventID := v \<rparr>"
  "pe_EventType e = '''' \<Longrightarrow> put_string 2 v e = e\<lparr> pe_EventType := v \<rparr>"
  "pe_TenantID e = '''' \<Longrightarrow> put_string 3 v e = e\<lparr> pe_TenantID := v \<rparr>"
  "pe_AccountID e = '''' \<Longrightarrow> put_string 4 v e = e\<lparr> pe_AccountID := v \<rparr>"
  "pe_TransferID e = '''' \<Longrightarrow> put_string 5 v e = e\<lparr> pe_TransferID := v \<rparr>"
  "pe_CorrelationID e = '''' \<Longrightarrow> put_string 6 v e = e\<lparr> pe_CorrelationID := v \<rparr>"
  "pe_Currency e = '''' \<Longrightarrow> put_string 9 v e = e\<lparr> pe_Currency := v \<rparr>"
  "pe_ReceiverKeyType e = '''' \<Longrightarrow> put_string 10 v e = e\<lparr> pe_ReceiverKeyType := v \<rparr>"
  "pe_DecisionReason e = '''' \<Longrightarrow> put_string 11 v e = e\<lparr> pe_DecisionReason := v \<rparr>"
  "pe_SPIMessageID e = '''' \<Longrightarrow> put_string 12 v e = e\<lparr> pe_SPIMessageID := v \<rparr>"
  "pe_EndToEndID e = '''' \<Longrightarrow> put_string 13 v e = e\<lparr> pe_EndToEndID := v \<rparr>"
  by (simp_all add: put_string_def set_string_def)

lemma put_varint_fields:
  "pe_OccurredAtUnixNano e = 0 \<Longrightarrow> put_varint 7 v e = e\<lparr> pe_OccurredAtUnixNano := to_int64 v \<rparr>"
  "pe_AmountCents e = 0 \<Longrightarrow> put_varint 8 v e = e\<lparr> pe_AmountCents := to_int64 v \<rparr>"
  "pe_FraudScore e = 0 \<Longrightarrow> put_varint 14 v e = e\<lparr> pe_FraudScore := to_int64 v \<rparr>"
  by (simp_all add: put_varint_def set_varint_def)

lemma proto_decodes:
  assumes "proto_fits e" and "ProtoWireCodec_Marshal e = Inr raw"
  shows "ProtoWireCodec_Unmarshal raw = Some (Decoded (proto_written e))"
proof -
  have len: "int (length v) \<le> int64_max" if "v \<in> set (event_strings e)" for v
    using that assms(1) by (simp add: proto_fits_def)
  have rules: "\<forall>v \<in> set (pe_FraudRules e). int (length v) \<le> int64_max"
    using assms(1) by (auto simp: proto_fits_def event_strings_def)
  have ints: "to_int64 (to_uint64 (pe_OccurredAtUnixNano e)) = pe_OccurredAtUnixNano e"
    "to_int64 (to_uint64 (pe_AmountCents e)) = pe_AmountCents e" "to_int64 (to_uint64 (pe_FraudScore e)) = pe_FraudScore e"
    using assms(1) by (auto simp: proto_fits_def event_typed_def intro!: to_int64_to_uint64)
  from assms(2) have raw: "raw = protoString 1 (pe_EventID e) @ protoString 2 (pe_EventType e) @
     protoString 3 (pe_TenantID e) @ protoString 4 (pe_AccountID e) @ protoString 5 (pe_TransferID e) @
     protoString 6 (pe_CorrelationID e) @ protoVarint 7 (to_uint64 (pe_OccurredAtUnixNano e)) @
     protoVarint 8 (to_uint64 (pe_AmountCents e)) @ protoString 9 (pe_Currency e) @ protoString 10 (pe_ReceiverKeyType e) @
     protoString 11 (pe_DecisionReason e) @ protoString 12 (pe_SPIMessageID e) @ protoString 13 (pe_EndToEndID e) @
     protoVarint 14 (to_uint64 (pe_FraudScore e)) @ concat (map (protoString 15) (pe_FraudRules e))"
    by (simp add: ProtoWireCodec_Marshal_def)
  show ?thesis
    unfolding raw ProtoWireCodec_Unmarshal_def
    by (simp add: proto_loop_string proto_loop_varint proto_loop_rules [OF rules] len event_strings_def zero_event_def
        put_string_fields put_varint_fields ints proto_written_def)
qed

text \<open>The result of the loop, for the interface; \<open>proto_loop_returns\<close> shows that there always is one.\<close>

definition proto_result :: "byte list \<Rightarrow> PaymentEvent decoded" where
  "proto_result raw = (case ProtoWireCodec_Unmarshal raw of Some r \<Rightarrow> r | None \<Rightarrow> Panicked)"

interpretation pw: codec ProtoWireCodec_Marshal proto_result proto_ok
  by unfold_locales (auto simp: proto_result_def proto_ok_def proto_decodes proto_written_same [THEN iffD2] ProtoWireCodec_Marshal_def)

text \<open>
  C31 (protobuf).  Every event that Go can hold (64-bit numbers, string lengths that are an \<open>int\<close>)
  is encoded without error; the decoder ends on the encoding and returns the event without its
  empty rules.  So exactly the events without empty rules come back as they were, and two events
  with the same encoding differ in empty rules only.
\<close>

theorem proto_round_trip:
  assumes "proto_fits e"
  shows "\<exists>raw. ProtoWireCodec_Marshal e = Inr raw \<and> ProtoWireCodec_Unmarshal raw = Some (Decoded (proto_written e)) \<and>
    (ProtoWireCodec_Unmarshal raw = Some (Decoded e) \<longleftrightarrow> '''' \<notin> set (pe_FraudRules e)) \<and>
    (\<forall>e'. proto_fits e' \<and> ProtoWireCodec_Marshal e' = Inr raw \<longrightarrow> proto_written e' = proto_written e)"
proof -
  obtain raw where raw: "ProtoWireCodec_Marshal e = Inr raw" by (simp add: ProtoWireCodec_Marshal_def)
  with proto_decodes [OF assms raw] proto_decodes show ?thesis by (auto simp: proto_written_same)
qed

theorem proto_round_trip_witness:
  "\<exists>raw. ProtoWireCodec_Marshal SamplePixTransferBlocked = Inr raw \<and>
     ProtoWireCodec_Unmarshal raw = Some (Decoded SamplePixTransferBlocked)"
proof -
  have "proto_fits SamplePixTransferBlocked" "'''' \<notin> set (pe_FraudRules SamplePixTransferBlocked)"
    by (auto simp: proto_fits_def event_typed_def event_strings_def in_int64_def int64_min_def int64_max_def
        SamplePixTransferBlocked_def SamplePixTransferRequested_def)
  with proto_round_trip [of SamplePixTransferBlocked] show ?thesis by blast
qed


text \<open>An empty rule is not written, so that an event with one does not come back as it was.\<close>

lemma proto_drops_empty_rule:
  "(case ProtoWireCodec_Marshal (zero_event\<lparr> pe_FraudRules := ['''', ''r''] \<rparr>) of
      Inr raw \<Rightarrow> ProtoWireCodec_Unmarshal raw | Inl _ \<Rightarrow> None) = Some (Decoded (zero_event\<lparr> pe_FraudRules := [''r''] \<rparr>))"
  using proto_loop_rules [of "[''r'']" zero_event]
  by (simp add: ProtoWireCodec_Marshal_def ProtoWireCodec_Unmarshal_def zero_event_def protoString_def protoVarint_def
      int64_max_def)

end
