(* ===== verification/Codec_MsgPack.thy ===== *)
theory Codec_MsgPack
  imports Codec_Base
begin

text \<open>
  The MessagePack codec of payment events, \<open>internal/codec/msgpack.go\<close>.  An encoder returns the
  bytes that the Go function appends.
\<close>

section \<open>Encoding\<close>

definition msgPackString :: "string \<Rightarrow> byte list" where
  "msgPackString value =
     (if length value \<le> 31 then (0xa0 OR of_nat (length value)) # bytes_of value
      else [0xda, of_nat (length value div 256), of_nat (length value)] @ bytes_of value)"

definition msgPackInt64 :: "int \<Rightarrow> byte list" where
  "msgPackInt64 value =
     (if 0 \<le> value \<and> value \<le> 127 then [of_int value] else 0xd3 # be_append 8 (to_uint64 value))"

definition msgPackStringArray :: "string list \<Rightarrow> byte list" where
  "msgPackStringArray values =
     (if length values \<le> 15 then [0x90 OR of_nat (length values)]
      else [0xdc, of_nat (length values div 256), of_nat (length values)]) @ concat (map msgPackString values)"

definition MsgPackCodec_Marshal :: "PaymentEvent \<Rightarrow> byte list result" where
  "MsgPackCodec_Marshal event = Inr (
     [0xdc, 0x00, of_int paymentEventFieldCount] @
     msgPackString (pe_EventID event) @
     msgPackString (pe_EventType event) @
     msgPackString (pe_TenantID event) @
     msgPackString (pe_AccountID event) @
     msgPackString (pe_TransferID event) @
     msgPackString (pe_CorrelationID event) @
     msgPackInt64 (pe_OccurredAtUnixNano event) @
     msgPackInt64 (pe_AmountCents event) @
     msgPackString (pe_Currency event) @
     msgPackString (pe_ReceiverKeyType event) @
     msgPackString (pe_DecisionReason event) @
     msgPackString (pe_SPIMessageID event) @
     msgPackString (pe_EndToEndID event) @
     msgPackInt64 (pe_FraudScore event) @
     msgPackStringArray (pe_FraudRules event))"

section \<open>Decoding\<close>

text \<open>The verb \<open>%x\<close> of \<open>fmt\<close> on a byte, which prints no leading zero.\<close>

definition show_hex :: "byte \<Rightarrow> string" where
  "show_hex p = (if unat p < 16 then [hex_digit (unat p)] else hex_byte p)"

definition uint16_length :: "nat decoder" where
  "uint16_length = dec_bind (take_bytes 2) (\<lambda>bs. dec_return (unat (be_read bs)))"

definition msgPackReader_readArrayLen :: "nat decoder" where
  "msgPackReader_readArrayLen =
     dec_bind read_byte (\<lambda>p.
       if 0x90 \<le> p \<and> p \<le> 0x9f then dec_return (unat (p AND 0x0f))
       else if p = 0xdc then uint16_length
       else dec_fail (Opaque (''unsupported msgpack array prefix 0x'' @ show_hex p)))"

definition msgPackReader_readString :: "string decoder" where
  "msgPackReader_readString =
     dec_bind read_byte (\<lambda>p.
       dec_bind
        (if 0xa0 \<le> p \<and> p \<le> 0xbf then dec_return (unat (p AND 0x1f))
         else if p = 0xda then uint16_length
         else dec_fail (Opaque (''unsupported msgpack string prefix 0x'' @ show_hex p)))
       (\<lambda>len. dec_bind (take_bytes len) (\<lambda>bs. dec_return (string_of bs))))"

definition msgPackReader_readInt64 :: "int decoder" where
  "msgPackReader_readInt64 =
     dec_bind read_byte (\<lambda>p.
       if p \<le> 0x7f then dec_return (uint p)
       else if p \<noteq> 0xd3 then dec_fail (Opaque (''unsupported msgpack int prefix 0x'' @ show_hex p))
       else dec_bind (take_bytes 8) (\<lambda>bs. dec_return (to_int64 (be_read bs))))"

text \<open>The loop of \<open>readStringArray\<close>; a capacity of at most 65535 is always granted.\<close>

fun read_strings :: "nat \<Rightarrow> string list decoder" where
  "read_strings 0 = dec_return []"
| "read_strings (Suc n) =
     dec_bind msgPackReader_readString (\<lambda>v. dec_bind (read_strings n) (\<lambda>vs. dec_return (v # vs)))"

definition msgPackReader_readStringArray :: "string list decoder" where
  "msgPackReader_readStringArray = dec_bind msgPackReader_readArrayLen read_strings"

definition msgpack_event :: "PaymentEvent decoder" where
  "msgpack_event =
     dec_bind msgPackReader_readArrayLen (\<lambda>count.
       if int count \<noteq> paymentEventFieldCount then dec_fail (Opaque (''msgpack field count '' @ show_int (int count)))
       else
     dec_bind msgPackReader_readString (\<lambda>EventID.
     dec_bind msgPackReader_readString (\<lambda>eventType.
     dec_bind msgPackReader_readString (\<lambda>TenantID.
     dec_bind msgPackReader_readString (\<lambda>AccountID.
     dec_bind msgPackReader_readString (\<lambda>TransferID.
     dec_bind msgPackReader_readString (\<lambda>CorrelationID.
     dec_bind msgPackReader_readInt64 (\<lambda>OccurredAtUnixNano.
     dec_bind msgPackReader_readInt64 (\<lambda>AmountCents.
     dec_bind msgPackReader_readString (\<lambda>Currency.
     dec_bind msgPackReader_readString (\<lambda>ReceiverKeyType.
     dec_bind msgPackReader_readString (\<lambda>DecisionReason.
     dec_bind msgPackReader_readString (\<lambda>SPIMessageID.
     dec_bind msgPackReader_readString (\<lambda>EndToEndID.
     dec_bind msgPackReader_readInt64 (\<lambda>score.
     dec_bind msgPackReader_readStringArray (\<lambda>FraudRules.
     dec_return \<lparr> pe_EventID = EventID, pe_EventType = eventType, pe_TenantID = TenantID, pe_AccountID = AccountID,
       pe_TransferID = TransferID, pe_CorrelationID = CorrelationID, pe_OccurredAtUnixNano = OccurredAtUnixNano,
       pe_AmountCents = AmountCents, pe_Currency = Currency, pe_ReceiverKeyType = ReceiverKeyType,
       pe_DecisionReason = DecisionReason, pe_SPIMessageID = SPIMessageID, pe_EndToEndID = EndToEndID,
       pe_FraudScore = score, pe_FraudRules = FraudRules \<rparr>))))))))))))))))"

definition MsgPackCodec_Unmarshal :: "byte list \<Rightarrow> PaymentEvent decoded" where
  "MsgPackCodec_Unmarshal = all_read ''msgpack'' msgpack_event"

section \<open>The parts of an encoding are read back\<close>

lemma small_length:
  assumes "n \<le> m" and "\<forall>k \<in> set [0..<Suc m]. P k"
  shows "P n"
  using assms by (metis atLeastLessThan_iff le_imp_less_Suc set_upt zero_le)

text \<open>The prefixes of short strings, short arrays and small integers, for each length.\<close>

lemma string_prefix:
  assumes "n \<le> 31"
  shows "0xa0 \<le> (0xa0 OR of_nat n :: byte) \<and> (0xa0 OR of_nat n :: byte) \<le> 0xbf \<and> unat ((0xa0 OR of_nat n :: byte) AND 0x1f) = n"
  by (rule small_length [OF assms]) code_simp

lemma array_prefix:
  assumes "n \<le> 15"
  shows "0x90 \<le> (0x90 OR of_nat n :: byte) \<and> (0x90 OR of_nat n :: byte) \<le> 0x9f \<and> unat ((0x90 OR of_nat n :: byte) AND 0x0f) = n"
  by (rule small_length [OF assms]) code_simp

lemma int_prefix:
  assumes "n \<le> 127"
  shows "(of_nat n :: byte) \<le> 0x7f \<and> unat (of_nat n :: byte) = n"
  by (rule small_length [OF assms]) code_simp

lemma ucast_of_nat_byte: "(ucast (of_nat n :: 64 word) :: byte) = of_nat n"
  by (rule bit_word_eqI) (simp add: bit_simps)

lemma ucast_div256: "(ucast (drop_bit 8 (of_nat n :: 64 word)) :: byte) = of_nat (n div 256)"
proof -
  have "n div 256 = drop_bit 8 n" by (simp add: drop_bit_eq_div)
  then show ?thesis by (intro bit_word_eqI) (simp add: bit_simps)
qed

lemma reads_uint16:
  assumes "n < 65536"
  shows "reads uint16_length [of_nat (n div 256), of_nat n] n"
proof -
  have "be_append 2 (of_nat n) = [of_nat (n div 256), of_nat n]"
    using ucast_div256 [of n] by (simp add: numeral_2_eq_2 ucast_of_nat_byte)
  moreover have "unat (take_bit (8 * 2) (of_nat n :: 64 word)) = n"
    using assms by (subst take_bit_small) (simp_all add: unat_of_nat)
  ultimately have "unat (be_read [of_nat (n div 256), of_nat n]) = n"
    using be_read_append [of 2 "of_nat n"] by simp
  then show ?thesis
    unfolding uint16_length_def by (intro reads_bind_only [OF reads_bytes]) simp_all
qed

lemma reads_string:
  assumes "length v < 65536"
  shows "reads msgPackReader_readString (msgPackString v) v"
proof (cases "length v \<le> 31")
  case True
  then show ?thesis
    using string_prefix [OF True] reads_string_body [of v]
    by (simp add: reads_def msgPackString_def msgPackReader_readString_def)
next
  case False
  then show ?thesis
    using reads_string_body [of v]
    by (simp add: reads_def msgPackString_def msgPackReader_readString_def
        reads_then [OF reads_uint16 [OF assms], simplified])
qed

lemma reads_int64:
  assumes "in_int64 v"
  shows "reads msgPackReader_readInt64 (msgPackInt64 v) v"
proof (cases "0 \<le> v \<and> v \<le> 127")
  case True
  have "(of_nat (nat v) :: byte) \<le> 0x7f \<and> unat (of_nat (nat v) :: byte) = nat v"
    using True by (intro int_prefix) linarith
  then have "(of_int v :: byte) \<le> 0x7f" "uint (of_int v :: byte) = v"
    using True by (simp_all add: uint_nat)
  then show ?thesis
    unfolding msgPackInt64_def if_P [OF True] by (simp add: msgPackReader_readInt64_def reads_def dec_return_def)
next
  case False
  have "reads (dec_bind (take_bytes 8) (\<lambda>bs. dec_return (to_int64 (be_read bs)))) (be_append 8 (to_uint64 v)) v"
    using be_read_append [of 8 "to_uint64 v"] to_int64_to_uint64 [OF assms] take_bit_length_eq [of "to_uint64 v"]
    by (intro reads_bind_only [OF reads_bytes]) simp_all
  then show ?thesis
    unfolding msgPackInt64_def if_not_P [OF False] by (simp add: msgPackReader_readInt64_def reads_def)
qed

lemma reads_strings:
  "\<forall>v \<in> set vs. length v < 65536 \<Longrightarrow> reads (read_strings (length vs)) (concat (map msgPackString vs)) vs"
proof (induction vs)
  case (Cons v vs)
  then have "reads (dec_bind (read_strings (length vs)) (\<lambda>ws. dec_return (v # ws))) (concat (map msgPackString vs)) (v # vs)"
    by (intro reads_bind_only) auto
  with Cons show ?case by (auto intro: reads_bind reads_string)
qed (simp add: reads_return)

lemma reads_array_len:
  assumes "n < 65536"
  shows "reads msgPackReader_readArrayLen [0xdc, of_nat (n div 256), of_nat n] n"
    and "n \<le> 15 \<Longrightarrow> reads msgPackReader_readArrayLen [0x90 OR of_nat n] n"
  using reads_uint16 [OF assms] array_prefix [of n]
  by (simp_all add: msgPackReader_readArrayLen_def reads_def dec_return_def)

lemma reads_string_array:
  assumes "length vs < 65536" and "\<forall>v \<in> set vs. length v < 65536"
  shows "reads msgPackReader_readStringArray (msgPackStringArray vs) vs"
  using reads_array_len(1) [OF assms(1)] reads_array_len(2) [OF assms(1)] reads_strings [OF assms(2)]
  by (auto simp: msgPackReader_readStringArray_def msgPackStringArray_def reads_def dec_bind_def)

definition msgpack_ok :: "PaymentEvent \<Rightarrow> bool" where
  "msgpack_ok e \<longleftrightarrow> event_typed e \<and> (\<forall>v \<in> set (event_strings e). length v < 65536) \<and> length (pe_FraudRules e) < 65536"

lemma reads_event:
  assumes "msgpack_ok e" and "MsgPackCodec_Marshal e = Inr raw"
  shows "reads msgpack_event raw e"
proof -
  have strings: "reads msgPackReader_readString (msgPackString v) v" if "v \<in> set (event_strings e)" for v
    using that assms(1) by (intro reads_string) (simp add: msgpack_ok_def)
  have ints: "reads msgPackReader_readInt64 (msgPackInt64 (pe_OccurredAtUnixNano e)) (pe_OccurredAtUnixNano e)"
    "reads msgPackReader_readInt64 (msgPackInt64 (pe_AmountCents e)) (pe_AmountCents e)"
    "reads msgPackReader_readInt64 (msgPackInt64 (pe_FraudScore e)) (pe_FraudScore e)"
    using assms(1) by (simp_all add: msgpack_ok_def event_typed_def reads_int64)
  have rules: "reads msgPackReader_readStringArray (msgPackStringArray (pe_FraudRules e)) (pe_FraudRules e)"
    using assms(1) by (intro reads_string_array) (auto simp: msgpack_ok_def event_strings_def)
  have count: "reads msgPackReader_readArrayLen [0xdc, 0x00, of_int paymentEventFieldCount] 15"
    using reads_array_len(1) [of 15] by (simp add: paymentEventFieldCount_def)
  note parts = reads_then [OF count] reads_then [OF strings] reads_then [OF ints(1)] reads_then [OF ints(2)]
    reads_then [OF ints(3)] reads_then [OF rules]
  from assms(2) have raw: "raw =
     [0xdc, 0x00, of_int paymentEventFieldCount] @
     msgPackString (pe_EventID e) @ msgPackString (pe_EventType e) @ msgPackString (pe_TenantID e) @
     msgPackString (pe_AccountID e) @ msgPackString (pe_TransferID e) @ msgPackString (pe_CorrelationID e) @
     msgPackInt64 (pe_OccurredAtUnixNano e) @ msgPackInt64 (pe_AmountCents e) @ msgPackString (pe_Currency e) @
     msgPackString (pe_ReceiverKeyType e) @ msgPackString (pe_DecisionReason e) @ msgPackString (pe_SPIMessageID e) @
     msgPackString (pe_EndToEndID e) @ msgPackInt64 (pe_FraudScore e) @ msgPackStringArray (pe_FraudRules e)"
    by (simp add: MsgPackCodec_Marshal_def)
  show ?thesis
    unfolding reads_def raw msgpack_event_def append_assoc parts(1)
    by (simp add: parts(2-) event_strings_def dec_return_def paymentEventFieldCount_def)
qed

section \<open>Framing\<close>

lemma extends_array_len: "extends msgPackReader_readArrayLen"
  unfolding msgPackReader_readArrayLen_def uint16_length_def by (intro extends_rules)

lemma extends_string: "extends msgPackReader_readString"
  unfolding msgPackReader_readString_def uint16_length_def by (intro extends_rules)

lemma extends_int64: "extends msgPackReader_readInt64"
  unfolding msgPackReader_readInt64_def by (intro extends_rules)

lemma extends_strings: "extends (read_strings n)"
  by (induction n) (auto intro!: extends_rules extends_string)

lemma extends_string_array: "extends msgPackReader_readStringArray"
  unfolding msgPackReader_readStringArray_def by (intro extends_rules extends_array_len extends_strings)

lemmas extends_msgpack = extends_rules extends_array_len extends_string extends_int64 extends_string_array

lemma extends_event: "extends msgpack_event"
  unfolding msgpack_event_def by (intro extends_msgpack)

interpretation mp: framed_codec MsgPackCodec_Marshal MsgPackCodec_Unmarshal msgpack_ok
proof unfold_locales
  fix e
  assume "msgpack_ok e"
  then show "\<exists>raw. MsgPackCodec_Marshal e = Inr raw \<and> MsgPackCodec_Unmarshal raw = Decoded e"
    using all_read_exact [OF reads_event]
    by (auto simp: MsgPackCodec_Unmarshal_def MsgPackCodec_Marshal_def)
next
  fix e raw raw' y
  assume "msgpack_ok e" "MsgPackCodec_Marshal e = Inr raw" "strict_prefix raw' raw"
  then show "MsgPackCodec_Unmarshal raw' \<noteq> Decoded y"
    using all_read_truncated [OF extends_event reads_event] by (simp add: MsgPackCodec_Unmarshal_def)
next
  fix e y and raw extra :: "byte list"
  assume "msgpack_ok e" "MsgPackCodec_Marshal e = Inr raw" "extra \<noteq> []"
  then show "MsgPackCodec_Unmarshal (raw @ extra) \<noteq> Decoded y"
    using all_read_trailing [OF reads_event] by (simp add: MsgPackCodec_Unmarshal_def)
qed

text \<open>
  C29 (MessagePack).  An event whose strings and whose list of rules are shorter than 65536 is
  encoded without error and decoded to the same event.  Of the inputs that are a prefix of the
  encoding or extend it, the encoding itself is the only one that is accepted: a truncated message
  and one with trailing bytes are rejected.
\<close>

theorem msgpack_round_trip:
  assumes "msgpack_ok e"
  shows "\<exists>raw. MsgPackCodec_Marshal e = Inr raw \<and> MsgPackCodec_Unmarshal raw = Decoded e \<and>
    (\<forall>raw' y. (prefix raw' raw \<or> prefix raw raw') \<and> MsgPackCodec_Unmarshal raw' = Decoded y \<longrightarrow> raw' = raw)"
  using mp.round_trip [OF assms] mp.only_exact_frame [OF assms] by blast

theorem msgpack_round_trip_witness:
  "\<exists>raw. MsgPackCodec_Marshal SamplePixTransferBlocked = Inr raw \<and>
     MsgPackCodec_Unmarshal raw = Decoded SamplePixTransferBlocked"
  using msgpack_round_trip [of SamplePixTransferBlocked]
  by (auto simp: msgpack_ok_def event_typed_def event_strings_def in_int64_def int64_min_def int64_max_def
      SamplePixTransferBlocked_def SamplePixTransferRequested_def)

text \<open>
  Beyond the bound the 16-bit length wraps and the encoder does not notice: a string of 65536
  bytes is announced as empty, and the event cannot be read back.
\<close>

lemma msgpack_long_string:
  assumes "length v = 65536" and "v = CHR ''a'' # w" and "pe_EventID e = v" and "MsgPackCodec_Marshal e = Inr raw"
  shows "MsgPackCodec_Unmarshal raw = Failed (Opaque ''unsupported msgpack string prefix 0x61'')"
proof -
  have count: "reads msgPackReader_readArrayLen [0xdc, 0x00, of_int paymentEventFieldCount] 15"
    using reads_array_len(1) [of 15] by (simp add: paymentEventFieldCount_def)
  have empty: "dec_bind msgPackReader_readString f ([0xda, 0, 0] @ rest) = f '''' rest" for f :: "string \<Rightarrow> 'a decoder" and rest
    by (rule reads_then) (simp add: reads_def msgPackReader_readString_def reads_then [OF reads_uint16 [of 0], simplified]
        dec_bind_def [of "take_bytes _"] take_bytes_def dec_return_def string_of_def)
  have hex: "show_hex 0x61 = ''61''" by code_simp
  have "msgPackReader_readString (0x61 # rest) = Failed (Opaque ''unsupported msgpack string prefix 0x61'')" for rest
    by (simp add: msgPackReader_readString_def dec_fail_def dec_bind_def [of "dec_fail _"] hex)
  then have bad: "dec_bind msgPackReader_readString f (0x61 # rest) = Failed (Opaque ''unsupported msgpack string prefix 0x61'')"
    for f :: "string \<Rightarrow> 'a decoder" and rest
    by (simp add: dec_bind_def [of msgPackReader_readString])
  have "msgPackString v = [0xda, 0, 0] @ (0x61 # bytes_of w)"
    using assms(1) by (simp add: msgPackString_def assms(2) bytes_of_def)
  then obtain rest where raw: "raw = [0xdc, 0x00, of_int paymentEventFieldCount] @ [0xda, 0, 0] @ (0x61 # rest)"
    using assms(3,4) that by (auto simp: MsgPackCodec_Marshal_def)
  have "msgpack_event raw = Failed (Opaque ''unsupported msgpack string prefix 0x61'')"
    unfolding msgpack_event_def raw reads_then [OF count]
    by (simp add: paymentEventFieldCount_def) (simp only: empty [simplified] bad)
  then show ?thesis by (simp add: MsgPackCodec_Unmarshal_def all_read_def)
qed

end
