(* ===== verification/Codec_CBOR.thy ===== *)
theory Codec_CBOR
  imports Codec_Base
begin

text \<open>
  The CBOR codec of payment events, \<open>internal/codec/cbor.go\<close>.  An encoder returns the bytes that
  the Go function appends.  \<open>max_cap\<close> is the largest capacity with which the runtime makes a slice
  of strings; \<open>make\<close> panics for a negative or a larger one.
\<close>

section \<open>Encoding\<close>

definition cborMajor :: "byte \<Rightarrow> 64 word \<Rightarrow> byte list" where
  "cborMajor major value =
     (let prefix = push_bit 5 major
      in if value < 24 then [prefix OR ucast value]
         else if value \<le> 0xff then [prefix OR 24, ucast value]
         else if value \<le> 0xffff then [prefix OR 25, ucast (drop_bit 8 value), ucast value]
         else if value \<le> 0xffffffff then (prefix OR 26) # be_append 4 value
         else (prefix OR 27) # be_append 8 value)"

definition cborArray :: "int \<Rightarrow> byte list" where
  "cborArray len = cborMajor 4 (to_uint64 len)"

definition cborText :: "string \<Rightarrow> byte list" where
  "cborText value = cborMajor 3 (of_nat (length value)) @ bytes_of value"

definition cborUint :: "64 word \<Rightarrow> byte list" where
  "cborUint value = cborMajor 0 value"

definition CBORCodec_Marshal :: "PaymentEvent \<Rightarrow> byte list result" where
  "CBORCodec_Marshal event = Inr (
     cborArray paymentEventFieldCount @
     cborText (pe_EventID event) @
     cborText (pe_EventType event) @
     cborText (pe_TenantID event) @
     cborText (pe_AccountID event) @
     cborText (pe_TransferID event) @
     cborText (pe_CorrelationID event) @
     cborUint (to_uint64 (pe_OccurredAtUnixNano event)) @
     cborUint (to_uint64 (pe_AmountCents event)) @
     cborText (pe_Currency event) @
     cborText (pe_ReceiverKeyType event) @
     cborText (pe_DecisionReason event) @
     cborText (pe_SPIMessageID event) @
     cborText (pe_EndToEndID event) @
     cborUint (to_uint64 (pe_FraudScore event)) @
     cborArray (int (length (pe_FraudRules event))) @
     concat (map cborText (pe_FraudRules event)))"

section \<open>Decoding\<close>

definition read_uint :: "nat \<Rightarrow> 64 word decoder" where
  "read_uint n = dec_bind (take_bytes n) (\<lambda>bs. dec_return (be_read bs))"

definition cborReader_readHead :: "(byte \<times> 64 word) decoder" where
  "cborReader_readHead =
     dec_bind read_byte (\<lambda>head.
       let major = drop_bit 5 head; additional = head AND 0x1f;
           with_major = (\<lambda>value. dec_return (major, value))
       in if additional = 24 then dec_bind (read_uint 1) with_major
          else if additional = 25 then dec_bind (read_uint 2) with_major
          else if additional = 26 then dec_bind (read_uint 4) with_major
          else if additional = 27 then dec_bind (read_uint 8) with_major
          else if additional < 24 then dec_return (major, ucast additional)
          else dec_fail (Opaque (''unsupported cbor additional info '' @ show_int (uint additional))))"

definition cborReader_readArrayLen :: "int decoder" where
  "cborReader_readArrayLen =
     dec_bind cborReader_readHead (\<lambda>(major, value).
       if major \<noteq> 4 then dec_fail (Opaque (''expected cbor array, got major '' @ show_int (uint major))) else dec_return (to_int64 value))"

definition cborReader_readText :: "string decoder" where
  "cborReader_readText =
     dec_bind cborReader_readHead (\<lambda>(major, value).
       if major \<noteq> 3 then dec_fail (Opaque (''expected cbor text, got major '' @ show_int (uint major)))
       else dec_bind (take_bytes (unat value)) (\<lambda>bs. dec_return (string_of bs)))"

definition cborReader_readUint :: "64 word decoder" where
  "cborReader_readUint =
     dec_bind cborReader_readHead (\<lambda>(major, value).
       if major \<noteq> 0 then dec_fail (Opaque (''expected cbor uint, got major '' @ show_int (uint major))) else dec_return value)"

fun read_texts :: "nat \<Rightarrow> string list decoder" where
  "read_texts 0 = dec_return []"
| "read_texts (Suc n) =
     dec_bind cborReader_readText (\<lambda>v. dec_bind (read_texts n) (\<lambda>vs. dec_return (v # vs)))"

definition dec_panic :: "'a decoder" where
  "dec_panic raw = Panicked"

definition cborReader_readTextArray :: "int \<Rightarrow> string list decoder" where
  "cborReader_readTextArray max_cap =
     dec_bind cborReader_readArrayLen (\<lambda>len.
       if len < 0 \<or> max_cap < len then dec_panic else read_texts (nat len))"

definition cbor_event :: "int \<Rightarrow> PaymentEvent decoder" where
  "cbor_event max_cap =
     dec_bind cborReader_readArrayLen (\<lambda>count.
       if count \<noteq> paymentEventFieldCount then dec_fail (Opaque (''cbor field count '' @ show_int count))
       else
     dec_bind cborReader_readText (\<lambda>EventID.
     dec_bind cborReader_readText (\<lambda>eventType.
     dec_bind cborReader_readText (\<lambda>TenantID.
     dec_bind cborReader_readText (\<lambda>AccountID.
     dec_bind cborReader_readText (\<lambda>TransferID.
     dec_bind cborReader_readText (\<lambda>CorrelationID.
     dec_bind cborReader_readUint (\<lambda>occurredAt.
     dec_bind cborReader_readUint (\<lambda>amount.
     dec_bind cborReader_readText (\<lambda>Currency.
     dec_bind cborReader_readText (\<lambda>ReceiverKeyType.
     dec_bind cborReader_readText (\<lambda>DecisionReason.
     dec_bind cborReader_readText (\<lambda>SPIMessageID.
     dec_bind cborReader_readText (\<lambda>EndToEndID.
     dec_bind cborReader_readUint (\<lambda>score.
     dec_bind (cborReader_readTextArray max_cap) (\<lambda>FraudRules.
     dec_return \<lparr> pe_EventID = EventID, pe_EventType = eventType, pe_TenantID = TenantID, pe_AccountID = AccountID,
       pe_TransferID = TransferID, pe_CorrelationID = CorrelationID, pe_OccurredAtUnixNano = to_int64 occurredAt,
       pe_AmountCents = to_int64 amount, pe_Currency = Currency, pe_ReceiverKeyType = ReceiverKeyType,
       pe_DecisionReason = DecisionReason, pe_SPIMessageID = SPIMessageID, pe_EndToEndID = EndToEndID,
       pe_FraudScore = to_int64 score, pe_FraudRules = FraudRules \<rparr>))))))))))))))))"

definition CBORCodec_Unmarshal :: "int \<Rightarrow> byte list \<Rightarrow> PaymentEvent decoded" where
  "CBORCodec_Unmarshal max_cap = all_read ''cbor'' (cbor_event max_cap)"

section \<open>The parts of an encoding are read back\<close>

lemma reads_uint: "n \<le> 8 \<Longrightarrow> unat v < 2 ^ (8 * n) \<Longrightarrow> reads (read_uint n) (be_append n v) v"
  unfolding read_uint_def by (rule reads_bind_only [OF reads_bytes]) (simp_all add: be_read_append take_bit_small)

text \<open>The head byte packs a major type below 8 and five bits of additional information.\<close>

lemma head_fields:
  assumes "major < (8 :: byte)" and "additional < (32 :: byte)"
  shows "drop_bit 5 (push_bit 5 major OR additional) = major" and "(push_bit 5 major OR additional) AND 0x1f = additional"
proof -
  have m: "take_bit 3 major = major" and a: "take_bit 5 additional = additional"
    using assms by (simp_all add: word_less_nat_alt word_unat_eq_iff unsigned_take_bit_eq take_bit_nat_eq_self)
  have bits: "bit major n \<Longrightarrow> n < 3" "bit additional n \<Longrightarrow> n < 5" for n
    using arg_cong [OF m, of "\<lambda>w. bit w n"] arg_cong [OF a, of "\<lambda>w. bit w n"] by (simp_all add: bit_simps)
  have mask: "(0x1f :: byte) = mask 5" by (simp add: mask_eq_exp_minus_1)
  show "drop_bit 5 (push_bit 5 major OR additional) = major"
    by (rule bit_word_eqI) (use bits in \<open>auto simp: bit_simps\<close>)
  show "(push_bit 5 major OR additional) AND 0x1f = additional"
    unfolding mask by (rule bit_word_eqI) (use bits in \<open>auto simp: bit_simps\<close>)
qed

lemma reads_head:
  assumes "major < 8"
  shows "reads cborReader_readHead (cborMajor major v) (major, v)"
proof -
  note head = head_fields [OF assms]
  have tail: "dec_bind (read_uint n) (\<lambda>value. dec_return (major, value)) (be_append n v @ rest) = Decoded ((major, v), rest)"
    if "n \<le> 8" "unat v < 2 ^ (8 * n)" for n rest
    by (simp add: reads_then [OF reads_uint [OF that]] dec_return_def)
  consider (small) "v < 24" | (one) "\<not> v < 24" "v \<le> 0xff" | (two) "\<not> v < 24" "\<not> v \<le> 0xff" "v \<le> 0xffff"
    | (four) "\<not> v < 24" "\<not> v \<le> 0xff" "\<not> v \<le> 0xffff" "v \<le> 0xffffffff"
    | (eight) "\<not> v < 24" "\<not> v \<le> 0xff" "\<not> v \<le> 0xffff" "\<not> v \<le> 0xffffffff" by blast
  then show ?thesis
  proof cases
    case small
    let ?a = "ucast v :: byte"
    have "unat v < 24" using small by (simp add: word_less_nat_alt)
    then have v: "ucast ?a = v" using take_bit_small [of v 8] by (simp add: ucast_ucast_byte)
    have "unat ?a = unat v" using \<open>unat v < 24\<close> by (simp add: unsigned_ucast_eq take_bit_nat_eq_self)
    with \<open>unat v < 24\<close> have a: "?a < 24" "?a < 32" by (simp_all add: word_less_nat_alt)
    then have "?a \<noteq> 24" "?a \<noteq> 25" "?a \<noteq> 26" "?a \<noteq> 27" by auto
    with head [OF a(2)] a(1) v small show ?thesis
      by (simp add: reads_def cborReader_readHead_def cborMajor_def Let_def dec_return_def)
  next
    case one
    then have "unat v < 2 ^ (8 * 1)" by (simp add: word_le_nat_alt)
    with one tail [of 1] head [of 24] show ?thesis
      by (simp add: reads_def cborReader_readHead_def cborMajor_def Let_def)
  next
    case two
    then have "unat v < 2 ^ (8 * 2)" by (simp add: word_le_nat_alt)
    moreover have "be_append 2 v = [ucast (drop_bit 8 v), ucast v]" by (simp add: numeral_2_eq_2)
    ultimately show ?thesis using two tail [of 2] head [of 25]
      by (simp add: reads_def cborReader_readHead_def cborMajor_def Let_def)
  next
    case four
    then have "unat v < 2 ^ (8 * 4)" by (simp add: word_le_nat_alt)
    with four tail [of 4] head [of 26] show ?thesis
      by (simp add: reads_def cborReader_readHead_def cborMajor_def Let_def)
  next
    case eight
    have "unat v < 2 ^ (8 * 8)" using unsigned_less [of v, where ?'a = nat] by simp
    with eight tail [of 8] head [of 27] show ?thesis
      by (simp add: reads_def cborReader_readHead_def cborMajor_def Let_def)
  qed
qed

lemma reads_text:
  assumes "int (length v) \<le> int64_max"
  shows "reads cborReader_readText (cborText v) v"
proof -
  have "unat (of_nat (length v) :: 64 word) = length v"
    using assms by (simp add: unat_of_nat int64_max_def)
  then show ?thesis
    using reads_string_body [of v]
    by (simp add: reads_def cborText_def cborReader_readText_def reads_then [OF reads_head])
qed

lemma reads_cbor_uint: "reads cborReader_readUint (cborUint v) v"
  by (simp add: reads_def cborUint_def cborReader_readUint_def reads_then [OF reads_head] dec_return_def)

lemma reads_cbor_array_len:
  assumes "in_int64 n"
  shows "reads cborReader_readArrayLen (cborArray n) n"
  using to_int64_to_uint64 [OF assms]
  by (simp add: reads_def cborArray_def cborReader_readArrayLen_def reads_then [OF reads_head] dec_return_def)

lemma reads_texts:
  "\<forall>v \<in> set vs. int (length v) \<le> int64_max \<Longrightarrow> reads (read_texts (length vs)) (concat (map cborText vs)) vs"
proof (induction vs)
  case (Cons v vs)
  then have "reads (dec_bind (read_texts (length vs)) (\<lambda>ws. dec_return (v # ws))) (concat (map cborText vs)) (v # vs)"
    by (intro reads_bind_only) auto
  with Cons show ?case by (auto intro: reads_bind reads_text)
qed (simp add: reads_return)

lemma reads_text_array:
  assumes "int (length vs) \<le> max_cap" and "int (length vs) \<le> int64_max" and "\<forall>v \<in> set vs. int (length v) \<le> int64_max"
  shows "reads (cborReader_readTextArray max_cap) (cborArray (int (length vs)) @ concat (map cborText vs)) vs"
proof -
  have "in_int64 (int (length vs))" using assms(2) by (simp add: in_int64_def int64_min_def)
  then show ?thesis
    unfolding reads_def cborReader_readTextArray_def append_assoc reads_then [OF reads_cbor_array_len]
    using assms(1) reads_texts [OF assms(3)] by (simp add: reads_def reads_then [OF reads_cbor_array_len])
qed

text \<open>What a Go event can hold, and a list of rules for which a slice can be made.\<close>

definition cbor_ok :: "int \<Rightarrow> PaymentEvent \<Rightarrow> bool" where
  "cbor_ok max_cap e \<longleftrightarrow> event_typed e \<and> (\<forall>v \<in> set (event_strings e). int (length v) \<le> int64_max) \<and>
     int (length (pe_FraudRules e)) \<le> int64_max \<and> int (length (pe_FraudRules e)) \<le> max_cap"

lemma reads_cbor_event:
  assumes "cbor_ok max_cap e" and "CBORCodec_Marshal e = Inr raw"
  shows "reads (cbor_event max_cap) raw e"
proof -
  have texts: "reads cborReader_readText (cborText v) v" if "v \<in> set (event_strings e)" for v
    using that assms(1) by (intro reads_text) (simp add: cbor_ok_def)
  have rules: "reads (cborReader_readTextArray max_cap)
      (cborArray (int (length (pe_FraudRules e))) @ concat (map cborText (pe_FraudRules e))) (pe_FraudRules e)"
    using assms(1) by (intro reads_text_array) (auto simp: cbor_ok_def event_strings_def)
  have ints: "to_int64 (to_uint64 (pe_OccurredAtUnixNano e)) = pe_OccurredAtUnixNano e"
    "to_int64 (to_uint64 (pe_AmountCents e)) = pe_AmountCents e" "to_int64 (to_uint64 (pe_FraudScore e)) = pe_FraudScore e"
    using assms(1) by (auto simp: cbor_ok_def event_typed_def intro!: to_int64_to_uint64)
  have count: "reads cborReader_readArrayLen (cborArray paymentEventFieldCount) paymentEventFieldCount"
    by (rule reads_cbor_array_len) (simp add: in_int64_def int64_min_def int64_max_def paymentEventFieldCount_def)
  note parts = reads_then [OF texts] reads_then [OF reads_cbor_uint] reads_then [OF rules, unfolded append_assoc]
  from assms(2) have raw: "raw =
     cborArray paymentEventFieldCount @
     cborText (pe_EventID e) @ cborText (pe_EventType e) @ cborText (pe_TenantID e) @ cborText (pe_AccountID e) @
     cborText (pe_TransferID e) @ cborText (pe_CorrelationID e) @
     cborUint (to_uint64 (pe_OccurredAtUnixNano e)) @ cborUint (to_uint64 (pe_AmountCents e)) @
     cborText (pe_Currency e) @ cborText (pe_ReceiverKeyType e) @ cborText (pe_DecisionReason e) @
     cborText (pe_SPIMessageID e) @ cborText (pe_EndToEndID e) @ cborUint (to_uint64 (pe_FraudScore e)) @
     cborArray (int (length (pe_FraudRules e))) @ concat (map cborText (pe_FraudRules e))"
    by (simp add: CBORCodec_Marshal_def)
  show ?thesis
    unfolding reads_def raw cbor_event_def append_assoc reads_then [OF count]
    by (simp add: parts ints event_strings_def dec_return_def)
qed

section \<open>Framing\<close>

lemma extends_panic: "extends dec_panic"
  by (simp add: extends_def dec_panic_def)

lemma extends_head: "extends cborReader_readHead"
  unfolding cborReader_readHead_def read_uint_def Let_def by (intro extends_rules)

lemma extends_text: "extends cborReader_readText"
  unfolding cborReader_readText_def split_beta by (intro extends_rules extends_head)

lemma extends_uint: "extends cborReader_readUint"
  unfolding cborReader_readUint_def split_beta by (intro extends_rules extends_head)

lemma extends_cbor_array_len: "extends cborReader_readArrayLen"
  unfolding cborReader_readArrayLen_def split_beta by (intro extends_rules extends_head)

lemma extends_texts: "extends (read_texts n)"
  by (induction n) (auto intro!: extends_rules extends_text)

lemma extends_text_array: "extends (cborReader_readTextArray max_cap)"
  unfolding cborReader_readTextArray_def by (intro extends_rules extends_cbor_array_len extends_texts extends_panic)

lemmas extends_cbor = extends_rules extends_text extends_uint extends_cbor_array_len extends_text_array

lemma extends_cbor_event: "extends (cbor_event max_cap)"
  unfolding cbor_event_def by (intro extends_cbor)

interpretation cb: framed_codec CBORCodec_Marshal "CBORCodec_Unmarshal max_cap" "cbor_ok max_cap" for max_cap :: int
proof unfold_locales
  fix e
  assume "cbor_ok max_cap e"
  then show "\<exists>raw. CBORCodec_Marshal e = Inr raw \<and> CBORCodec_Unmarshal max_cap raw = Decoded e"
    using all_read_exact [OF reads_cbor_event] by (auto simp: CBORCodec_Unmarshal_def CBORCodec_Marshal_def)
next
  fix e raw raw' y
  assume "cbor_ok max_cap e" "CBORCodec_Marshal e = Inr raw" "strict_prefix raw' raw"
  then show "CBORCodec_Unmarshal max_cap raw' \<noteq> Decoded y"
    using all_read_truncated [OF extends_cbor_event reads_cbor_event] by (simp add: CBORCodec_Unmarshal_def)
next
  fix e y and raw extra :: "byte list"
  assume "cbor_ok max_cap e" "CBORCodec_Marshal e = Inr raw" "extra \<noteq> []"
  then show "CBORCodec_Unmarshal max_cap (raw @ extra) \<noteq> Decoded y"
    using all_read_trailing [OF reads_cbor_event] by (simp add: CBORCodec_Unmarshal_def)
qed

text \<open>
  C30 (CBOR).  An event for whose list of rules a slice can be made is encoded without error and
  decoded to the same event, negative amounts included, whatever the lengths of its strings.  Of
  the inputs that are a prefix of the encoding or extend it, the encoding itself is the only one
  that is accepted.
\<close>

theorem cbor_round_trip:
  assumes "cbor_ok max_cap e"
  shows "\<exists>raw. CBORCodec_Marshal e = Inr raw \<and> CBORCodec_Unmarshal max_cap raw = Decoded e \<and>
    (\<forall>raw' y. (prefix raw' raw \<or> prefix raw raw') \<and> CBORCodec_Unmarshal max_cap raw' = Decoded y \<longrightarrow> raw' = raw)"
  using cb.round_trip [OF assms] cb.only_exact_frame [OF assms] by blast

theorem cbor_round_trip_witness:
  "\<exists>raw. CBORCodec_Marshal SamplePixTransferBlocked = Inr raw \<and>
     CBORCodec_Unmarshal 1000 raw = Decoded SamplePixTransferBlocked"
  using cbor_round_trip [of 1000 SamplePixTransferBlocked]
  by (auto simp: cbor_ok_def event_typed_def event_strings_def in_int64_def int64_min_def int64_max_def
      SamplePixTransferBlocked_def SamplePixTransferRequested_def)

text \<open>
  An input of 24 bytes that announces a list of \<open>2 ^ 64 - 1\<close> rules is not rejected: the length
  becomes -1 and \<open>make\<close> panics.
\<close>

lemma cbor_huge_list_panics:
  "CBORCodec_Unmarshal (2 ^ 40)
     ([0x8f] @ replicate 6 0x60 @ [0, 0] @ replicate 5 0x60 @ [0, 0x9b] @ replicate 8 0xff) = Panicked"
  by code_simp

end
