(* ===== verification/Codec_Cache.thy ===== *)
theory Codec_Cache
  imports Codec_MsgPack Codec_CBOR
begin

text \<open>
  The two codecs of cached participant profiles, \<open>internal/codec/cache.go\<close>, on top of the readers
  and writers of the payment event codecs.
\<close>

section \<open>Profiles\<close>

record ParticipantProfileCache =
  pp_ReceiverID :: string
  pp_BankISPB :: string
  pp_Name :: string
  pp_RiskSignal :: int
  pp_ResolvedAtUnixNano :: int
  pp_ExpiresAtUnixNano :: int

definition participantProfileFieldCount :: int where
  "participantProfileFieldCount = 6"

abbreviation invalid_profile :: "string \<Rightarrow> go_error" where
  "invalid_profile what \<equiv> Suffixed (Sentinel ErrInvalidParticipantProfileCache) what"

definition validateParticipantProfileCache :: "ParticipantProfileCache \<Rightarrow> go_error option" where
  "validateParticipantProfileCache profile =
     (if pp_ReceiverID profile = '''' then Some (invalid_profile ''receiver_id is required'')
      else if pp_BankISPB profile = '''' then Some (invalid_profile ''bank_ispb is required'')
      else if pp_RiskSignal profile < 0 then Some (invalid_profile ''risk_signal must be non-negative'')
      else if pp_ResolvedAtUnixNano profile < 0 then Some (invalid_profile ''resolved_at_unix_nano must be non-negative'')
      else if pp_ExpiresAtUnixNano profile \<le> 0 then Some (invalid_profile ''expires_at_unix_nano is required'')
      else if pp_ExpiresAtUnixNano profile \<le> pp_ResolvedAtUnixNano profile then
        Some (invalid_profile ''expires_at_unix_nano must be after resolved_at_unix_nano'')
      else None)"

definition SampleParticipantProfileCache :: ParticipantProfileCache where
  "SampleParticipantProfileCache =
     \<lparr> pp_ReceiverID = ''dict_receiver_123'', pp_BankISPB = ''10000000'', pp_Name = ''Recebedor PixRail'',
       pp_RiskSignal = 12, pp_ResolvedAtUnixNano = 1780228800000000000, pp_ExpiresAtUnixNano = 1780232400000000000 \<rparr>"

section \<open>MessagePack\<close>

definition ParticipantProfileMsgPackCodec_Marshal :: "ParticipantProfileCache \<Rightarrow> byte list result" where
  "ParticipantProfileMsgPackCodec_Marshal profile =
     (case validateParticipantProfileCache profile of
        Some err \<Rightarrow> Inl err
      | None \<Rightarrow> Inr (
          [0xdc, 0x00, of_int participantProfileFieldCount] @
          msgPackString (pp_ReceiverID profile) @
          msgPackString (pp_BankISPB profile) @
          msgPackString (pp_Name profile) @
          msgPackInt64 (pp_RiskSignal profile) @
          msgPackInt64 (pp_ResolvedAtUnixNano profile) @
          msgPackInt64 (pp_ExpiresAtUnixNano profile)))"

definition msgpack_profile :: "ParticipantProfileCache decoder" where
  "msgpack_profile =
     dec_bind msgPackReader_readArrayLen (\<lambda>count.
       if int count \<noteq> participantProfileFieldCount then
         dec_fail (Opaque (''participant profile msgpack field count '' @ show_int (int count)))
       else
     dec_bind msgPackReader_readString (\<lambda>ReceiverID.
     dec_bind msgPackReader_readString (\<lambda>BankISPB.
     dec_bind msgPackReader_readString (\<lambda>Name.
     dec_bind msgPackReader_readInt64 (\<lambda>risk.
     dec_bind msgPackReader_readInt64 (\<lambda>ResolvedAt.
     dec_bind msgPackReader_readInt64 (\<lambda>ExpiresAt.
     dec_return \<lparr> pp_ReceiverID = ReceiverID, pp_BankISPB = BankISPB, pp_Name = Name, pp_RiskSignal = risk,
       pp_ResolvedAtUnixNano = ResolvedAt, pp_ExpiresAtUnixNano = ExpiresAt \<rparr>)))))))"

definition ParticipantProfileMsgPackCodec_Unmarshal :: "byte list \<Rightarrow> ParticipantProfileCache decoded" where
  "ParticipantProfileMsgPackCodec_Unmarshal = all_read ''participant profile msgpack'' msgpack_profile"

section \<open>CBOR\<close>

definition ParticipantProfileCBORCodec_Marshal :: "ParticipantProfileCache \<Rightarrow> byte list result" where
  "ParticipantProfileCBORCodec_Marshal profile =
     (case validateParticipantProfileCache profile of
        Some err \<Rightarrow> Inl err
      | None \<Rightarrow> Inr (
          cborArray participantProfileFieldCount @
          cborText (pp_ReceiverID profile) @
          cborText (pp_BankISPB profile) @
          cborText (pp_Name profile) @
          cborUint (to_uint64 (pp_RiskSignal profile)) @
          cborUint (to_uint64 (pp_ResolvedAtUnixNano profile)) @
          cborUint (to_uint64 (pp_ExpiresAtUnixNano profile))))"

definition cbor_profile :: "ParticipantProfileCache decoder" where
  "cbor_profile =
     dec_bind cborReader_readArrayLen (\<lambda>count.
       if count \<noteq> participantProfileFieldCount then
         dec_fail (Opaque (''participant profile cbor field count '' @ show_int count))
       else
     dec_bind cborReader_readText (\<lambda>ReceiverID.
     dec_bind cborReader_readText (\<lambda>BankISPB.
     dec_bind cborReader_readText (\<lambda>Name.
     dec_bind cborReader_readUint (\<lambda>risk.
     dec_bind cborReader_readUint (\<lambda>resolvedAt.
     dec_bind cborReader_readUint (\<lambda>expiresAt.
     dec_return \<lparr> pp_ReceiverID = ReceiverID, pp_BankISPB = BankISPB, pp_Name = Name, pp_RiskSignal = to_int64 risk,
       pp_ResolvedAtUnixNano = to_int64 resolvedAt, pp_ExpiresAtUnixNano = to_int64 expiresAt \<rparr>)))))))"

definition ParticipantProfileCBORCodec_Unmarshal :: "byte list \<Rightarrow> ParticipantProfileCache decoded" where
  "ParticipantProfileCBORCodec_Unmarshal = all_read ''participant profile cbor'' cbor_profile"

section \<open>Round trips\<close>

text \<open>A profile that Go can hold, that is valid, and whose strings fit the length prefix.\<close>

definition profile_ok :: "ParticipantProfileCache \<Rightarrow> bool" where
  "profile_ok q \<longleftrightarrow> validateParticipantProfileCache q = None \<and>
     in_int64 (pp_RiskSignal q) \<and> in_int64 (pp_ResolvedAtUnixNano q) \<and> in_int64 (pp_ExpiresAtUnixNano q) \<and>
     (\<forall>v \<in> {pp_ReceiverID q, pp_BankISPB q, pp_Name q}. length v < 65536)"

lemma reads_msgpack_profile:
  assumes "profile_ok q" and "ParticipantProfileMsgPackCodec_Marshal q = Inr raw"
  shows "reads msgpack_profile raw q"
proof -
  have count: "reads msgPackReader_readArrayLen [0xdc, 0x00, of_int participantProfileFieldCount] 6"
    using reads_array_len(1) [of 6] by (simp add: participantProfileFieldCount_def)
  from assms have raw: "raw = [0xdc, 0x00, of_int participantProfileFieldCount] @
      msgPackString (pp_ReceiverID q) @ msgPackString (pp_BankISPB q) @ msgPackString (pp_Name q) @
      msgPackInt64 (pp_RiskSignal q) @ msgPackInt64 (pp_ResolvedAtUnixNano q) @ msgPackInt64 (pp_ExpiresAtUnixNano q)"
    by (simp add: ParticipantProfileMsgPackCodec_Marshal_def profile_ok_def)
  show ?thesis
    unfolding reads_def raw msgpack_profile_def append_assoc reads_then [OF count]
    using assms(1) by (simp add: profile_ok_def reads_then [OF reads_string] reads_then [OF reads_int64] dec_return_def
        participantProfileFieldCount_def)
qed

lemma reads_cbor_profile:
  assumes "profile_ok q" and "ParticipantProfileCBORCodec_Marshal q = Inr raw"
  shows "reads cbor_profile raw q"
proof -
  have count: "reads cborReader_readArrayLen (cborArray participantProfileFieldCount) participantProfileFieldCount"
    by (rule reads_cbor_array_len) (simp add: in_int64_def int64_min_def int64_max_def participantProfileFieldCount_def)
  have texts: "reads cborReader_readText (cborText v) v" if "length v < 65536" for v
    using that by (intro reads_text) (simp add: int64_max_def)
  from assms have raw: "raw = cborArray participantProfileFieldCount @
      cborText (pp_ReceiverID q) @ cborText (pp_BankISPB q) @ cborText (pp_Name q) @ cborUint (to_uint64 (pp_RiskSignal q)) @
      cborUint (to_uint64 (pp_ResolvedAtUnixNano q)) @ cborUint (to_uint64 (pp_ExpiresAtUnixNano q))"
    by (simp add: ParticipantProfileCBORCodec_Marshal_def profile_ok_def)
  show ?thesis
    unfolding reads_def raw cbor_profile_def append_assoc reads_then [OF count]
    using assms(1) by (simp add: profile_ok_def reads_then [OF texts] reads_then [OF reads_cbor_uint] dec_return_def
        to_int64_to_uint64)
qed

interpretation pm: framed_codec ParticipantProfileMsgPackCodec_Marshal ParticipantProfileMsgPackCodec_Unmarshal profile_ok
proof unfold_locales
  fix q
  assume "profile_ok q"
  then show "\<exists>raw. ParticipantProfileMsgPackCodec_Marshal q = Inr raw \<and> ParticipantProfileMsgPackCodec_Unmarshal raw = Decoded q"
    using all_read_exact [OF reads_msgpack_profile]
    by (auto simp: ParticipantProfileMsgPackCodec_Unmarshal_def ParticipantProfileMsgPackCodec_Marshal_def profile_ok_def)
next
  fix q raw raw' y
  assume "profile_ok q" "ParticipantProfileMsgPackCodec_Marshal q = Inr raw" "strict_prefix raw' raw"
  moreover have "extends msgpack_profile" unfolding msgpack_profile_def by (intro extends_msgpack)
  ultimately show "ParticipantProfileMsgPackCodec_Unmarshal raw' \<noteq> Decoded y"
    using all_read_truncated [OF _ reads_msgpack_profile] by (simp add: ParticipantProfileMsgPackCodec_Unmarshal_def)
next
  fix q y and raw extra :: "byte list"
  assume "profile_ok q" "ParticipantProfileMsgPackCodec_Marshal q = Inr raw" "extra \<noteq> []"
  then show "ParticipantProfileMsgPackCodec_Unmarshal (raw @ extra) \<noteq> Decoded y"
    using all_read_trailing [OF reads_msgpack_profile] by (simp add: ParticipantProfileMsgPackCodec_Unmarshal_def)
qed

interpretation pc: framed_codec ParticipantProfileCBORCodec_Marshal ParticipantProfileCBORCodec_Unmarshal profile_ok
proof unfold_locales
  fix q
  assume "profile_ok q"
  then show "\<exists>raw. ParticipantProfileCBORCodec_Marshal q = Inr raw \<and> ParticipantProfileCBORCodec_Unmarshal raw = Decoded q"
    using all_read_exact [OF reads_cbor_profile]
    by (auto simp: ParticipantProfileCBORCodec_Unmarshal_def ParticipantProfileCBORCodec_Marshal_def profile_ok_def)
next
  fix q raw raw' y
  assume "profile_ok q" "ParticipantProfileCBORCodec_Marshal q = Inr raw" "strict_prefix raw' raw"
  moreover have "extends cbor_profile" unfolding cbor_profile_def by (intro extends_cbor)
  ultimately show "ParticipantProfileCBORCodec_Unmarshal raw' \<noteq> Decoded y"
    using all_read_truncated [OF _ reads_cbor_profile] by (simp add: ParticipantProfileCBORCodec_Unmarshal_def)
next
  fix q y and raw extra :: "byte list"
  assume "profile_ok q" "ParticipantProfileCBORCodec_Marshal q = Inr raw" "extra \<noteq> []"
  then show "ParticipantProfileCBORCodec_Unmarshal (raw @ extra) \<noteq> Decoded y"
    using all_read_trailing [OF reads_cbor_profile] by (simp add: ParticipantProfileCBORCodec_Unmarshal_def)
qed

text \<open>
  C33 (participant profiles).  Both cache codecs refuse the same profiles, with the same error: those
  without receiver or bank, with a negative risk signal or resolution time, or that do not expire
  after they were resolved.  Every other profile whose strings are shorter than 65536 bytes comes
  back the same from either encoding, so the two caches hold the same values, and no truncated or
  extended encoding is accepted by its codec.
\<close>

theorem profile_codecs_agree:
  "(\<forall>err. ParticipantProfileMsgPackCodec_Marshal q = Inl err \<longleftrightarrow> ParticipantProfileCBORCodec_Marshal q = Inl err) \<and>
   ((\<exists>err. ParticipantProfileCBORCodec_Marshal q = Inl err) \<longleftrightarrow>
      pp_ReceiverID q = '''' \<or> pp_BankISPB q = '''' \<or> pp_RiskSignal q < 0 \<or> pp_ResolvedAtUnixNano q < 0 \<or>
      pp_ExpiresAtUnixNano q \<le> 0 \<or> pp_ExpiresAtUnixNano q \<le> pp_ResolvedAtUnixNano q) \<and>
   (\<forall>err. ParticipantProfileCBORCodec_Marshal q = Inl err \<longrightarrow> errors_Is err ErrInvalidParticipantProfileCache) \<and>
   (profile_ok q \<longrightarrow>
      (\<exists>m c. ParticipantProfileMsgPackCodec_Marshal q = Inr m \<and> ParticipantProfileCBORCodec_Marshal q = Inr c \<and>
         ParticipantProfileMsgPackCodec_Unmarshal m = Decoded q \<and> ParticipantProfileCBORCodec_Unmarshal c = Decoded q \<and>
         (\<forall>m' y. (prefix m' m \<or> prefix m m') \<and> ParticipantProfileMsgPackCodec_Unmarshal m' = Decoded y \<longrightarrow> m' = m) \<and>
         (\<forall>c' y. (prefix c' c \<or> prefix c c') \<and> ParticipantProfileCBORCodec_Unmarshal c' = Decoded y \<longrightarrow> c' = c)))"
proof (intro conjI impI)
  show "\<forall>err. ParticipantProfileMsgPackCodec_Marshal q = Inl err \<longleftrightarrow> ParticipantProfileCBORCodec_Marshal q = Inl err"
    by (simp add: ParticipantProfileMsgPackCodec_Marshal_def ParticipantProfileCBORCodec_Marshal_def split: option.split)
  show "(\<exists>err. ParticipantProfileCBORCodec_Marshal q = Inl err) \<longleftrightarrow>
      pp_ReceiverID q = '''' \<or> pp_BankISPB q = '''' \<or> pp_RiskSignal q < 0 \<or> pp_ResolvedAtUnixNano q < 0 \<or>
      pp_ExpiresAtUnixNano q \<le> 0 \<or> pp_ExpiresAtUnixNano q \<le> pp_ResolvedAtUnixNano q"
    by (simp add: ParticipantProfileCBORCodec_Marshal_def validateParticipantProfileCache_def)
  show "\<forall>err. ParticipantProfileCBORCodec_Marshal q = Inl err \<longrightarrow> errors_Is err ErrInvalidParticipantProfileCache"
    by (simp add: ParticipantProfileCBORCodec_Marshal_def validateParticipantProfileCache_def)
next
  assume ok: "profile_ok q"
  obtain m where m: "ParticipantProfileMsgPackCodec_Marshal q = Inr m" "ParticipantProfileMsgPackCodec_Unmarshal m = Decoded q"
    using pm.round_trip [OF ok] by blast
  obtain c where c: "ParticipantProfileCBORCodec_Marshal q = Inr c" "ParticipantProfileCBORCodec_Unmarshal c = Decoded q"
    using pc.round_trip [OF ok] by blast
  show "\<exists>m c. ParticipantProfileMsgPackCodec_Marshal q = Inr m \<and> ParticipantProfileCBORCodec_Marshal q = Inr c \<and>
         ParticipantProfileMsgPackCodec_Unmarshal m = Decoded q \<and> ParticipantProfileCBORCodec_Unmarshal c = Decoded q \<and>
         (\<forall>m' y. (prefix m' m \<or> prefix m m') \<and> ParticipantProfileMsgPackCodec_Unmarshal m' = Decoded y \<longrightarrow> m' = m) \<and>
         (\<forall>c' y. (prefix c' c \<or> prefix c c') \<and> ParticipantProfileCBORCodec_Unmarshal c' = Decoded y \<longrightarrow> c' = c)"
    using m c pm.only_exact_frame [OF ok m(1)] pc.only_exact_frame [OF ok c(1)] by (metis (no_types, lifting))
qed

theorem profile_codecs_agree_witness:
  "\<exists>m c. ParticipantProfileMsgPackCodec_Marshal SampleParticipantProfileCache = Inr m \<and>
     ParticipantProfileCBORCodec_Marshal SampleParticipantProfileCache = Inr c \<and>
     ParticipantProfileMsgPackCodec_Unmarshal m = Decoded SampleParticipantProfileCache \<and>
     ParticipantProfileCBORCodec_Unmarshal c = Decoded SampleParticipantProfileCache"
proof -
  have "profile_ok SampleParticipantProfileCache"
    by (simp add: profile_ok_def validateParticipantProfileCache_def SampleParticipantProfileCache_def in_int64_def
        int64_min_def int64_max_def)
  with profile_codecs_agree [of SampleParticipantProfileCache] show ?thesis by blast
qed

text \<open>The readers do not validate: a message whose profile could never be written is accepted.\<close>

lemma invalid_profile_is_read:
  "ParticipantProfileMsgPackCodec_Unmarshal ([0xdc, 0x00, 0x06, 0xa0, 0xa0, 0xa0, 0, 0, 0]) =
     Decoded \<lparr> pp_ReceiverID = '''', pp_BankISPB = '''', pp_Name = '''', pp_RiskSignal = 0,
       pp_ResolvedAtUnixNano = 0, pp_ExpiresAtUnixNano = 0 \<rparr>"
  by code_simp

end
