(* ===== verification/Spec2Isabelle.thy ===== *)
theory Spec2Isabelle
  imports Api_Contract Relay Codec_Proto Codec_Cache Metrics
begin

text \<open>
  A verification of the PIX payment switch of this repository.

  \<^bold>\<open>The program.\<close>  A tenant posts a transfer to the HTTP interface (\<open>internal/api\<close>).  The switch
  (\<open>internal/switcher\<close>) validates it (\<open>internal/rail\<close>), answers a repeated idempotency key with the
  transfer on file, asks two rate limiters (\<open>internal/ratelimit\<close>), resolves the receiver
  (\<open>internal/dict\<close>), scores the risk (\<open>internal/fraud\<close>) and stores the transfer, its audit record and
  its events (\<open>internal/events\<close>) in one step of the store (\<open>internal/store\<close>).  A worker claims an
  accepted transfer for a limited time and submits it to the SPI network (\<open>internal/spi\<close>); a signed
  callback of the provider settles or rejects it; a risk analyst decides on the transfers in review.
  A relay (\<open>internal/messaging\<close>) claims the outbox records and publishes their events.  The codecs
  (\<open>internal/codec\<close>) encode events and cached participant profiles; \<open>internal/config\<close> and
  \<open>internal/app\<close> read the environment and connect the parts; \<open>internal/observability\<close> counts.

  \<^bold>\<open>The theories.\<close>  Definitions carry the names of the source, a function \<open>M\<close> of a type \<open>T\<close> as \<open>T_M\<close>.

  \<^item> \<open>Go_Prelude\<close>: 64-bit integers, time, errors, strings and their library functions;
    \<open>Go_Crypto\<close>: SHA-256 and HMAC, computable.
  \<^item> \<open>Rail\<close> (\<open>rail/model.go\<close>): the transfer with its five state-changing methods, validation and
    fingerprints.  The relation \<open>Transfer_step\<close> is one call of a method.  Lemmas: every reachable
    transfer is well formed, terminal transfers are final, a live claim is exclusive, every transfer
    can still be settled, the fingerprint identifies a request.
  \<^item> \<open>Events\<close> (\<open>events/events.go\<close>): the envelope, the JSON text of payloads, the outbox record.
  \<^item> \<open>Store_Interface\<close> (the interface \<open>Store\<close> of \<open>switcher/service.go\<close>): the operations as a record,
    their contract as the locale \<open>transfer_store\<close> over an abstract view of the store, and
    \<open>interleaved\<close>, the store whose state other callers may change before every call.  The last is a
    device of the model for concurrency and has no counterpart in the source.
  \<^item> \<open>Memory_Store\<close> (\<open>store/memory.go\<close>): every method, under the lock and so one step each.
    The relation \<open>mem_run\<close> is a sequence of calls by anyone.  Lemmas: the invariant of every
    reachable state, at most one approval and settlement, permanent idempotency keys, tenants apart,
    failing calls without effect, an append-only outbox with disjoint claims.  The store and its
    interleaved form are interpretations of \<open>transfer_store\<close>.
  \<^item> \<open>Ratelimit\<close> (\<open>ratelimit/limiter.go\<close>, \<open>strategies.go\<close>): four limiters, interpretations of
    \<open>keyed_limiter\<close>; how much each admits, and that keys do not influence each other.
  \<^item> \<open>Fraud\<close>, \<open>Dict\<close>, \<open>Spi\<close> (\<open>fraud/engine.go\<close>, \<open>dict/resolver.go\<close>, \<open>spi/simulator.go\<close>): the ports the
    application is wired with.
  \<^item> \<open>Switcher\<close> (\<open>switcher/service.go\<close>): the use cases over any store and any ports;
    \<open>Switcher_Contract\<close>: what each of them does to a store that keeps the contract.
  \<^item> \<open>Config\<close> (\<open>config/config.go\<close>) and \<open>App\<close> (\<open>app/runtime.go\<close>): \<open>Load\<close> with its checks, the syntax of
    API keys with its round trip, the wired switch and its risk policy.
  \<^item> \<open>Payment_Flow\<close>: idempotent creation and settlement among concurrent callers, what a creation or
    a review writes, the network only behind a claim, a payment from request to settlement.
  \<^item> \<open>Http\<close>, \<open>Api\<close>, \<open>Api_Contract\<close> (\<open>api/server.go\<close> and what it uses of \<open>net/http\<close>): routes,
    authentication, handlers, signed callbacks, error mapping; who may do what, tenants apart,
    authentic callbacks, failed requests without effect, idempotent \<open>POST\<close>.
  \<^item> \<open>Relay\<close> (\<open>messaging/relay.go\<close>, \<open>topology.go\<close>): \<open>Drain\<close> over any \<open>outbox_store\<close>, the memory store
    as its interpretation; a drain delivers, drops nothing, and backs off within bounds.
  \<^item> \<open>Codec_Base\<close>, \<open>Codec_MsgPack\<close>, \<open>Codec_CBOR\<close>, \<open>Codec_Proto\<close>, \<open>Codec_Cache\<close> (\<open>codec/\<close>): encoders and
    decoders as interpretations of \<open>codec\<close> and \<open>framed_codec\<close>; round trips, exact framing, the
    protobuf decoder ends on every input.
  \<^item> \<open>Metrics\<close> (\<open>observability/metrics.go\<close>): counters, bounded samples, exposition text, and the
    rounding in the index of a percentile.

  \<^bold>\<open>Conventions.\<close>  A use case and a store call take as an argument what they read from outside: the
  clock, the random source, the end of the context, the answers of ports.  The properties hold for
  all such readings.  Errors are values, \<open>Inl\<close> of a sum or \<open>Some\<close> of an option.  A nil slice and an
  empty one are the same list.  \<open>Marshal\<close> and \<open>Unmarshal\<close> of \<open>encoding/json\<close> are parameters where the
  source hands them a struct of a request.

  \<^bold>\<open>Bounds.\<close>  There is no fuel.  Loops are structural or have a termination proof; only the loop of
  the protobuf decoder is a \<open>partial_function\<close>, proved to return.  The 64-bit operations wrap; where
  a property needs that they do not, it says so: fewer than \<open>2 ^ 63\<close> outbox records, strings of less
  than 65536 bytes in MessagePack, limiter sizes whose refill does not overflow.  The greatest
  capacity that \<open>make\<close> grants is the parameter \<open>max_cap\<close> of the CBOR decoder.  SHA-256 may collide:
  what needs two values to be told apart names the two inputs (\<open>sha256_separates\<close>).

  \<^bold>\<open>Limits of the program shown here.\<close>  A NUL byte in a request makes the fingerprint ambiguous; a
  long string is cut by the MessagePack encoder; an announced list length makes the CBOR decoder
  panic; the protobuf encoder drops empty rules; the readers of the profile cache do not validate;
  huge bucket and pool sizes overflow; a first backoff can exceed the maximum; the count of a
  latency summary stops at 1024; a repeated callback leaves no further record.

  \<^bold>\<open>Not modelled.\<close>  The store and the migrations of \<open>internal/postgres\<close>, whose effects are those of SQL
  statements, constraints and row locks in the database server; the JSON event codec
  (\<open>codec/json.go\<close>), a single call of the library in each direction; \<open>observability/tracing.go\<close> and
  \<open>app/pprof.go\<close>, which only configure libraries; the three \<open>main\<close> functions under \<open>cmd\<close>, which start
  processes, tickers and signal handlers around the modelled functions; log lines and spans, which
  no function of the program reads.
\<close>

end
